(* ===== verification/Prelude.thy ===== *)
theory Prelude
  imports Complex_Main "HOL-Library.Word" "HOL-Library.AList"
begin

text \<open>
  What every component shares: the exception-state monad in which the methods of the client
  are written, the contract \<open>evolution\<close> for relations that every step of a method keeps,
  and the decimal rendering of integers that Python's f-strings use.

  A Python method that reads and writes objects of type \<open>'s\<close>, may raise an exception of
  type \<open>'e\<close> and returns an \<open>'a\<close> is a function \<open>'s \<Rightarrow> ('e + 'a) \<times> 's\<close>. The state comes
  back in both cases: what a method wrote before it raised stays written.
\<close>

type_synonym ('s, 'e, 'a) io = "'s \<Rightarrow> ('e + 'a) \<times> 's"

named_theorems run_simps \<open>equations that execute the combinators on a given state\<close>
named_theorems stays_rules \<open>facts of the form stays R m\<close>

section \<open>Methods as state transformers with exceptions\<close>

text \<open>\<open>return x\<close>\<close>

definition ret :: "'a \<Rightarrow> ('s, 'e, 'a) io" where
  "ret x = (\<lambda>s. (Inr x, s))"

text \<open>\<open>raise e\<close>\<close>

definition throw :: "'e \<Rightarrow> ('s, 'e, 'a) io" where
  "throw e = (\<lambda>s. (Inl e, s))"

text \<open>\<open>x = m; f(x)\<close>\<close>

definition bnd :: "('s, 'e, 'a) io \<Rightarrow> ('a \<Rightarrow> ('s, 'e, 'b) io) \<Rightarrow> ('s, 'e, 'b) io" where
  "bnd m f = (\<lambda>s. case m s of (r, s') \<Rightarrow> (case r of Inl e \<Rightarrow> (Inl e, s') | Inr x \<Rightarrow> f x s'))"

text \<open>\<open>m; k\<close>\<close>

definition seq :: "('s, 'e, 'a) io \<Rightarrow> ('s, 'e, 'b) io \<Rightarrow> ('s, 'e, 'b) io" where
  "seq m k = bnd m (\<lambda>_. k)"

text \<open>\<open>try: m except Exception as e: h(e)\<close>\<close>

definition handle :: "('s, 'e, 'a) io \<Rightarrow> ('e \<Rightarrow> ('s, 'e, 'a) io) \<Rightarrow> ('s, 'e, 'a) io" where
  "handle m h = (\<lambda>s. case m s of (r, s') \<Rightarrow> (case r of Inl e \<Rightarrow> h e s' | Inr x \<Rightarrow> (Inr x, s')))"

text \<open>Reading and writing fields.\<close>

definition gets :: "('s \<Rightarrow> 'a) \<Rightarrow> ('s, 'e, 'a) io" where
  "gets f = (\<lambda>s. (Inr (f s), s))"

definition modify :: "('s \<Rightarrow> 's) \<Rightarrow> ('s, 'e, unit) io" where
  "modify f = (\<lambda>s. (Inr (), f s))"

text \<open>A computation that cannot raise, and a result that is already there.\<close>

definition total_io :: "('s \<Rightarrow> 'a \<times> 's) \<Rightarrow> ('s, 'e, 'a) io" where
  "total_io f = (\<lambda>s. case f s of (x, s') \<Rightarrow> (Inr x, s'))"

definition of_result :: "'e + 'a \<Rightarrow> ('s, 'e, 'a) io" where
  "of_result r = (\<lambda>s. (r, s))"

text \<open>A method of an object inside the state: \<open>get\<close> finds the object, \<open>put\<close> stores it back.\<close>

definition zoom :: "('s \<Rightarrow> 't) \<Rightarrow> ('t \<Rightarrow> 's \<Rightarrow> 's) \<Rightarrow> ('t, 'e, 'a) io \<Rightarrow> ('s, 'e, 'a) io" where
  "zoom get put m = (\<lambda>s. case m (get s) of (r, t) \<Rightarrow> (r, put t s))"

text \<open>A method that works on the second of two objects only.\<close>

definition on_snd :: "('w, 'e, 'a) io \<Rightarrow> ('t \<times> 'w, 'e, 'a) io" where
  "on_snd m = (\<lambda>(t, w). case m w of (r, w') \<Rightarrow> (r, (t, w')))"

text \<open>\<open>for x in xs: f(x)\<close>, and the list of the results as in a comprehension.\<close>

fun for_each :: "('b \<Rightarrow> ('s, 'e, 'a) io) \<Rightarrow> 'b list \<Rightarrow> ('s, 'e, 'a list) io" where
  "for_each f [] = ret []"
| "for_each f (x # xs) = bnd (f x) (\<lambda>y. bnd (for_each f xs) (\<lambda>ys. ret (y # ys)))"

lemma ret_run [run_simps]: "ret x s = (Inr x, s)"
  by (simp add: ret_def)

lemma throw_run [run_simps]: "throw e s = (Inl e, s)"
  by (simp add: throw_def)

lemma bnd_run [run_simps]:
  "bnd m f s = (case m s of (r, s') \<Rightarrow> (case r of Inl e \<Rightarrow> (Inl e, s') | Inr x \<Rightarrow> f x s'))"
  by (simp add: bnd_def)

lemma seq_run [run_simps]:
  "seq m k s = (case m s of (r, s') \<Rightarrow> (case r of Inl e \<Rightarrow> (Inl e, s') | Inr x \<Rightarrow> k s'))"
  by (simp add: seq_def bnd_def)

lemma handle_run [run_simps]:
  "handle m h s = (case m s of (r, s') \<Rightarrow> (case r of Inl e \<Rightarrow> h e s' | Inr x \<Rightarrow> (Inr x, s')))"
  by (simp add: handle_def)

lemma gets_run [run_simps]: "gets f s = (Inr (f s), s)"
  by (simp add: gets_def)

lemma modify_run [run_simps]: "modify f s = (Inr (), f s)"
  by (simp add: modify_def)

lemma total_io_run [run_simps]: "total_io f s = (case f s of (x, s') \<Rightarrow> (Inr x, s'))"
  by (simp add: total_io_def)

lemma of_result_run [run_simps]: "of_result r s = (r, s)"
  by (simp add: of_result_def)

lemma zoom_run [run_simps]: "zoom get put m s = (case m (get s) of (r, t) \<Rightarrow> (r, put t s))"
  by (simp add: zoom_def)

lemma on_snd_run [run_simps]: "on_snd m (t, w) = (case m w of (r, w') \<Rightarrow> (r, (t, w')))"
  by (simp add: on_snd_def)

lemma bnd_assoc: "bnd (bnd m f) g = bnd m (\<lambda>x. bnd (f x) g)"
  by (auto simp: bnd_def fun_eq_iff split: prod.split sum.split)

lemma seq_bnd_assoc: "seq (bnd m f) k = bnd m (\<lambda>x. seq (f x) k)"
  by (simp add: seq_def bnd_assoc)

section \<open>Relations that every step of a method keeps\<close>

text \<open>
  \<open>stays R m\<close>: whatever state \<open>m\<close> starts in, and whether it returns or raises, the state it
  leaves is related to the first by \<open>R\<close>. For a reflexive and transitive \<open>R\<close> the combinators
  keep it, so a method keeps it when its primitive steps do.
\<close>

definition stays :: "('s \<Rightarrow> 's \<Rightarrow> bool) \<Rightarrow> ('s, 'e, 'a) io \<Rightarrow> bool" where
  "stays R m \<longleftrightarrow> (\<forall>s. R s (snd (m s)))"

lemma staysI: "(\<And>s. R s (snd (m s))) \<Longrightarrow> stays R m"
  by (simp add: stays_def)

lemma staysD: "stays R m \<Longrightarrow> m s = (r, s') \<Longrightarrow> R s s'"
  by (metis snd_conv stays_def)

lemma stays_snd: "stays R m \<Longrightarrow> R s (snd (m s))"
  by (simp add: stays_def)

locale evolution =
  fixes R :: "'s \<Rightarrow> 's \<Rightarrow> bool"
  assumes refl: "R s s"
    and trans: "R s t \<Longrightarrow> R t u \<Longrightarrow> R s u"
begin

lemma ret: "stays R (ret x)"
  by (simp add: stays_def ret_run refl)

lemma throw: "stays R (throw e)"
  by (simp add: stays_def throw_run refl)

lemma gets: "stays R (gets f)"
  by (simp add: stays_def gets_run refl)

lemma of_result: "stays R (of_result r)"
  by (simp add: stays_def of_result_run refl)

lemma bnd:
  assumes "stays R m" and "\<And>x. stays R (f x)"
  shows "stays R (bnd m f)"
proof (rule staysI)
  fix s
  obtain r s' where m: "m s = (r, s')" by fastforce
  with assms(1) have "R s s'" by (rule staysD)
  then show "R s (snd (bnd m f s))"
    using assms(2) m by (auto simp: bnd_run stays_def intro: trans split: sum.split)
qed

lemma seq: "stays R m \<Longrightarrow> stays R k \<Longrightarrow> stays R (seq m k)"
  by (simp add: seq_def bnd)

lemma handle:
  assumes "stays R m" and "\<And>e. stays R (h e)"
  shows "stays R (handle m h)"
proof (rule staysI)
  fix s
  obtain r s' where m: "m s = (r, s')" by fastforce
  with assms(1) have "R s s'" by (rule staysD)
  then show "R s (snd (handle m h s))"
    using assms(2) m by (auto simp: handle_run stays_def intro: trans split: sum.split)
qed

lemma for_each:
  assumes "\<And>x. x \<in> set xs \<Longrightarrow> stays R (f x)"
  shows "stays R (for_each f xs)"
  using assms by (induction xs) (auto intro!: bnd ret)

lemma if_then: "(b \<Longrightarrow> stays R m) \<Longrightarrow> (\<not> b \<Longrightarrow> stays R k) \<Longrightarrow> stays R (if b then m else k)"
  by simp

lemmas steps = ret throw gets of_result bnd seq handle if_then

end

text \<open>A loop over a list that returns, with a fact for every element that the rest of the loop keeps.\<close>

lemma for_each_post:
  assumes "evolution R"
    and step: "\<And>x s. x \<in> set xs \<Longrightarrow> I s \<Longrightarrow> \<exists>y s1. f x s = (Inr y, s1) \<and> R s s1 \<and> Q x s1 \<and> I s1"
    and kept: "\<And>x s s1. Q x s \<Longrightarrow> R s s1 \<Longrightarrow> Q x s1"
    and "I s"
  shows "\<exists>ys s'. for_each f xs s = (Inr ys, s') \<and> R s s' \<and> I s' \<and> (\<forall>x \<in> set xs. Q x s')"
  using step \<open>I s\<close>
proof (induction xs arbitrary: s)
  case Nil
  then show ?case by (simp add: ret_run evolution.refl [OF assms(1)])
next
  case (Cons x xs)
  obtain y s1 where s1: "f x s = (Inr y, s1)" "R s s1" "Q x s1" "I s1"
    using Cons.prems by force
  obtain ys s2 where s2: "for_each f xs s1 = (Inr ys, s2)" "R s1 s2" "I s2" "\<forall>x \<in> set xs. Q x s2"
    using Cons.IH [of s1] Cons.prems(1) s1(4) by force
  have "for_each f (x # xs) s = (Inr (y # ys), s2)"
    using s1(1) s2(1) by (simp add: bnd_run ret_run)
  with s1 s2 kept [of x s1 s2] show ?case
    by (auto intro: evolution.trans [OF assms(1)])
qed

lemma stays_conj:
  "stays R m \<Longrightarrow> stays Q m \<Longrightarrow> stays (\<lambda>s t. R s t \<and> Q s t) m"
  by (simp add: stays_def)

lemma stays_mono: "stays R m \<Longrightarrow> (\<And>s t. R s t \<Longrightarrow> Q s t) \<Longrightarrow> stays Q m"
  by (simp add: stays_def)

lemma stays_on_snd: "stays R m \<Longrightarrow> stays (\<lambda>s t. R (snd s) (snd t)) (on_snd m)"
  by (auto simp: on_snd_def intro!: staysI split: prod.split dest: staysD)

lemma stays_modify: "(\<And>s. R s (f s)) \<Longrightarrow> stays R (modify f)"
  by (simp add: stays_def modify_run)

text \<open>Equality of a projection is the smallest such relation: a field that no step writes.\<close>

definition same :: "('s \<Rightarrow> 'a) \<Rightarrow> 's \<Rightarrow> 's \<Rightarrow> bool" where
  "same f s t \<longleftrightarrow> f t = f s"

interpretation same: evolution "same f" for f
  by unfold_locales (simp_all add: same_def)

section \<open>Dictionaries\<close>

text \<open>\<open>{k: v for k, v in results}\<close>: a repeated name keeps its place and takes the last
  value.\<close>

definition dict_of :: "('k \<times> 'v) list \<Rightarrow> ('k \<times> 'v) list" where
  "dict_of results = fold (\<lambda>(k, v). AList.update k v) results []"

lemma update_fold:
  "map_of (fold (\<lambda>(k, v). AList.update k v) xs al) = map_of al ++ map_of (rev xs)"
proof (induction xs arbitrary: al)
  case (Cons x xs)
  show ?case
    by (cases x) (simp add: Cons.IH update_conv' map_add_def fun_eq_iff split: option.split)
qed simp

lemma dict_of_distinct: "distinct (map fst (dict_of xs))"
proof -
  have "distinct (map fst (fold (\<lambda>(k, v). AList.update k v) xs al))" if "distinct (map fst al)"
    for al :: "('a \<times> 'b) list"
    using that by (induction xs arbitrary: al) (auto simp: distinct_update)
  then show ?thesis by (simp add: dict_of_def)
qed

lemma dict_of_set: "set (dict_of xs) \<subseteq> set xs"
proof
  fix x
  assume "x \<in> set (dict_of xs)"
  then have "map_of (dict_of xs) (fst x) = Some (snd x)"
    using dict_of_distinct [of xs] by (intro map_of_is_SomeI) simp_all
  then have "map_of (rev xs) (fst x) = Some (snd x)" by (simp add: dict_of_def update_fold)
  then show "x \<in> set xs" using map_of_SomeD by fastforce
qed

lemma dict_of_keys: "fst ` set (dict_of xs) = fst ` set xs"
proof -
  have "dom (map_of (dict_of xs)) = dom (map_of (rev xs))"
    by (simp add: dict_of_def update_fold)
  then show ?thesis by (simp add: dom_map_of_conv_image_fst)
qed

end
