(* ===== verification/Errors.thy ===== *)
theory Errors
  imports Prelude
begin

text \<open>
  The exceptions of the client (\<open>danube/errors.py\<close>) beside those its libraries raise: the
  status codes of gRPC's \<open>AioRpcError\<close> and Python's own \<open>ValueError\<close>, \<open>IndexError\<close> and so on.
  \<open>CancelledError\<close> is the one that \<open>except Exception\<close> does not catch; only the example scripts meet it.
  The string of \<open>AioRpcError\<close> is the text that \<open>str(err)\<close> gives.
\<close>

datatype StatusCode =
    OK | CANCELLED | UNKNOWN | INVALID_ARGUMENT | DEADLINE_EXCEEDED | NOT_FOUND
  | ALREADY_EXISTS | PERMISSION_DENIED | RESOURCE_EXHAUSTED | FAILED_PRECONDITION | ABORTED
  | OUT_OF_RANGE | UNIMPLEMENTED | INTERNAL | UNAVAILABLE | DATA_LOSS | UNAUTHENTICATED

datatype exn =
    DanubeError string
  | UnrecoverableError string
  | LookupError string
  | AioRpcError StatusCode string
  | ValueError string
  | ZeroDivisionError
  | IndexError
  | AttributeError
  | OSError string
  | NotImplementedError string
  | RuntimeError string
  | TypeError
  | KeyError string
  | UnicodeDecodeError
  | JSONDecodeError
  | CancelledError
  | OtherException string

type_synonym ('s, 'a) py = "('s, exn, 'a) io"

text \<open>\<open>isinstance(err, DanubeError)\<close>: the class and its two subclasses.\<close>

fun is_DanubeError :: "exn \<Rightarrow> bool" where
  "is_DanubeError (DanubeError _) = True"
| "is_DanubeError (UnrecoverableError _) = True"
| "is_DanubeError (LookupError _) = True"
| "is_DanubeError _ = False"

text \<open>\<open>isinstance(err, UnrecoverableError)\<close>\<close>

fun is_UnrecoverableError :: "exn \<Rightarrow> bool" where
  "is_UnrecoverableError (UnrecoverableError _) = True"
| "is_UnrecoverableError _ = False"

lemma unrecoverable_is_danube [simp]: "is_UnrecoverableError e \<Longrightarrow> is_DanubeError e"
  by (cases e) simp_all

end
