(* ===== verification/PyText.thy ===== *)
theory PyText
  imports Errors
begin

text \<open>
  Python's text, bytes and decimal rendering. A \<open>str\<close> is represented by the bytes of its UTF-8
  encoding, one \<open>char\<close> for each byte: equality, concatenation, emptiness and prefixes of
  the texts are those of the byte strings, and \<open>str.encode()\<close> only changes the type.
\<close>

type_synonym bytes = "8 word list"

definition encode :: "string \<Rightarrow> bytes" where
  "encode s = map of_char s"

text \<open>\<open>int\<close> in an f-string\<close>

definition digit :: "nat \<Rightarrow> char" where
  "digit d = ''0123456789'' ! d"

fun dec :: "nat \<Rightarrow> string" where
  "dec n = (if n < 10 then [digit n] else dec (n div 10) @ [digit (n mod 10)])"

declare dec.simps [simp del]

definition str_int :: "int \<Rightarrow> string" where
  "str_int i = (if i < 0 then ''-'' @ dec (nat (- i)) else dec (nat i))"

text \<open>\<open>str.lower()\<close> as far as its result is compared with an ASCII text: the ASCII capitals, and
  the Kelvin sign U+212A (the bytes E2 84 AA), the only character outside ASCII whose lower
  case is an ASCII text. The lower case of any other character is not ASCII either way.\<close>

definition lower_ascii :: "char \<Rightarrow> char" where
  "lower_ascii c =
     (let n = (of_char c :: nat) in if 65 \<le> n \<and> n \<le> 90 then char_of (n + 32) else c)"

fun lower :: "string \<Rightarrow> string" where
  "lower (a # b # c # cs) =
     (if a = CHR 0xE2 \<and> b = CHR 0x84 \<and> c = CHR 0xAA then CHR ''k'' # lower cs
      else lower_ascii a # lower (b # c # cs))"
| "lower (a # cs) = lower_ascii a # lower cs"
| "lower [] = []"

text \<open>\<open>bytes.decode("utf-8")\<close>: the well-formed byte sequences, as the table of the Unicode
  standard lists them (no overlong forms, no surrogates, nothing above U+10FFFF). With the error
  handler \<open>surrogatepass\<close>, the flag \<open>pass\<close>, the encoded surrogates are accepted as well.\<close>

definition cont :: "8 word \<Rightarrow> bool" where
  "cont b \<longleftrightarrow> 0x80 \<le> b \<and> b \<le> 0xBF"

fun utf8_wf :: "bool \<Rightarrow> bytes \<Rightarrow> bool" where
  "utf8_wf pass [] = True"
| "utf8_wf pass (a # bs) =
     (if a \<le> 0x7F then utf8_wf pass bs
      else if 0xC2 \<le> a \<and> a \<le> 0xDF then
        (case bs of b # r \<Rightarrow> cont b \<and> utf8_wf pass r | _ \<Rightarrow> False)
      else if 0xE0 \<le> a \<and> a \<le> 0xEF then
        (case bs of b # c # r \<Rightarrow>
            cont b \<and> cont c \<and> (a = 0xE0 \<longrightarrow> 0xA0 \<le> b) \<and> (a = 0xED \<and> \<not> pass \<longrightarrow> b \<le> 0x9F) \<and> utf8_wf pass r
         | _ \<Rightarrow> False)
      else if 0xF0 \<le> a \<and> a \<le> 0xF4 then
        (case bs of b # c # d # r \<Rightarrow>
            cont b \<and> cont c \<and> cont d \<and> (a = 0xF0 \<longrightarrow> 0x90 \<le> b) \<and> (a = 0xF4 \<longrightarrow> b \<le> 0x8F) \<and> utf8_wf pass r
         | _ \<Rightarrow> False)
      else False)"

text \<open>A \<open>str\<close> back from its bytes.\<close>

definition text_of :: "bytes \<Rightarrow> string" where
  "text_of bs = map (\<lambda>b. char_of (unat b)) bs"

definition decode_utf8 :: "bytes \<Rightarrow> exn + string" where
  "decode_utf8 bs =
     (if utf8_wf False bs then Inr (text_of bs) else Inl UnicodeDecodeError)"

section \<open>Decimal numbers are injective\<close>

lemma digit_inj: "a < 10 \<Longrightarrow> b < 10 \<Longrightarrow> digit a = digit b \<longleftrightarrow> a = b"
  unfolding digit_def by (rule nth_eq_iff_index_eq) simp_all

lemma dec_nonempty [simp]: "dec n \<noteq> []"
  by (subst dec.simps) simp

lemma dec_inj: "dec m = dec n \<longleftrightarrow> m = n"
proof
  show "dec m = dec n \<Longrightarrow> m = n"
  proof (induction m arbitrary: n rule: less_induct)
    case (less m)
    have last: "digit (m mod 10) = digit (n mod 10)"
    proof -
      have "last (dec k) = digit (k mod 10)" for k
        by (subst dec.simps) simp
      with less.prems show ?thesis by metis
    qed
    have front: "butlast (dec k) = (if k < 10 then [] else dec (k div 10))" for k
      by (subst dec.simps) simp
    from last have mods: "m mod 10 = n mod 10"
      by (simp add: digit_inj)
    from front [of m] front [of n] less.prems
    have fronts: "(if m < 10 then [] else dec (m div 10)) = (if n < 10 then [] else dec (n div 10))"
      by simp
    show ?case
    proof (cases "m < 10")
      case True
      with fronts have "n < 10" by (metis dec_nonempty)
      with True mods show ?thesis by simp
    next
      case False
      with fronts have "\<not> n < 10" and "dec (m div 10) = dec (n div 10)"
        by (auto split: if_splits)
      with less.IH [of "m div 10"] False have "m div 10 = n div 10" by simp
      with mods show ?thesis by (metis div_mult_mod_eq)
    qed
  qed
qed simp

lemma dec_chars: "set (dec n) \<subseteq> set ''0123456789''"
proof (induction n rule: dec.induct)
  case (1 n)
  have "digit d \<in> set ''0123456789''" if "d < 10" for d
    unfolding digit_def using that by (intro nth_mem) simp
  then show ?case
    using 1 by (subst dec.simps) auto
qed

lemma str_int_inj: "str_int a = str_int b \<longleftrightarrow> a = b"
proof -
  have neg: "CHR ''-'' # xs \<noteq> dec n" for n xs
  proof
    assume "CHR ''-'' # xs = dec n"
    then have "CHR ''-'' \<in> set (dec n)" by (metis list.set_intros(1))
    with dec_chars [of n] show False by auto
  qed
  show ?thesis
    using neg neg [symmetric] by (auto simp: str_int_def dec_inj split: if_splits)
qed

lemma encode_inj: "encode s = encode t \<longleftrightarrow> s = t"
proof -
  have "inj (of_char :: char \<Rightarrow> 8 word)"
  proof (rule injI)
    fix c d :: char
    assume "(of_char c :: 8 word) = of_char d"
    then have "(of_nat (of_char c) :: 8 word) = of_nat (of_char d)"
      by (simp add: of_char_def of_nat_of_char)
    then have "(of_char c :: nat) mod 256 = of_char d mod 256"
      by (simp add: of_nat_eq_iff word_of_nat_eq_iff take_bit_eq_mod)
    then show "c = d" by (simp add: of_char_mod_256)
  qed
  then show ?thesis by (simp add: encode_def inj_map_eq_map)
qed

end
