(* ===== verification/Schema.thy ===== *)
theory Schema
  imports PyText
begin

text \<open>
  \<open>danube/schema.py\<close>: the two enumerations with their wire names and parsers, and the
  description of a registered schema. An \<open>Enum\<close> called on a value searches its members.
  \<open>uint64\<close> and \<open>uint32\<close> fields of the protocol are \<open>64 word\<close> and \<open>32 word\<close>.
\<close>

datatype CompatibilityMode = NONE | BACKWARD | FORWARD | FULL

fun compat_as_string :: "CompatibilityMode \<Rightarrow> string" where
  "compat_as_string NONE = ''none''"
| "compat_as_string BACKWARD = ''backward''"
| "compat_as_string FORWARD = ''forward''"
| "compat_as_string FULL = ''full''"

definition compat_parse :: "string \<Rightarrow> exn + CompatibilityMode" where
  "compat_parse value =
     (case find (\<lambda>m. lower value = compat_as_string m) [NONE, BACKWARD, FORWARD, FULL] of
        Some m \<Rightarrow> Inr m
      | None \<Rightarrow> Inl (ValueError (''unknown compatibility mode: '' @ value)))"

datatype SchemaType = BYTES | STRING | NUMBER | AVRO | JSON_SCHEMA | PROTOBUF

fun schema_as_string :: "SchemaType \<Rightarrow> string" where
  "schema_as_string BYTES = ''bytes''"
| "schema_as_string STRING = ''string''"
| "schema_as_string NUMBER = ''number''"
| "schema_as_string AVRO = ''avro''"
| "schema_as_string JSON_SCHEMA = ''json_schema''"
| "schema_as_string PROTOBUF = ''protobuf''"

definition schema_parse :: "string \<Rightarrow> exn + SchemaType" where
  "schema_parse value =
     (let v = lower value in
      if v \<in> {''jsonschema'', ''json_schema''} then Inr JSON_SCHEMA
      else if v \<in> {''protobuf'', ''proto''} then Inr PROTOBUF
      else (case find (\<lambda>m. v = schema_as_string m)
                    [BYTES, STRING, NUMBER, AVRO, JSON_SCHEMA, PROTOBUF] of
              Some m \<Rightarrow> Inr m
            | None \<Rightarrow> Inl (ValueError (''unknown schema type: '' @ value))))"

record SchemaInfo =
  si_schema_id :: "64 word"
  si_subject :: string
  si_version :: "32 word"
  si_schema_type :: string
  si_schema_definition :: bytes
  si_fingerprint :: string

definition schema_definition_as_string :: "SchemaInfo \<Rightarrow> exn + string" where
  "schema_definition_as_string si = decode_utf8 (si_schema_definition si)"

section \<open>Parsing\<close>

lemma compat_parse_as_string: "compat_parse (compat_as_string m) = Inr m"
  by (cases m) (simp_all add: compat_parse_def lower_ascii_def)

lemma schema_parse_as_string: "schema_parse (schema_as_string m) = Inr m"
  by (cases m) (simp_all add: schema_parse_def lower_ascii_def)

text \<open>What the parsers accept, exactly.\<close>

lemma compat_parse_iff: "compat_parse s = Inr m \<longleftrightarrow> lower s = compat_as_string m"
  by (cases m) (auto simp: compat_parse_def split: option.splits if_splits)

lemma schema_parse_iff:
  "schema_parse s = Inr m \<longleftrightarrow>
     lower s = schema_as_string m \<or> m = JSON_SCHEMA \<and> lower s = ''jsonschema''
       \<or> m = PROTOBUF \<and> lower s = ''proto''"
  by (cases m) (auto simp: schema_parse_def Let_def split: option.splits if_splits)

lemma compat_parse_error:
  "compat_parse s = Inl e \<Longrightarrow> e = ValueError (''unknown compatibility mode: '' @ s)"
  by (auto simp: compat_parse_def split: option.splits)

lemma schema_parse_error:
  "schema_parse s = Inl e \<Longrightarrow> e = ValueError (''unknown schema type: '' @ s)"
  by (auto simp: schema_parse_def Let_def split: option.splits if_splits)

text \<open>Spelling in capitals does not matter.\<close>

lemma lower_ascii_idem [simp]: "lower_ascii (lower_ascii c) = lower_ascii c"
  by (auto simp: lower_ascii_def Let_def)

lemma compat_as_string_inj: "compat_as_string a = compat_as_string b \<longleftrightarrow> a = b"
  by (cases a; cases b) simp_all

lemma schema_as_string_inj: "schema_as_string a = schema_as_string b \<longleftrightarrow> a = b"
  by (cases a; cases b) simp_all

end
