(* ===== verification/RetryManager.thy ===== *)
theory RetryManager
  imports Errors
begin

text \<open>
  \<open>danube/retry_manager.py\<close>: the retry limits and their defaults, which errors are worth a
  retry, the jittered backoff, and the header that routes a call through the proxy.
  Python's integers are \<open>int\<close>; a duration in seconds is a rational (\<open>jitter_ms / 1000\<close>
  without the rounding of binary floats). \<open>random.randint\<close> takes the next number of the
  random source as an argument, reduced into the range it is asked for.
\<close>

definition DEFAULT_MAX_RETRIES :: int where "DEFAULT_MAX_RETRIES = 5"
definition DEFAULT_BASE_BACKOFF_MS :: int where "DEFAULT_BASE_BACKOFF_MS = 200"
definition DEFAULT_MAX_BACKOFF_MS :: int where "DEFAULT_MAX_BACKOFF_MS = 5000"

record RetryManager =
  max_retries :: int
  base_backoff_ms :: int
  max_backoff_ms :: int

definition new_RetryManager :: "int \<Rightarrow> int \<Rightarrow> int \<Rightarrow> RetryManager" where
  "new_RetryManager retries base cap =
     \<lparr>max_retries = (if retries > 0 then retries else DEFAULT_MAX_RETRIES),
      base_backoff_ms = (if base > 0 then base else DEFAULT_BASE_BACKOFF_MS),
      max_backoff_ms = (if cap > 0 then cap else DEFAULT_MAX_BACKOFF_MS)\<rparr>"

fun is_retryable :: "exn \<Rightarrow> bool" where
  "is_retryable (AioRpcError code _) =
     (code \<in> {UNAVAILABLE, DEADLINE_EXCEEDED, RESOURCE_EXHAUSTED})"
| "is_retryable _ = False"

text \<open>\<open>random.randint(low, high)\<close>: both ends included; an empty range raises.\<close>

definition randint :: "int \<Rightarrow> int \<Rightarrow> nat \<Rightarrow> exn + int" where
  "randint low high u =
     (if high < low then Inl (ValueError ''empty range in randrange'')
      else Inr (low + int u mod (high - low + 1)))"

definition calculate_backoff :: "RetryManager \<Rightarrow> int \<Rightarrow> nat \<Rightarrow> exn + rat" where
  "calculate_backoff rm attempt u =
     (let linear = base_backoff_ms rm * (attempt + 1);
          linear = (if linear > max_backoff_ms rm then max_backoff_ms rm else linear);
          low = max (linear div 2) 1
      in case randint low linear u of
           Inl e \<Rightarrow> Inl e
         | Inr jitter_ms \<Rightarrow> Inr (of_int jitter_ms / 1000))"

type_synonym metadata = "(string \<times> string) list"

definition insert_proxy_header :: "metadata option \<Rightarrow> string \<Rightarrow> bool \<Rightarrow> metadata option" where
  "insert_proxy_header md broker_url proxy =
     (if \<not> proxy then md
      else (let entry = (''x-danube-broker-url'', broker_url)
            in case md of None \<Rightarrow> Some [entry] | Some m \<Rightarrow> Some (m @ [entry])))"

section \<open>Limits and backoff\<close>

text \<open>A manager as the constructor makes it: all three limits are positive.\<close>

definition rm_ok :: "RetryManager \<Rightarrow> bool" where
  "rm_ok rm \<longleftrightarrow> 0 < max_retries rm \<and> 0 < base_backoff_ms rm \<and> 0 < max_backoff_ms rm"

lemma new_RetryManager_ok [simp, intro]: "rm_ok (new_RetryManager r b c)"
  by (simp add: rm_ok_def new_RetryManager_def DEFAULT_MAX_RETRIES_def
      DEFAULT_BASE_BACKOFF_MS_def DEFAULT_MAX_BACKOFF_MS_def)

text \<open>The delay before jitter, in milliseconds.\<close>

definition linear_ms :: "RetryManager \<Rightarrow> int \<Rightarrow> int" where
  "linear_ms rm attempt = min (base_backoff_ms rm * (attempt + 1)) (max_backoff_ms rm)"

lemma linear_ms_pos:
  assumes "rm_ok rm" and "0 \<le> attempt"
  shows "1 \<le> linear_ms rm attempt"
proof -
  from assms have "0 < base_backoff_ms rm * (attempt + 1)"
    by (simp add: rm_ok_def)
  with assms(1) show ?thesis
    by (simp add: linear_ms_def rm_ok_def int_one_le_iff_zero_less)
qed

lemma linear_ms_le_cap: "linear_ms rm attempt \<le> max_backoff_ms rm"
  by (simp add: linear_ms_def)

lemma linear_ms_mono:
  assumes "rm_ok rm" and "a \<le> b"
  shows "linear_ms rm a \<le> linear_ms rm b"
proof -
  from assms have "base_backoff_ms rm * (a + 1) \<le> base_backoff_ms rm * (b + 1)"
    by (simp add: rm_ok_def mult_left_mono)
  then show ?thesis by (auto simp: linear_ms_def)
qed

lemma randint_in_range:
  assumes "low \<le> high"
  obtains r where "randint low high u = Inr r" and "low \<le> r" and "r \<le> high"
proof -
  have "0 \<le> int u mod (high - low + 1)" and "int u mod (high - low + 1) < high - low + 1"
    using assms pos_mod_sign [of "high - low + 1" "int u"] pos_mod_bound [of "high - low + 1" "int u"]
    by linarith+
  with assms show ?thesis
    by (intro that [of "low + int u mod (high - low + 1)"]) (auto simp: randint_def)
qed

lemma randint_reaches:
  assumes "low \<le> r" and "r \<le> high"
  shows "randint low high (nat (r - low)) = Inr r"
  using assms by (simp add: randint_def)

lemma calculate_backoff_eq:
  "calculate_backoff rm attempt u =
     (case randint (max (linear_ms rm attempt div 2) 1) (linear_ms rm attempt) u of
        Inl e \<Rightarrow> Inl e | Inr j \<Rightarrow> Inr (of_int j / 1000))"
  by (auto simp: calculate_backoff_def linear_ms_def Let_def min_def)

lemma calculate_backoff_cases:
  assumes "rm_ok rm" and "0 \<le> attempt"
  obtains j where "calculate_backoff rm attempt u = Inr (of_int j / 1000)"
    and "max (linear_ms rm attempt div 2) 1 \<le> j" and "j \<le> linear_ms rm attempt"
proof -
  from linear_ms_pos [OF assms] have "max (linear_ms rm attempt div 2) 1 \<le> linear_ms rm attempt"
    by linarith
  then obtain j where "randint (max (linear_ms rm attempt div 2) 1) (linear_ms rm attempt) u = Inr j"
    and "max (linear_ms rm attempt div 2) 1 \<le> j" and "j \<le> linear_ms rm attempt"
    by (rule randint_in_range)
  then show ?thesis by (intro that) (simp_all add: calculate_backoff_eq)
qed

lemma calculate_backoff_ok:
  assumes "rm_ok rm" and "0 \<le> attempt"
  obtains d where "calculate_backoff rm attempt u = Inr d"
    and "0 < d" and "d \<le> of_int (max_backoff_ms rm) / 1000"
proof -
  obtain j where j: "calculate_backoff rm attempt u = Inr (of_int j / 1000)"
    "max (linear_ms rm attempt div 2) 1 \<le> j" "j \<le> linear_ms rm attempt"
    using assms by (rule calculate_backoff_cases)
  then have "1 \<le> j" and "j \<le> max_backoff_ms rm"
    using linear_ms_le_cap [of rm attempt] by auto
  then have "(of_int j :: rat) \<le> of_int (max_backoff_ms rm)" and "0 < (of_int j :: rat)"
    by simp_all
  with j(1) show ?thesis
    by (intro that [of "of_int j / 1000"]) (simp_all add: divide_right_mono)
qed

end
