(* ===== verification/Messages.thy ===== *)
theory Messages
  imports Schema RetryManager
begin

text \<open>
  The messages the client exchanges with the broker, as \<open>danube/proto/DanubeApi.proto\<close> and
  \<open>danube/proto/SchemaRegistry.proto\<close> declare them, and \<open>danube/dispatch_strategy.py\<close>.
  Field names carry a prefix for their message. The request counters (\<open>itertools.count(1)\<close>)
  are \<open>nat\<close>; identifiers and versions have the width of their field. An integer that a caller
  passes for such a field is checked when it is assigned: out of range is a \<open>ValueError\<close>.
\<close>

definition u32_field :: "int \<Rightarrow> exn + 32 word" where
  "u32_field i = (if 0 \<le> i \<and> i < 2 ^ 32 then Inr (word_of_int i)
                  else Inl (ValueError (''Value out of range: '' @ str_int i)))"

definition u64_field :: "int \<Rightarrow> exn + 64 word" where
  "u64_field i = (if 0 \<le> i \<and> i < 2 ^ 64 then Inr (word_of_int i)
                  else Inl (ValueError (''Value out of range: '' @ str_int i)))"

text \<open>\<open>if x is not None: request.x = x\<close>\<close>

definition opt_field :: "('b \<Rightarrow> exn + 'a) \<Rightarrow> 'b option \<Rightarrow> exn + 'a option" where
  "opt_field check x =
     (case x of None \<Rightarrow> Inr None
      | Some i \<Rightarrow> (case check i of Inl e \<Rightarrow> Inl e | Inr v \<Rightarrow> Inr (Some v)))"

datatype DispatchStrategy = NON_RELIABLE | RELIABLE

fun to_proto :: "DispatchStrategy \<Rightarrow> int" where
  "to_proto NON_RELIABLE = 0"
| "to_proto RELIABLE = 1"

section \<open>Producer service\<close>

datatype ProducerAccessMode = Shared | Exclusive

datatype VersionRef = UseLatest bool | PinnedVersion "32 word" | MinVersion "32 word"

record SchemaReference =
  sr_subject :: string
  sr_version_ref :: "VersionRef option"

record ProducerRequest =
  pr_request_id :: nat
  pr_producer_name :: string
  pr_topic_name :: string
  pr_schema_ref :: "SchemaReference option"
  pr_producer_access_mode :: ProducerAccessMode
  pr_dispatch_strategy :: int

record ProducerResponse =
  prs_request_id :: "64 word"
  prs_producer_id :: "64 word"
  prs_producer_name :: string

record MsgID =
  mi_producer_id :: "64 word"
  mi_topic_name :: string
  mi_broker_addr :: string
  mi_topic_offset :: "64 word"

record StreamMessage =
  sm_request_id :: nat
  sm_msg_id :: MsgID
  sm_payload :: bytes
  sm_publish_time :: nat
  sm_producer_name :: string
  sm_subscription_name :: string
  sm_attributes :: "(string \<times> string) list"
  sm_schema_id :: "64 word option"
  sm_schema_version :: "32 word option"
  sm_routing_key :: "string option"

record MessageResponse =
  mrs_request_id :: "64 word"

section \<open>Consumer service\<close>

datatype SubType = EXCLUSIVE | SHARED | FAILOVER | KEY_SHARED

fun int_SubType :: "SubType \<Rightarrow> int" where
  "int_SubType EXCLUSIVE = 0"
| "int_SubType SHARED = 1"
| "int_SubType FAILOVER = 2"
| "int_SubType KEY_SHARED = 3"

record ConsumerRequest =
  cr_request_id :: nat
  cr_topic_name :: string
  cr_consumer_name :: string
  cr_subscription :: string
  cr_subscription_type :: int
  cr_key_filters :: "string list"

record ConsumerResponse =
  crs_request_id :: "64 word"
  crs_consumer_id :: "64 word"
  crs_consumer_name :: string

record ReceiveRequest =
  rr_request_id :: nat
  rr_consumer_id :: "64 word"

record AckRequest =
  ar_request_id :: nat
  ar_msg_id :: MsgID
  ar_subscription_name :: string

record NackRequest =
  nr_request_id :: nat
  nr_msg_id :: MsgID
  nr_subscription_name :: string
  nr_delay_ms :: "64 word option"
  nr_reason :: "string option"

record AckResponse =
  ars_request_id :: "64 word"

record NackResponse =
  nrs_request_id :: "64 word"

section \<open>Discovery and health check\<close>

record TopicLookupRequest =
  tlr_request_id :: nat
  tlr_topic :: string

text \<open>An enumeration of proto3 is open: any integer can arrive. Redirect is 0, Connect 1,
  Failed 2.\<close>

record TopicLookupResponse =
  tls_request_id :: "64 word"
  tls_response_type :: int
  tls_connect_url :: string
  tls_broker_url :: string
  tls_proxy :: bool

record TopicPartitionsResponse =
  tps_request_id :: "64 word"
  tps_partitions :: "string list"

datatype ClientType = ClientProducer | ClientConsumer

record HealthCheckRequest =
  hr_request_id :: nat
  hr_client :: ClientType
  hr_id :: "64 word"

text \<open>\<open>HealthCheckResponse.ClientStatus\<close>: OK is 0, CLOSE is 1.\<close>

record HealthCheckResponse =
  hrs_status :: int

section \<open>Schema registry\<close>

record RegisterSchemaRequest =
  rs_subject :: string
  rs_schema_type :: string
  rs_schema_definition :: bytes
  rs_description :: string
  rs_created_by :: string
  rs_tags :: "string list"

record RegisterSchemaResponse =
  rsr_schema_id :: "64 word"
  rsr_version :: "32 word"
  rsr_is_new_version :: bool
  rsr_fingerprint :: string

record GetSchemaRequest =
  gs_schema_id :: "64 word"
  gs_version :: "32 word option"

record GetSchemaResponse =
  gsr_schema_id :: "64 word"
  gsr_version :: "32 word"
  gsr_subject :: string
  gsr_schema_type :: string
  gsr_schema_definition :: bytes
  gsr_description :: string
  gsr_created_at :: "64 word"
  gsr_created_by :: string
  gsr_tags :: "string list"
  gsr_fingerprint :: string
  gsr_compatibility_mode :: string

record GetLatestSchemaRequest =
  gl_subject :: string

record ListVersionsRequest =
  lv_subject :: string

record SchemaVersionInfo =
  sv_version :: "32 word"
  sv_created_at :: "64 word"
  sv_created_by :: string
  sv_description :: string
  sv_fingerprint :: string
  sv_schema_id :: "64 word"

record ListVersionsResponse =
  lvr_versions :: "SchemaVersionInfo list"

record CheckCompatibilityRequest =
  cc_subject :: string
  cc_new_schema_definition :: bytes
  cc_schema_type :: string
  cc_compatibility_mode :: "string option"

record CheckCompatibilityResponse =
  ccr_is_compatible :: bool
  ccr_errors :: "string list"

record SetCompatibilityModeRequest =
  sc_subject :: string
  sc_compatibility_mode :: string

record SetCompatibilityModeResponse =
  scr_success :: bool
  scr_message :: string

record DeleteSchemaVersionRequest =
  ds_subject :: string
  ds_version :: "32 word"

record DeleteSchemaVersionResponse =
  dsr_success :: bool
  dsr_message :: string

record ConfigureTopicSchemaRequest =
  ct_topic_name :: string
  ct_schema_subject :: string
  ct_validation_policy :: string
  ct_enable_payload_validation :: bool

record ConfigureTopicSchemaResponse =
  ctr_success :: bool
  ctr_message :: string

record UpdateTopicValidationPolicyRequest =
  ut_topic_name :: string
  ut_validation_policy :: string
  ut_enable_payload_validation :: bool

record UpdateTopicValidationPolicyResponse =
  utr_success :: bool
  utr_message :: string

record GetTopicSchemaConfigRequest =
  gt_topic_name :: string

record GetTopicSchemaConfigResponse =
  gtr_schema_subject :: string
  gtr_validation_policy :: string
  gtr_enable_payload_validation :: bool
  gtr_schema_id :: "64 word"

section \<open>Requests\<close>

text \<open>A call of a stub method: the method and its message.\<close>

datatype request =
    CreateProducer ProducerRequest
  | SendMessage StreamMessage
  | Subscribe ConsumerRequest
  | ReceiveMessages ReceiveRequest
  | Ack AckRequest
  | Nack NackRequest
  | TopicLookup TopicLookupRequest
  | TopicPartitions TopicLookupRequest
  | HealthCheck HealthCheckRequest
  | RegisterSchema RegisterSchemaRequest
  | GetSchema GetSchemaRequest
  | GetLatestSchema GetLatestSchemaRequest
  | ListVersions ListVersionsRequest
  | CheckCompatibility CheckCompatibilityRequest
  | DeleteSchemaVersion DeleteSchemaVersionRequest
  | SetCompatibilityMode SetCompatibilityModeRequest
  | ConfigureTopicSchema ConfigureTopicSchemaRequest
  | UpdateTopicValidationPolicy UpdateTopicValidationPolicyRequest
  | GetTopicSchemaConfig GetTopicSchemaConfigRequest

lemma opt_field_None [simp]: "opt_field c None = Inr None"
  by (simp add: opt_field_def)

lemma opt_field_Some:
  "opt_field c (Some i) = (case c i of Inl e \<Rightarrow> Inl e | Inr v \<Rightarrow> Inr (Some v))"
  by (simp add: opt_field_def)

lemma uint_u32_field: "u32_field i = Inr v \<Longrightarrow> uint v = i"
  by (auto simp: u32_field_def uint_word_of_int_eq take_bit_int_eq_self split: if_splits)

lemma u32_field_uint [simp]: "u32_field (uint v) = Inr v"
  using uint_lt2p [of v] by (simp add: u32_field_def)

lemma u64_field_uint [simp]: "u64_field (uint v) = Inr v"
  using uint_lt2p [of v] by (simp add: u64_field_def)

end
