(* ===== verification/Connections.thy ===== *)
theory Connections
  imports PyText
begin

text \<open>
  \<open>danube/connection_manager.py\<close>: the connection options, and the pool of gRPC channels keyed
  by broker address. \<open>grpc.aio\<close> is not modelled beyond the arguments a channel is made from; a
  channel carries a serial number, so that two channels are equal only if they are the same
  object. The type variable is the state of the world outside the process, which the token
  supplier may read and change. \<open>get_connection\<close> holds the lock and awaits nothing inside it, so
  it is one atomic step.
\<close>

text \<open>\<open>grpc.ssl_channel_credentials(root_certificates, private_key, certificate_chain)\<close>\<close>

record ChannelCredentials =
  root_certificates :: "bytes option"
  private_key :: "bytes option"
  certificate_chain :: "bytes option"

definition ssl_channel_credentials :: ChannelCredentials where
  "ssl_channel_credentials =
     \<lparr>root_certificates = None, private_key = None, certificate_chain = None\<rparr>"

record BrokerAddress =
  connect_url :: string
  broker_url :: string
  proxy :: bool

record 'w ConnectionOptions =
  use_tls :: bool
  tls_credentials :: "ChannelCredentials option"
  token :: string
  token_supplier :: "('w \<Rightarrow> (exn + string) \<times> 'w) option"
  internal_broker :: string

definition default_ConnectionOptions :: "'w ConnectionOptions" where
  "default_ConnectionOptions =
     \<lparr>use_tls = False, tls_credentials = None, token = '''', token_supplier = None,
      internal_broker = ''''\<rparr>"

definition resolve_token :: "'w ConnectionOptions \<Rightarrow> ('w, string) py" where
  "resolve_token opts =
     (case token_supplier opts of Some supplier \<Rightarrow> supplier | None \<Rightarrow> ret (token opts))"

text \<open>\<open>secure_channel(target, creds)\<close> and \<open>insecure_channel(target)\<close>\<close>

record Channel =
  ch_target :: string
  ch_credentials :: "ChannelCredentials option"
  ch_serial :: nat

record RpcConnection =
  rc_channel :: Channel

record 'w ConnectionManager =
  cm_options :: "'w ConnectionOptions"
  cm_connections :: "BrokerAddress \<rightharpoonup> RpcConnection"
  cm_opened :: nat

definition new_ConnectionManager :: "'w ConnectionOptions \<Rightarrow> 'w ConnectionManager" where
  "new_ConnectionManager opts =
     \<lparr>cm_options = opts, cm_connections = (\<lambda>_. None), cm_opened = 0\<rparr>"

definition starts_with :: "string \<Rightarrow> string \<Rightarrow> bool" where
  "starts_with p s \<longleftrightarrow> take (length p) s = p"

fun strip_first :: "string list \<Rightarrow> string \<Rightarrow> string" where
  "strip_first [] target = target"
| "strip_first (p # ps) target =
     (if starts_with p target then drop (length p) target else strip_first ps target)"

definition create_channel :: "'w ConnectionOptions \<Rightarrow> string \<Rightarrow> nat \<Rightarrow> Channel" where
  "create_channel opts url serial =
     (let target = strip_first [''https://'', ''http://''] url in
      if use_tls opts
      then \<lparr>ch_target = target,
            ch_credentials = Some (case tls_credentials opts of
                Some creds \<Rightarrow> creds | None \<Rightarrow> ssl_channel_credentials),
            ch_serial = serial\<rparr>
      else \<lparr>ch_target = target, ch_credentials = None, ch_serial = serial\<rparr>)"

definition get_connection ::
  "string \<Rightarrow> string \<Rightarrow> ('w ConnectionManager, RpcConnection) py" where
  "get_connection broker connect = (\<lambda>cm.
     let is_proxy = (broker \<noteq> connect);
         key = \<lparr>connect_url = connect, broker_url = broker, proxy = is_proxy\<rparr>
     in case cm_connections cm key of
          Some conn \<Rightarrow> (Inr conn, cm)
        | None \<Rightarrow>
            (let channel = create_channel (cm_options cm) connect (cm_opened cm);
                 conn = \<lparr>rc_channel = channel\<rparr>
             in (Inr conn, cm\<lparr>cm_connections := (cm_connections cm)(key \<mapsto> conn),
                              cm_opened := Suc (cm_opened cm)\<rparr>)))"

section \<open>The pool\<close>

abbreviation pool_key :: "string \<times> string \<Rightarrow> BrokerAddress" where
  "pool_key bc \<equiv> \<lparr>connect_url = snd bc, broker_url = fst bc, proxy = (fst bc \<noteq> snd bc)\<rparr>"

lemma pool_key_inj [simp]: "pool_key a = pool_key b \<longleftrightarrow> a = b"
  by (auto simp: prod_eq_iff)

text \<open>Serial numbers in the pool are those handed out, each once.\<close>

definition pool_ok :: "'w ConnectionManager \<Rightarrow> bool" where
  "pool_ok cm \<longleftrightarrow>
     (\<forall>k c. cm_connections cm k = Some c \<longrightarrow> ch_serial (rc_channel c) < cm_opened cm) \<and>
     (\<forall>k k' c. cm_connections cm k = Some c \<longrightarrow> cm_connections cm k' = Some c \<longrightarrow> k = k')"

lemma pool_ok_new: "pool_ok (new_ConnectionManager opts)"
  by (simp add: pool_ok_def new_ConnectionManager_def)

text \<open>A pool that creates what it does not hold: the contract of the lookups by key.\<close>

locale pool =
  fixes obtain_conn :: "'k \<Rightarrow> ('s, 'c) py"
    and look :: "'s \<Rightarrow> 'k \<rightharpoonup> 'c"
    and invar :: "'s \<Rightarrow> bool"
  assumes hit: "look s k = Some c \<Longrightarrow> obtain_conn k s = (Inr c, s)"
    and miss: "look s k = None \<Longrightarrow>
      \<exists>c s'. obtain_conn k s = (Inr c, s') \<and> look s' = (look s)(k \<mapsto> c)"
    and invar_kept: "invar s \<Longrightarrow> invar (snd (obtain_conn k s))"
    and one_key: "invar s \<Longrightarrow> look s k = Some c \<Longrightarrow> look s k' = Some c \<Longrightarrow> k = k'"
begin

lemma obtain_cases:
  obtains c s' where "obtain_conn k s = (Inr c, s')" and "look s' k = Some c"
    and "look s \<subseteq>\<^sub>m look s'"
proof (cases "look s k")
  case None
  then obtain c s' where "obtain_conn k s = (Inr c, s')" "look s' = (look s)(k \<mapsto> c)"
    using miss by blast
  with None show ?thesis by (intro that) (auto simp: map_le_def)
next
  case (Some c)
  then show ?thesis using hit by (intro that) auto
qed

lemma again: "obtain_conn k s = (Inr c, s') \<Longrightarrow> obtain_conn k s' = (Inr c, s')"
  by (rule obtain_cases [of k s]) (simp add: hit)

lemma obtain_all:
  "\<exists>cs s'. for_each obtain_conn ks s = (Inr cs, s') \<and> look s \<subseteq>\<^sub>m look s'
     \<and> (invar s \<longrightarrow> invar s') \<and> list_all2 (\<lambda>k c. look s' k = Some c) ks cs"
proof (induction ks arbitrary: s)
  case (Cons k ks)
  obtain c s1 where c: "obtain_conn k s = (Inr c, s1)" "look s1 k = Some c" "look s \<subseteq>\<^sub>m look s1"
    by (rule obtain_cases)
  from invar_kept [of s k] c(1) have inv: "invar s \<Longrightarrow> invar s1" by simp
  from Cons.IH [of s1] obtain cs s2 where cs: "for_each obtain_conn ks s1 = (Inr cs, s2)"
    "look s1 \<subseteq>\<^sub>m look s2" "invar s1 \<longrightarrow> invar s2" "list_all2 (\<lambda>k c. look s2 k = Some c) ks cs"
    by blast
  from c(2) cs(2) have "look s2 k = Some c" by (metis domI map_le_def)
  with c cs inv show ?case
    by (auto simp: run_simps intro: map_le_trans)
qed (simp add: run_simps)

lemma sharing:
  assumes "invar s" and "for_each obtain_conn ks s = (Inr cs, s')"
    and "i < length ks" and "j < length ks"
  shows "cs ! i = cs ! j \<longleftrightarrow> ks ! i = ks ! j"
proof -
  from obtain_all [of ks s] assms(1,2) have inv: "invar s'"
    and all: "list_all2 (\<lambda>k c. look s' k = Some c) ks cs"
    by auto
  from all assms(3,4) have "look s' (ks ! i) = Some (cs ! i)" "look s' (ks ! j) = Some (cs ! j)"
    by (simp_all add: list_all2_conv_all_nth)
  with one_key [OF inv] show ?thesis by (metis option.inject)
qed

end

lemma get_connection_pool_ok:
  assumes "pool_ok cm"
  shows "pool_ok (snd (get_connection b c cm))"
proof (cases "cm_connections cm (pool_key (b, c))")
  case None
  then show ?thesis
    using assms unfolding pool_ok_def get_connection_def
    by (fastforce simp: Let_def create_channel_def less_Suc_eq split: if_splits)
next
  case (Some a)
  with assms show ?thesis by (simp add: get_connection_def)
qed

interpretation cm: pool
  "\<lambda>bc. get_connection (fst bc) (snd bc)"
  "\<lambda>cm bc. cm_connections cm (pool_key bc)"
  pool_ok
proof unfold_locales
  fix s :: "'w ConnectionManager" and k k' :: "string \<times> string" and c
  show "cm_connections s (pool_key k) = Some c
    \<Longrightarrow> get_connection (fst k) (snd k) s = (Inr c, s)"
    by (simp add: get_connection_def)
  show "cm_connections s (pool_key k) = None \<Longrightarrow>
    \<exists>c s'. get_connection (fst k) (snd k) s = (Inr c, s') \<and>
      (\<lambda>bc. cm_connections s' (pool_key bc)) = (\<lambda>bc. cm_connections s (pool_key bc))(k \<mapsto> c)"
    by (auto simp: get_connection_def Let_def fun_eq_iff prod_eq_iff)
  show "pool_ok s \<Longrightarrow> pool_ok (snd (get_connection (fst k) (snd k) s))"
    by (rule get_connection_pool_ok)
  assume "pool_ok s" and "cm_connections s (pool_key k) = Some c"
    and "cm_connections s (pool_key k') = Some c"
  then have "pool_key k = pool_key k'" unfolding pool_ok_def by blast
  then show "k = k'" by (simp only: pool_key_inj)
qed

end
