(* ===== verification/World.thy ===== *)
theory World
  imports Messages Connections
begin

text \<open>
  The process a client runs in. \<open>World\<close> holds the objects that producers and consumers of one
  \<open>DanubeClient\<close> share: the connection manager, the request counters of the lookup and health
  check services, the store of \<open>asyncio.Event\<close> flags (an event is an index into it), the
  background tasks, the store of shared lists of strings (a list object is an index into it), and the state \<open>outside\<close> of everything that is not the client: brokers,
  network, clock, random source, files. \<open>trace\<close> is a history of what the client did that can be
  seen from outside, in order: calls of stub methods and sleeps.

  What the client calls but does not implement is the record \<open>Outside\<close>: one function for each
  stub method, answering a call (channel, metadata, message) in the state of the outside with a
  reply or an exception, the next element of a stream of messages (its end is \<open>None\<close>), the clock, the random source and the file system. Every definition that
  uses it takes it as its argument \<open>E\<close>.

  A coroutine is run without interruption between its awaits and nothing else of the client runs
  at them; the outside may change at each call. The health check (theory \<open>HealthCheck\<close>) is
  modelled step by step.
\<close>

record Call =
  call_channel :: Channel
  call_metadata :: "metadata option"

type_synonym ('q, 'r, 'w) stub_method = "Call \<Rightarrow> 'q \<Rightarrow> 'w \<Rightarrow> (exn + 'r) \<times> 'w"

record 'w Outside =
  answer_CreateProducer :: "(ProducerRequest, ProducerResponse, 'w) stub_method"
  answer_SendMessage :: "(StreamMessage, MessageResponse, 'w) stub_method"
  answer_Subscribe :: "(ConsumerRequest, ConsumerResponse, 'w) stub_method"
  answer_ReceiveMessages :: "(ReceiveRequest, nat, 'w) stub_method"
  answer_Ack :: "(AckRequest, AckResponse, 'w) stub_method"
  answer_Nack :: "(NackRequest, NackResponse, 'w) stub_method"
  answer_TopicLookup :: "(TopicLookupRequest, TopicLookupResponse, 'w) stub_method"
  answer_TopicPartitions :: "(TopicLookupRequest, TopicPartitionsResponse, 'w) stub_method"
  answer_HealthCheck :: "(HealthCheckRequest, HealthCheckResponse, 'w) stub_method"
  answer_RegisterSchema :: "(RegisterSchemaRequest, RegisterSchemaResponse, 'w) stub_method"
  answer_GetSchema :: "(GetSchemaRequest, GetSchemaResponse, 'w) stub_method"
  answer_GetLatestSchema :: "(GetLatestSchemaRequest, GetSchemaResponse, 'w) stub_method"
  answer_ListVersions :: "(ListVersionsRequest, ListVersionsResponse, 'w) stub_method"
  answer_CheckCompatibility :: "(CheckCompatibilityRequest, CheckCompatibilityResponse, 'w) stub_method"
  answer_DeleteSchemaVersion :: "(DeleteSchemaVersionRequest, DeleteSchemaVersionResponse, 'w) stub_method"
  answer_SetCompatibilityMode :: "(SetCompatibilityModeRequest, SetCompatibilityModeResponse, 'w) stub_method"
  answer_ConfigureTopicSchema :: "(ConfigureTopicSchemaRequest, ConfigureTopicSchemaResponse, 'w) stub_method"
  answer_UpdateTopicValidationPolicy ::
    "(UpdateTopicValidationPolicyRequest, UpdateTopicValidationPolicyResponse, 'w) stub_method"
  answer_GetTopicSchemaConfig :: "(GetTopicSchemaConfigRequest, GetTopicSchemaConfigResponse, 'w) stub_method"
  next_message :: "nat \<Rightarrow> 'w \<Rightarrow> (exn + StreamMessage option) \<times> 'w"
  clock_ms :: "'w \<Rightarrow> nat \<times> 'w"
  random_source :: "'w \<Rightarrow> nat \<times> 'w"
  read_file :: "string \<Rightarrow> 'w \<Rightarrow> (exn + bytes) \<times> 'w"

text \<open>What can be observed.\<close>

datatype obs = Rpc Call request | Sleep rat

text \<open>A health check task: the locals its loop captured, where it stands, and whether
  \<open>cancel()\<close> was called on it.\<close>

datatype task_pc = AtTop | Sleeping | Ended

record HealthTask =
  ht_channel :: Channel
  ht_connect_url :: string
  ht_broker_addr :: string
  ht_proxy :: bool
  ht_client_type :: ClientType
  ht_client_id :: "64 word"
  ht_stop_event :: nat
  ht_pc :: task_pc
  ht_cancelled :: bool

record 'w World =
  uri :: string
  conn_mgr :: "'w ConnectionManager"
  lookup_request_id :: nat
  health_request_id :: nat
  events :: "bool list"
  tasks :: "HealthTask list"
  lists :: "string list list"
  trace :: "obs list"
  outside :: 'w

section \<open>Primitive steps\<close>

definition emit :: "obs \<Rightarrow> ('w World, unit) py" where
  "emit ob = modify (\<lambda>w. w\<lparr>trace := trace w @ [ob]\<rparr>)"

definition on_outside :: "('w, 'a) py \<Rightarrow> ('w World, 'a) py" where
  "on_outside m = zoom outside (\<lambda>x w. w\<lparr>outside := x\<rparr>) m"

definition on_conn_mgr :: "('w ConnectionManager, 'a) py \<Rightarrow> ('w World, 'a) py" where
  "on_conn_mgr m = zoom conn_mgr (\<lambda>c w. w\<lparr>conn_mgr := c\<rparr>) m"

text \<open>\<open>await stub.Method(request, metadata=metadata)\<close>\<close>

definition rpc :: "('q, 'r, 'w) stub_method \<Rightarrow> ('q \<Rightarrow> request) \<Rightarrow> Call \<Rightarrow> 'q \<Rightarrow> ('w World, 'r) py" where
  "rpc answer mk call q = seq (emit (Rpc call (mk q))) (on_outside (answer call q))"

text \<open>\<open>await asyncio.sleep(seconds)\<close>\<close>

definition asleep :: "rat \<Rightarrow> ('w World, unit) py" where
  "asleep seconds = emit (Sleep seconds)"

text \<open>\<open>retry_manager.calculate_backoff(attempt)\<close> with a draw from the random source\<close>

definition backoff_delay :: "'w Outside \<Rightarrow> RetryManager \<Rightarrow> int \<Rightarrow> ('w World, rat) py" where
  "backoff_delay E rm attempt =
     bnd (on_outside (total_io (random_source E))) (\<lambda>u.
     of_result (calculate_backoff rm attempt u))"

text \<open>\<open>asyncio.Event()\<close>, \<open>set()\<close>, \<open>clear()\<close>, \<open>is_set()\<close>\<close>

definition new_event :: "('w World, nat) py" where
  "new_event = bnd (gets (\<lambda>w. length (events w))) (\<lambda>i.
     seq (modify (\<lambda>w. w\<lparr>events := events w @ [False]\<rparr>)) (ret i))"

definition set_event :: "nat \<Rightarrow> ('w World, unit) py" where
  "set_event i = modify (\<lambda>w. w\<lparr>events := (events w)[i := True]\<rparr>)"

definition clear_event :: "nat \<Rightarrow> ('w World, unit) py" where
  "clear_event i = modify (\<lambda>w. w\<lparr>events := (events w)[i := False]\<rparr>)"

definition is_set :: "nat \<Rightarrow> 'w World \<Rightarrow> bool" where
  "is_set i w \<longleftrightarrow> i < length (events w) \<and> events w ! i"

text \<open>\<open>task.cancel()\<close>\<close>

definition cancel_task :: "nat \<Rightarrow> ('w World, unit) py" where
  "cancel_task i = modify (\<lambda>w. w\<lparr>tasks := (tasks w)[i := (tasks w ! i)\<lparr>ht_cancelled := True\<rparr>]\<rparr>)"

text \<open>\<open>create_task(coroutine)\<close>: the index of the new task.\<close>

definition create_task :: "HealthTask \<Rightarrow> ('w World, nat) py" where
  "create_task t = bnd (gets (\<lambda>w. length (tasks w))) (\<lambda>i.
     seq (modify (\<lambda>w. w\<lparr>tasks := tasks w @ [t]\<rparr>)) (ret i))"

text \<open>List objects that several owners may share: \<open>[...]\<close>, reading one, \<open>xs.append(y)\<close> and
  \<open>xs.extend(ys)\<close>, and \<open>x or []\<close>.\<close>

definition new_list :: "string list \<Rightarrow> ('w World, nat) py" where
  "new_list xs = bnd (gets (\<lambda>w. length (lists w))) (\<lambda>i.
     seq (modify (\<lambda>w. w\<lparr>lists := lists w @ [xs]\<rparr>)) (ret i))"

definition list_at :: "nat \<Rightarrow> 'w World \<Rightarrow> string list" where
  "list_at i w = (if i < length (lists w) then lists w ! i else [])"

definition extend_list :: "nat \<Rightarrow> string list \<Rightarrow> ('w World, unit) py" where
  "extend_list i ys = modify (\<lambda>w. w\<lparr>lists := (lists w)[i := list_at i w @ ys]\<rparr>)"

definition list_or_new :: "nat option \<Rightarrow> ('w World, nat) py" where
  "list_or_new x = (case x of
      None \<Rightarrow> new_list []
    | Some i \<Rightarrow> bnd (gets (list_at i)) (\<lambda>xs. if xs = [] then new_list [] else ret i))"

section \<open>The metadata of a call (danube/auth\_service.py)\<close>

definition INTERNAL_BROKER_HEADER :: string where
  "INTERNAL_BROKER_HEADER = ''x-danube-internal-broker''"

definition auth_metadata :: "string \<Rightarrow> string \<Rightarrow> metadata" where
  "auth_metadata tok broker =
     (if tok \<noteq> '''' then [(''authorization'', ''Bearer '' @ tok)] else []) @
     (if broker \<noteq> '''' then [(INTERNAL_BROKER_HEADER, broker)] else [])"

definition attach_token_if_needed :: "string \<Rightarrow> ('w World, metadata option) py" where
  "attach_token_if_needed addr =
     bnd (gets (\<lambda>w. cm_options (conn_mgr w))) (\<lambda>opts.
     bnd (on_outside (resolve_token opts)) (\<lambda>tok.
     bnd (gets (\<lambda>w. internal_broker (cm_options (conn_mgr w)))) (\<lambda>broker.
     (let md = auth_metadata tok broker
      in ret (if md \<noteq> [] then Some md else None)))))"

text \<open>The two lines every routed call shares: the token, then the proxy header.\<close>

definition call_headers :: "string \<Rightarrow> string \<Rightarrow> bool \<Rightarrow> ('w World, metadata option) py" where
  "call_headers connect broker is_proxy =
     bnd (attach_token_if_needed connect) (\<lambda>md.
     ret (insert_proxy_header md broker is_proxy))"

section \<open>What every method keeps of the shared objects\<close>

text \<open>
  \<open>grows\<close>: the address and options of the client are fixed, connections are only added,
  counters only go up, events and tasks are never removed, what a task captured never changes,
  and the history is only extended. \<open>frozen\<close> is a task without its position and its cancel flag.
\<close>

definition frozen :: "HealthTask \<Rightarrow> HealthTask" where
  "frozen t = t\<lparr>ht_pc := AtTop, ht_cancelled := False\<rparr>"

lemma frozen_update [simp]:
  "frozen (t\<lparr>ht_pc := pc\<rparr>) = frozen t" "frozen (t\<lparr>ht_cancelled := b\<rparr>) = frozen t"
  by (simp_all add: frozen_def)

lemma map_frozen_update [simp]:
  "frozen u = frozen (ts ! i) \<Longrightarrow> map frozen (ts[i := u]) = map frozen ts"
  by (cases "i < length ts") (simp_all add: map_update list_update_beyond list_update_same_conv)

definition grows :: "'w World \<Rightarrow> 'w World \<Rightarrow> bool" where
  "grows v w \<longleftrightarrow>
     uri w = uri v \<and> cm_options (conn_mgr w) = cm_options (conn_mgr v) \<and>
     cm_connections (conn_mgr v) \<subseteq>\<^sub>m cm_connections (conn_mgr w) \<and>
     cm_opened (conn_mgr v) \<le> cm_opened (conn_mgr w) \<and>
     lookup_request_id v \<le> lookup_request_id w \<and>
     health_request_id v \<le> health_request_id w \<and>
     length (events v) \<le> length (events w) \<and> length (lists v) \<le> length (lists w) \<and>
     (\<exists>ts. map frozen (tasks w) = map frozen (tasks v) @ ts) \<and>
     (\<exists>t. trace w = trace v @ t)"

interpretation grows: evolution grows
  by unfold_locales (auto simp: grows_def intro: map_le_trans)

lemma grows_tasks:
  assumes "grows v w"
  shows "length (tasks v) \<le> length (tasks w)"
    and "i < length (tasks v) \<Longrightarrow> frozen (tasks w ! i) = frozen (tasks v ! i)"
proof -
  from assms obtain ts where ts: "map frozen (tasks w) = map frozen (tasks v) @ ts"
    unfolding grows_def by blast
  from arg_cong [OF ts, of length] show len: "length (tasks v) \<le> length (tasks w)" by simp
  show "frozen (tasks w ! i) = frozen (tasks v ! i)" if "i < length (tasks v)"
  proof -
    have "frozen (tasks w ! i) = map frozen (tasks w) ! i" using that len by simp
    also have "\<dots> = (map frozen (tasks v) @ ts) ! i" by (simp only: ts)
    finally show ?thesis using that by (simp add: nth_append)
  qed
qed

text \<open>\<open>emits P\<close>: every observation added to the history satisfies \<open>P\<close>.\<close>

definition emits :: "(obs \<Rightarrow> bool) \<Rightarrow> 'w World \<Rightarrow> 'w World \<Rightarrow> bool" where
  "emits P v w \<longleftrightarrow> (\<exists>t. trace w = trace v @ t \<and> list_all P t)"

interpretation emits: evolution "emits P" for P
proof
  show "emits P s s" for s :: "'w World" by (simp add: emits_def)
  show "emits P s t \<Longrightarrow> emits P t u \<Longrightarrow> emits P s u" for s t u :: "'w World"
    unfolding emits_def by (metis append.assoc list_all_append)
qed

text \<open>The pool of connections stays well formed.\<close>

definition pool_kept :: "'w World \<Rightarrow> 'w World \<Rightarrow> bool" where
  "pool_kept v w \<longleftrightarrow> (pool_ok (conn_mgr v) \<longrightarrow> pool_ok (conn_mgr w))"

interpretation pool_kept: evolution pool_kept
  by unfold_locales (simp_all add: pool_kept_def)

lemmas world_methods = grows.steps emits.steps pool_kept.steps

lemma emit_run [run_simps]: "emit ob w = (Inr (), w\<lparr>trace := trace w @ [ob]\<rparr>)"
  by (simp add: emit_def run_simps)

lemma on_outside_run [run_simps]:
  "on_outside m w = (case m (outside w) of (r, x) \<Rightarrow> (r, w\<lparr>outside := x\<rparr>))"
  by (simp add: on_outside_def run_simps)

lemma on_conn_mgr_run [run_simps]:
  "on_conn_mgr m w = (case m (conn_mgr w) of (r, c) \<Rightarrow> (r, w\<lparr>conn_mgr := c\<rparr>))"
  by (simp add: on_conn_mgr_def run_simps)

lemma rpc_run [run_simps]:
  "rpc answer mk call q w =
     (case answer call q (outside w) of
        (r, x) \<Rightarrow> (r, w\<lparr>trace := trace w @ [Rpc call (mk q)], outside := x\<rparr>))"
  by (simp add: rpc_def run_simps)

lemma asleep_run [run_simps]: "asleep d w = (Inr (), w\<lparr>trace := trace w @ [Sleep d]\<rparr>)"
  by (simp add: asleep_def run_simps)

lemma new_event_run [run_simps]:
  "new_event w = (Inr (length (events w)), w\<lparr>events := events w @ [False]\<rparr>)"
  by (simp add: new_event_def run_simps)

lemma set_event_run [run_simps]: "set_event i w = (Inr (), w\<lparr>events := (events w)[i := True]\<rparr>)"
  by (simp add: set_event_def run_simps)

lemma clear_event_run [run_simps]:
  "clear_event i w = (Inr (), w\<lparr>events := (events w)[i := False]\<rparr>)"
  by (simp add: clear_event_def run_simps)

lemma create_task_run [run_simps]:
  "create_task t w = (Inr (length (tasks w)), w\<lparr>tasks := tasks w @ [t]\<rparr>)"
  by (simp add: create_task_def run_simps)

lemma on_outside_keeps [stays_rules]:
  "stays grows (on_outside m)" "stays (emits P) (on_outside m)" "stays pool_kept (on_outside m)"
  by (auto intro!: staysI simp: run_simps grows_def emits_def pool_kept_def split: prod.split)

lemma emit_keeps [stays_rules]:
  "stays grows (emit ob)" "P ob \<Longrightarrow> stays (emits P) (emit ob)" "stays pool_kept (emit ob)"
  by (auto intro!: staysI simp: run_simps grows_def emits_def pool_kept_def)

lemma list_run [run_simps]:
  "new_list xs w = (Inr (length (lists w)), w\<lparr>lists := lists w @ [xs]\<rparr>)"
  "extend_list i ys w = (Inr (), w\<lparr>lists := (lists w)[i := list_at i w @ ys]\<rparr>)"
  by (simp_all add: new_list_def extend_list_def run_simps)

lemma list_keeps [stays_rules]:
  "stays grows (new_list xs)" "stays (emits P) (new_list xs)" "stays pool_kept (new_list xs)"
  "stays grows (extend_list i ys)" "stays (emits P) (extend_list i ys)"
  "stays pool_kept (extend_list i ys)"
  by (auto intro!: staysI simp: run_simps grows_def emits_def pool_kept_def)

lemma list_or_new_keeps [stays_rules]:
  "stays grows (list_or_new x)" "stays (emits P) (list_or_new x)" "stays pool_kept (list_or_new x)"
  unfolding list_or_new_def by (auto intro!: world_methods stays_rules split: option.split)

lemma rpc_keeps [stays_rules]:
  "stays grows (rpc answer mk call q)"
  "P (Rpc call (mk q)) \<Longrightarrow> stays (emits P) (rpc answer mk call q)"
  "stays pool_kept (rpc answer mk call q)"
  unfolding rpc_def by (auto intro!: world_methods stays_rules)

lemma asleep_keeps [stays_rules]:
  "stays grows (asleep d)" "P (Sleep d) \<Longrightarrow> stays (emits P) (asleep d)" "stays pool_kept (asleep d)"
  unfolding asleep_def by (auto intro!: stays_rules)

lemma backoff_delay_keeps [stays_rules]:
  "stays grows (backoff_delay E rm a)" "stays (emits P) (backoff_delay E rm a)"
  "stays pool_kept (backoff_delay E rm a)"
  unfolding backoff_delay_def by (auto intro!: world_methods stays_rules)

lemma event_keeps [stays_rules]:
  "stays grows new_event" "stays (emits P) new_event" "stays pool_kept new_event"
  "stays grows (set_event i)" "stays (emits P) (set_event i)" "stays pool_kept (set_event i)"
  "stays grows (clear_event i)" "stays (emits P) (clear_event i)" "stays pool_kept (clear_event i)"
  by (auto intro!: staysI simp: run_simps grows_def emits_def pool_kept_def)

lemma task_keeps [stays_rules]:
  "stays grows (create_task t)" "stays (emits P) (create_task t)" "stays pool_kept (create_task t)"
  "stays grows (cancel_task i)" "stays (emits P) (cancel_task i)" "stays pool_kept (cancel_task i)"
  by (auto intro!: staysI simp: run_simps cancel_task_def grows_def emits_def pool_kept_def)

lemma get_connection_keeps [stays_rules]:
  "stays grows (on_conn_mgr (get_connection b c))"
  "stays (emits P) (on_conn_mgr (get_connection b c))"
  "stays pool_kept (on_conn_mgr (get_connection b c))"
proof -
  show "stays grows (on_conn_mgr (get_connection b c))" "stays (emits P) (on_conn_mgr (get_connection b c))"
    by (auto intro!: staysI simp: run_simps get_connection_def Let_def grows_def emits_def
        map_le_def split: prod.split option.split)
  show "stays pool_kept (on_conn_mgr (get_connection b c))"
  proof (rule staysI)
    fix w :: "'w World"
    show "pool_kept w (snd (on_conn_mgr (get_connection b c) w))"
      using get_connection_pool_ok [of "conn_mgr w" b c]
      by (cases "get_connection b c (conn_mgr w)") (simp add: run_simps pool_kept_def)
  qed
qed

lemma attach_token_keeps [stays_rules]:
  "stays grows (attach_token_if_needed a)" "stays (emits P) (attach_token_if_needed a)"
  "stays pool_kept (attach_token_if_needed a)"
  unfolding attach_token_if_needed_def Let_def by (auto intro!: world_methods stays_rules)

lemma call_headers_keeps [stays_rules]:
  "stays grows (call_headers c b p)" "stays (emits P) (call_headers c b p)"
  "stays pool_kept (call_headers c b p)"
  unfolding call_headers_def by (auto intro!: world_methods stays_rules)

section \<open>What leaves tasks and events alone\<close>

text \<open>\<open>calm\<close>: no task and no event changes. A relation on the events alone is \<open>same events\<close>.\<close>

definition calm :: "'w World \<Rightarrow> 'w World \<Rightarrow> bool" where
  "calm v w \<longleftrightarrow> tasks w = tasks v \<and> events w = events v"

interpretation calm: evolution calm
  by unfold_locales (simp_all add: calm_def)

lemma calm_primitive [stays_rules]:
  "stays calm (on_outside m)" "stays calm (emit ob)" "stays calm (rpc answer mk call q)"
  "stays calm (asleep d)" "stays calm (on_conn_mgr k)"
  by (auto intro!: staysI simp: run_simps calm_def split: prod.split)

lemma calm_composed [stays_rules]:
  "stays calm (attach_token_if_needed a)" "stays calm (call_headers c b p)"
  "stays calm (backoff_delay E rm n)"
  unfolding call_headers_def attach_token_if_needed_def Let_def backoff_delay_def
  by (auto intro!: calm.steps stays_rules)

lemma calm_events: "stays calm m \<Longrightarrow> stays (same events) m"
  by (erule stays_mono) (simp add: calm_def same_def)

lemma same_events_primitive [stays_rules]:
  "stays (same events) (on_outside m)" "stays (same events) (emit ob)"
  "stays (same events) (rpc answer mk call q)" "stays (same events) (asleep d)"
  "stays (same events) (on_conn_mgr k)" "stays (same events) (create_task t)"
  "stays (same events) (cancel_task i)" "stays (same events) (attach_token_if_needed a)"
  "stays (same events) (call_headers c b p)" "stays (same events) (backoff_delay E rm n)"
proof -
  show "stays (same events) (create_task t)" "stays (same events) (cancel_task i)"
    by (auto intro!: staysI simp: run_simps cancel_task_def same_def)
qed (intro calm_events stays_rules)+

section \<open>Headers from a static token\<close>

definition static_token :: "'w World \<Rightarrow> bool" where
  "static_token w \<longleftrightarrow> token_supplier (cm_options (conn_mgr w)) = None"

definition static_headers :: "'w ConnectionOptions \<Rightarrow> string \<Rightarrow> bool \<Rightarrow> metadata option" where
  "static_headers opts broker is_proxy =
     (let md = auth_metadata (token opts) (internal_broker opts)
      in insert_proxy_header (if md \<noteq> [] then Some md else None) broker is_proxy)"

lemma attach_token_static:
  assumes "static_token w"
  shows "attach_token_if_needed a w =
    (Inr (let md = auth_metadata (token (cm_options (conn_mgr w)))
              (internal_broker (cm_options (conn_mgr w)))
          in if md \<noteq> [] then Some md else None), w)"
  using assms by (simp add: attach_token_if_needed_def static_token_def resolve_token_def run_simps Let_def)

lemma call_headers_static:
  assumes "static_token w"
  shows "call_headers c b p w = (Inr (static_headers (cm_options (conn_mgr w)) b p), w)"
  using attach_token_static [OF assms]
  by (simp add: call_headers_def static_headers_def run_simps Let_def)

lemma static_token_grows: "grows v w \<Longrightarrow> static_token v \<Longrightarrow> static_token w"
  by (simp add: static_token_def grows_def)

lemma get_connection_run:
  obtains conn cm' where "on_conn_mgr (get_connection b c) w = (Inr conn, w\<lparr>conn_mgr := cm'\<rparr>)"
    and "cm_options cm' = cm_options (conn_mgr w)"
    and "cm_connections cm' (pool_key (b, c)) = Some conn"
    and "cm_connections (conn_mgr w) \<subseteq>\<^sub>m cm_connections cm'"
proof -
  obtain conn cm' where conn: "get_connection b c (conn_mgr w) = (Inr conn, cm')"
    and look: "cm_connections cm' (pool_key (b, c)) = Some conn"
    by (rule cm.obtain_cases [of "(b, c)" "conn_mgr w"]) auto
  have "grows w (w\<lparr>conn_mgr := cm'\<rparr>)"
    using get_connection_keeps(1) [of b c] conn by (auto simp: stays_def run_simps dest!: spec [of _ w])
  then have "cm_options cm' = cm_options (conn_mgr w)"
    and "cm_connections (conn_mgr w) \<subseteq>\<^sub>m cm_connections cm'"
    by (simp_all add: grows_def)
  with conn look show ?thesis by (intro that) (simp_all add: run_simps)
qed

section \<open>A new client\<close>

text \<open>The objects that \<open>DanubeClientBuilder.build\<close> makes: a connection manager without
  connections and the services with their counters at 1.\<close>

definition new_World :: "string \<Rightarrow> 'w ConnectionOptions \<Rightarrow> 'w \<Rightarrow> 'w World" where
  "new_World u opts x =
     \<lparr>uri = u, conn_mgr = new_ConnectionManager opts, lookup_request_id = 1,
      health_request_id = 1, events = [], tasks = [], lists = [], trace = [], outside = x\<rparr>"

lemma new_World_pool_ok [simp]: "pool_ok (conn_mgr (new_World u opts x))"
  by (simp add: new_World_def pool_ok_new)

end
