(* ===== verification/Wire.thy ===== *)
theory Wire
  imports World
begin

text \<open>
  The generated \<open>danube/proto/DanubeApi_pb2_grpc.py\<close> and \<open>danube/proto/SchemaRegistry_pb2_grpc.py\<close>: the
  stub classes, whose attributes the client calls, and their counterparts for a server: default
  servicers, the functions that register a servicer, and the static methods that call without a
  stub. \<open>grpc\<close> is not modelled beyond what is passed to it: a callable, a handler and a static call
  are records of the arguments they are made from, with the names of the message types whose
  (de)serialisers they use.
\<close>

section \<open>What is passed to grpc\<close>

datatype call_kind = UnaryUnary | UnaryStream

text \<open>\<open>channel.unary_unary(path, request_serializer=..., response_deserializer=...)\<close>\<close>

record MultiCallable =
  mc_channel :: Channel
  mc_kind :: call_kind
  mc_path :: string
  mc_request :: string
  mc_response :: string

definition unary_unary :: "Channel \<Rightarrow> string \<Rightarrow> string \<Rightarrow> string \<Rightarrow> MultiCallable" where
  "unary_unary channel path request response =
     \<lparr>mc_channel = channel, mc_kind = UnaryUnary, mc_path = path, mc_request = request, mc_response = response\<rparr>"

definition unary_stream :: "Channel \<Rightarrow> string \<Rightarrow> string \<Rightarrow> string \<Rightarrow> MultiCallable" where
  "unary_stream channel path request response =
     \<lparr>mc_channel = channel, mc_kind = UnaryStream, mc_path = path, mc_request = request, mc_response = response\<rparr>"

text \<open>\<open>grpc.unary_unary_rpc_method_handler(servicer.Method, ...)\<close>; a servicer is the map from its
  attributes to its methods, and an attribute that it does not have raises.\<close>

record 'm Handler =
  mh_method :: 'm
  mh_kind :: call_kind
  mh_request :: string
  mh_response :: string

definition method_handler :: "call_kind \<Rightarrow> 'm option \<Rightarrow> string \<Rightarrow> string \<Rightarrow> exn + 'm Handler" where
  "method_handler kind meth request response =
     (case meth of
        None \<Rightarrow> Inl AttributeError
      | Some m \<Rightarrow> Inr \<lparr>mh_method = m, mh_kind = kind, mh_request = request, mh_response = response\<rparr>)"

abbreviation unary_unary_rpc_method_handler :: "'m option \<Rightarrow> string \<Rightarrow> string \<Rightarrow> exn + 'm Handler" where
  "unary_unary_rpc_method_handler \<equiv> method_handler UnaryUnary"

abbreviation unary_stream_rpc_method_handler :: "'m option \<Rightarrow> string \<Rightarrow> string \<Rightarrow> exn + 'm Handler" where
  "unary_stream_rpc_method_handler \<equiv> method_handler UnaryStream"

text \<open>What a server was given: the generic handlers and the registered ones.\<close>

record 'm Server =
  srv_generic :: "(string \<times> (string \<times> 'm Handler) list) list"
  srv_registered :: "(string \<times> (string \<times> 'm Handler) list) list"

definition add_handlers :: "string \<Rightarrow> (string \<times> (exn + 'm Handler)) list \<Rightarrow> ('m Server, unit) py" where
  "add_handlers service entries =
     bnd (for_each (\<lambda>(name, h). bnd (of_result h) (\<lambda>h. ret (name, h))) entries) (\<lambda>rpc_method_handlers.
     seq (modify (\<lambda>srv. srv\<lparr>srv_generic := srv_generic srv @ [(service, rpc_method_handlers)]\<rparr>))
         (modify (\<lambda>srv. srv\<lparr>srv_registered := srv_registered srv @ [(service, rpc_method_handlers)]\<rparr>)))"

text \<open>The context of a call in a server, and the body of every default method.\<close>

record ServicerContext =
  sc_code :: "StatusCode option"
  sc_details :: string

definition unimplemented :: "(ServicerContext, unit) py" where
  "unimplemented =
     seq (modify (\<lambda>context. context\<lparr>sc_code := Some UNIMPLEMENTED\<rparr>)) (
     seq (modify (\<lambda>context. context\<lparr>sc_details := ''Method not implemented!''\<rparr>))
         (throw (NotImplementedError ''Method not implemented!'')))"

text \<open>The keyword arguments of a static method and their defaults, and
  \<open>grpc.experimental.unary_unary(...)\<close>; \<open>'o\<close> stands for the types of grpc that are only passed on.\<close>

record 'o CallArgs =
  ca_options :: "'o list"
  ca_channel_credentials :: "ChannelCredentials option"
  ca_call_credentials :: "'o option"
  ca_insecure :: bool
  ca_compression :: "'o option"
  ca_wait_for_ready :: "bool option"
  ca_timeout :: "rat option"
  ca_metadata :: "metadata option"

definition default_CallArgs :: "'o CallArgs" where
  "default_CallArgs =
     \<lparr>ca_options = [], ca_channel_credentials = None, ca_call_credentials = None, ca_insecure = False,
      ca_compression = None, ca_wait_for_ready = None, ca_timeout = None, ca_metadata = None\<rparr>"

record ('q, 'o) StaticCall =
  xc_kind :: call_kind
  xc_request :: 'q
  xc_target :: string
  xc_path :: string
  xc_serializer :: string
  xc_deserializer :: string
  xc_options :: "'o list"
  xc_channel_credentials :: "ChannelCredentials option"
  xc_insecure :: bool
  xc_call_credentials :: "'o option"
  xc_compression :: "'o option"
  xc_wait_for_ready :: "bool option"
  xc_timeout :: "rat option"
  xc_metadata :: "metadata option"

definition experimental_unary_unary ::
  "'q \<Rightarrow> string \<Rightarrow> string \<Rightarrow> string \<Rightarrow> string \<Rightarrow> 'o list \<Rightarrow> ChannelCredentials option \<Rightarrow> bool \<Rightarrow> 'o option
     \<Rightarrow> 'o option \<Rightarrow> bool option \<Rightarrow> rat option \<Rightarrow> metadata option \<Rightarrow> ('q, 'o) StaticCall" where
  "experimental_unary_unary request target path serializer deserializer options creds insecure call_creds
     compression wait timeout md =
     \<lparr>xc_kind = UnaryUnary, xc_request = request, xc_target = target, xc_path = path,
      xc_serializer = serializer, xc_deserializer = deserializer, xc_options = options,
      xc_channel_credentials = creds, xc_insecure = insecure, xc_call_credentials = call_creds,
      xc_compression = compression, xc_wait_for_ready = wait, xc_timeout = timeout, xc_metadata = md\<rparr>"

definition experimental_unary_stream ::
  "'q \<Rightarrow> string \<Rightarrow> string \<Rightarrow> string \<Rightarrow> string \<Rightarrow> 'o list \<Rightarrow> ChannelCredentials option \<Rightarrow> bool \<Rightarrow> 'o option
     \<Rightarrow> 'o option \<Rightarrow> bool option \<Rightarrow> rat option \<Rightarrow> metadata option \<Rightarrow> ('q, 'o) StaticCall" where
  "experimental_unary_stream request target path serializer deserializer options creds insecure call_creds
     compression wait timeout md =
     (experimental_unary_unary request target path serializer deserializer options creds insecure call_creds
        compression wait timeout md)\<lparr>xc_kind := UnaryStream\<rparr>"

section \<open>The check of the installed version\<close>

text \<open>\<open>first_version_is_lower\<close> is grpc's; \<open>None\<close> stands for an installation that does not have it.\<close>

definition GRPC_GENERATED_VERSION :: string where "GRPC_GENERATED_VERSION = ''1.78.0''"

definition version_check ::
  "string \<Rightarrow> (string \<Rightarrow> string \<Rightarrow> bool) option \<Rightarrow> string \<Rightarrow> exn + unit" where
  "version_check module_name first_version_is_lower grpc_version =
     (let version_not_supported = (case first_version_is_lower of
          Some is_lower \<Rightarrow> is_lower grpc_version GRPC_GENERATED_VERSION | None \<Rightarrow> True) in
      if version_not_supported
      then Inl (RuntimeError (''The grpc package installed is at version '' @ grpc_version @ '',''
        @ '' but the generated code in '' @ module_name @ '' depends on''
        @ '' grpcio>='' @ GRPC_GENERATED_VERSION @ ''.''
        @ '' Please upgrade your grpc module to grpcio>='' @ GRPC_GENERATED_VERSION
        @ '' or downgrade your generated code using grpcio-tools<='' @ grpc_version @ ''.''))
      else Inr ())"

section \<open>The stubs\<close>

text \<open>The attributes of a stub over a channel.\<close>

definition ProducerServiceStub :: "Channel \<Rightarrow> (string \<times> MultiCallable) list" where
  "ProducerServiceStub channel =
    [(''CreateProducer'', unary_unary channel ''/danube.ProducerService/CreateProducer''
        ''ProducerRequest'' ''ProducerResponse''),
     (''SendMessage'', unary_unary channel ''/danube.ProducerService/SendMessage''
        ''StreamMessage'' ''MessageResponse'')]"

definition ConsumerServiceStub :: "Channel \<Rightarrow> (string \<times> MultiCallable) list" where
  "ConsumerServiceStub channel =
    [(''Subscribe'', unary_unary channel ''/danube.ConsumerService/Subscribe''
        ''ConsumerRequest'' ''ConsumerResponse''),
     (''ReceiveMessages'', unary_stream channel ''/danube.ConsumerService/ReceiveMessages''
        ''ReceiveRequest'' ''StreamMessage''),
     (''Ack'', unary_unary channel ''/danube.ConsumerService/Ack''
        ''AckRequest'' ''AckResponse''),
     (''Nack'', unary_unary channel ''/danube.ConsumerService/Nack''
        ''NackRequest'' ''NackResponse'')]"

definition DiscoveryStub :: "Channel \<Rightarrow> (string \<times> MultiCallable) list" where
  "DiscoveryStub channel =
    [(''TopicLookup'', unary_unary channel ''/danube.Discovery/TopicLookup''
        ''TopicLookupRequest'' ''TopicLookupResponse''),
     (''TopicPartitions'', unary_unary channel ''/danube.Discovery/TopicPartitions''
        ''TopicLookupRequest'' ''TopicPartitionsResponse'')]"

definition HealthCheckStub :: "Channel \<Rightarrow> (string \<times> MultiCallable) list" where
  "HealthCheckStub channel =
    [(''HealthCheck'', unary_unary channel ''/danube.HealthCheck/HealthCheck''
        ''HealthCheckRequest'' ''HealthCheckResponse'')]"

definition SchemaRegistryStub :: "Channel \<Rightarrow> (string \<times> MultiCallable) list" where
  "SchemaRegistryStub channel =
    [(''RegisterSchema'', unary_unary channel ''/danube_schema.SchemaRegistry/RegisterSchema''
        ''RegisterSchemaRequest'' ''RegisterSchemaResponse''),
     (''GetSchema'', unary_unary channel ''/danube_schema.SchemaRegistry/GetSchema''
        ''GetSchemaRequest'' ''GetSchemaResponse''),
     (''GetLatestSchema'', unary_unary channel ''/danube_schema.SchemaRegistry/GetLatestSchema''
        ''GetLatestSchemaRequest'' ''GetSchemaResponse''),
     (''ListVersions'', unary_unary channel ''/danube_schema.SchemaRegistry/ListVersions''
        ''ListVersionsRequest'' ''ListVersionsResponse''),
     (''CheckCompatibility'', unary_unary channel ''/danube_schema.SchemaRegistry/CheckCompatibility''
        ''CheckCompatibilityRequest'' ''CheckCompatibilityResponse''),
     (''DeleteSchemaVersion'', unary_unary channel ''/danube_schema.SchemaRegistry/DeleteSchemaVersion''
        ''DeleteSchemaVersionRequest'' ''DeleteSchemaVersionResponse''),
     (''SetCompatibilityMode'', unary_unary channel ''/danube_schema.SchemaRegistry/SetCompatibilityMode''
        ''SetCompatibilityModeRequest'' ''SetCompatibilityModeResponse''),
     (''ConfigureTopicSchema'', unary_unary channel ''/danube_schema.SchemaRegistry/ConfigureTopicSchema''
        ''ConfigureTopicSchemaRequest'' ''ConfigureTopicSchemaResponse''),
     (''UpdateTopicValidationPolicy'', unary_unary channel ''/danube_schema.SchemaRegistry/UpdateTopicValidationPolicy''
        ''UpdateTopicValidationPolicyRequest'' ''UpdateTopicValidationPolicyResponse''),
     (''GetTopicSchemaConfig'', unary_unary channel ''/danube_schema.SchemaRegistry/GetTopicSchemaConfig''
        ''GetTopicSchemaConfigRequest'' ''GetTopicSchemaConfigResponse'')]"

section \<open>The default servicers\<close>

definition ProducerServiceServicer :: "(string \<times> (ServicerContext, unit) py) list" where
  "ProducerServiceServicer =
    [(''CreateProducer'', unimplemented),
     (''SendMessage'', unimplemented)]"

definition ConsumerServiceServicer :: "(string \<times> (ServicerContext, unit) py) list" where
  "ConsumerServiceServicer =
    [(''Subscribe'', unimplemented),
     (''ReceiveMessages'', unimplemented),
     (''Ack'', unimplemented),
     (''Nack'', unimplemented)]"

definition DiscoveryServicer :: "(string \<times> (ServicerContext, unit) py) list" where
  "DiscoveryServicer =
    [(''TopicLookup'', unimplemented),
     (''TopicPartitions'', unimplemented)]"

definition HealthCheckServicer :: "(string \<times> (ServicerContext, unit) py) list" where
  "HealthCheckServicer =
    [(''HealthCheck'', unimplemented)]"

definition SchemaRegistryServicer :: "(string \<times> (ServicerContext, unit) py) list" where
  "SchemaRegistryServicer =
    [(''RegisterSchema'', unimplemented),
     (''GetSchema'', unimplemented),
     (''GetLatestSchema'', unimplemented),
     (''ListVersions'', unimplemented),
     (''CheckCompatibility'', unimplemented),
     (''DeleteSchemaVersion'', unimplemented),
     (''SetCompatibilityMode'', unimplemented),
     (''ConfigureTopicSchema'', unimplemented),
     (''UpdateTopicValidationPolicy'', unimplemented),
     (''GetTopicSchemaConfig'', unimplemented)]"

section \<open>Registering a servicer\<close>

definition add_ProducerServiceServicer_to_server :: "(string \<rightharpoonup> 'm) \<Rightarrow> ('m Server, unit) py" where
  "add_ProducerServiceServicer_to_server servicer =
    add_handlers ''danube.ProducerService''
    [(''CreateProducer'', unary_unary_rpc_method_handler (servicer ''CreateProducer'')
        ''ProducerRequest'' ''ProducerResponse''),
     (''SendMessage'', unary_unary_rpc_method_handler (servicer ''SendMessage'')
        ''StreamMessage'' ''MessageResponse'')]"

definition add_ConsumerServiceServicer_to_server :: "(string \<rightharpoonup> 'm) \<Rightarrow> ('m Server, unit) py" where
  "add_ConsumerServiceServicer_to_server servicer =
    add_handlers ''danube.ConsumerService''
    [(''Subscribe'', unary_unary_rpc_method_handler (servicer ''Subscribe'')
        ''ConsumerRequest'' ''ConsumerResponse''),
     (''ReceiveMessages'', unary_stream_rpc_method_handler (servicer ''ReceiveMessages'')
        ''ReceiveRequest'' ''StreamMessage''),
     (''Ack'', unary_unary_rpc_method_handler (servicer ''Ack'')
        ''AckRequest'' ''AckResponse''),
     (''Nack'', unary_unary_rpc_method_handler (servicer ''Nack'')
        ''NackRequest'' ''NackResponse'')]"

definition add_DiscoveryServicer_to_server :: "(string \<rightharpoonup> 'm) \<Rightarrow> ('m Server, unit) py" where
  "add_DiscoveryServicer_to_server servicer =
    add_handlers ''danube.Discovery''
    [(''TopicLookup'', unary_unary_rpc_method_handler (servicer ''TopicLookup'')
        ''TopicLookupRequest'' ''TopicLookupResponse''),
     (''TopicPartitions'', unary_unary_rpc_method_handler (servicer ''TopicPartitions'')
        ''TopicLookupRequest'' ''TopicPartitionsResponse'')]"

definition add_HealthCheckServicer_to_server :: "(string \<rightharpoonup> 'm) \<Rightarrow> ('m Server, unit) py" where
  "add_HealthCheckServicer_to_server servicer =
    add_handlers ''danube.HealthCheck''
    [(''HealthCheck'', unary_unary_rpc_method_handler (servicer ''HealthCheck'')
        ''HealthCheckRequest'' ''HealthCheckResponse'')]"

definition add_SchemaRegistryServicer_to_server :: "(string \<rightharpoonup> 'm) \<Rightarrow> ('m Server, unit) py" where
  "add_SchemaRegistryServicer_to_server servicer =
    add_handlers ''danube_schema.SchemaRegistry''
    [(''RegisterSchema'', unary_unary_rpc_method_handler (servicer ''RegisterSchema'')
        ''RegisterSchemaRequest'' ''RegisterSchemaResponse''),
     (''GetSchema'', unary_unary_rpc_method_handler (servicer ''GetSchema'')
        ''GetSchemaRequest'' ''GetSchemaResponse''),
     (''GetLatestSchema'', unary_unary_rpc_method_handler (servicer ''GetLatestSchema'')
        ''GetLatestSchemaRequest'' ''GetSchemaResponse''),
     (''ListVersions'', unary_unary_rpc_method_handler (servicer ''ListVersions'')
        ''ListVersionsRequest'' ''ListVersionsResponse''),
     (''CheckCompatibility'', unary_unary_rpc_method_handler (servicer ''CheckCompatibility'')
        ''CheckCompatibilityRequest'' ''CheckCompatibilityResponse''),
     (''DeleteSchemaVersion'', unary_unary_rpc_method_handler (servicer ''DeleteSchemaVersion'')
        ''DeleteSchemaVersionRequest'' ''DeleteSchemaVersionResponse''),
     (''SetCompatibilityMode'', unary_unary_rpc_method_handler (servicer ''SetCompatibilityMode'')
        ''SetCompatibilityModeRequest'' ''SetCompatibilityModeResponse''),
     (''ConfigureTopicSchema'', unary_unary_rpc_method_handler (servicer ''ConfigureTopicSchema'')
        ''ConfigureTopicSchemaRequest'' ''ConfigureTopicSchemaResponse''),
     (''UpdateTopicValidationPolicy'', unary_unary_rpc_method_handler (servicer ''UpdateTopicValidationPolicy'')
        ''UpdateTopicValidationPolicyRequest'' ''UpdateTopicValidationPolicyResponse''),
     (''GetTopicSchemaConfig'', unary_unary_rpc_method_handler (servicer ''GetTopicSchemaConfig'')
        ''GetTopicSchemaConfigRequest'' ''GetTopicSchemaConfigResponse'')]"

section \<open>The static methods\<close>

definition ProducerService_CreateProducer :: "'q \<Rightarrow> string \<Rightarrow> 'o CallArgs \<Rightarrow> ('q, 'o) StaticCall" where
  "ProducerService_CreateProducer request target args =
     experimental_unary_unary request target ''/danube.ProducerService/CreateProducer''
       ''ProducerRequest'' ''ProducerResponse''
       (ca_options args) (ca_channel_credentials args) (ca_insecure args) (ca_call_credentials args)
       (ca_compression args) (ca_wait_for_ready args) (ca_timeout args) (ca_metadata args)"

definition ProducerService_SendMessage :: "'q \<Rightarrow> string \<Rightarrow> 'o CallArgs \<Rightarrow> ('q, 'o) StaticCall" where
  "ProducerService_SendMessage request target args =
     experimental_unary_unary request target ''/danube.ProducerService/SendMessage''
       ''StreamMessage'' ''MessageResponse''
       (ca_options args) (ca_channel_credentials args) (ca_insecure args) (ca_call_credentials args)
       (ca_compression args) (ca_wait_for_ready args) (ca_timeout args) (ca_metadata args)"

definition ConsumerService_Subscribe :: "'q \<Rightarrow> string \<Rightarrow> 'o CallArgs \<Rightarrow> ('q, 'o) StaticCall" where
  "ConsumerService_Subscribe request target args =
     experimental_unary_unary request target ''/danube.ConsumerService/Subscribe''
       ''ConsumerRequest'' ''ConsumerResponse''
       (ca_options args) (ca_channel_credentials args) (ca_insecure args) (ca_call_credentials args)
       (ca_compression args) (ca_wait_for_ready args) (ca_timeout args) (ca_metadata args)"

definition ConsumerService_ReceiveMessages :: "'q \<Rightarrow> string \<Rightarrow> 'o CallArgs \<Rightarrow> ('q, 'o) StaticCall" where
  "ConsumerService_ReceiveMessages request target args =
     experimental_unary_stream request target ''/danube.ConsumerService/ReceiveMessages''
       ''ReceiveRequest'' ''StreamMessage''
       (ca_options args) (ca_channel_credentials args) (ca_insecure args) (ca_call_credentials args)
       (ca_compression args) (ca_wait_for_ready args) (ca_timeout args) (ca_metadata args)"

definition ConsumerService_Ack :: "'q \<Rightarrow> string \<Rightarrow> 'o CallArgs \<Rightarrow> ('q, 'o) StaticCall" where
  "ConsumerService_Ack request target args =
     experimental_unary_unary request target ''/danube.ConsumerService/Ack''
       ''AckRequest'' ''AckResponse''
       (ca_options args) (ca_channel_credentials args) (ca_insecure args) (ca_call_credentials args)
       (ca_compression args) (ca_wait_for_ready args) (ca_timeout args) (ca_metadata args)"

definition ConsumerService_Nack :: "'q \<Rightarrow> string \<Rightarrow> 'o CallArgs \<Rightarrow> ('q, 'o) StaticCall" where
  "ConsumerService_Nack request target args =
     experimental_unary_unary request target ''/danube.ConsumerService/Nack''
       ''NackRequest'' ''NackResponse''
       (ca_options args) (ca_channel_credentials args) (ca_insecure args) (ca_call_credentials args)
       (ca_compression args) (ca_wait_for_ready args) (ca_timeout args) (ca_metadata args)"

definition Discovery_TopicLookup :: "'q \<Rightarrow> string \<Rightarrow> 'o CallArgs \<Rightarrow> ('q, 'o) StaticCall" where
  "Discovery_TopicLookup request target args =
     experimental_unary_unary request target ''/danube.Discovery/TopicLookup''
       ''TopicLookupRequest'' ''TopicLookupResponse''
       (ca_options args) (ca_channel_credentials args) (ca_insecure args) (ca_call_credentials args)
       (ca_compression args) (ca_wait_for_ready args) (ca_timeout args) (ca_metadata args)"

definition Discovery_TopicPartitions :: "'q \<Rightarrow> string \<Rightarrow> 'o CallArgs \<Rightarrow> ('q, 'o) StaticCall" where
  "Discovery_TopicPartitions request target args =
     experimental_unary_unary request target ''/danube.Discovery/TopicPartitions''
       ''TopicLookupRequest'' ''TopicPartitionsResponse''
       (ca_options args) (ca_channel_credentials args) (ca_insecure args) (ca_call_credentials args)
       (ca_compression args) (ca_wait_for_ready args) (ca_timeout args) (ca_metadata args)"

definition HealthCheck_HealthCheck :: "'q \<Rightarrow> string \<Rightarrow> 'o CallArgs \<Rightarrow> ('q, 'o) StaticCall" where
  "HealthCheck_HealthCheck request target args =
     experimental_unary_unary request target ''/danube.HealthCheck/HealthCheck''
       ''HealthCheckRequest'' ''HealthCheckResponse''
       (ca_options args) (ca_channel_credentials args) (ca_insecure args) (ca_call_credentials args)
       (ca_compression args) (ca_wait_for_ready args) (ca_timeout args) (ca_metadata args)"

definition SchemaRegistry_RegisterSchema :: "'q \<Rightarrow> string \<Rightarrow> 'o CallArgs \<Rightarrow> ('q, 'o) StaticCall" where
  "SchemaRegistry_RegisterSchema request target args =
     experimental_unary_unary request target ''/danube_schema.SchemaRegistry/RegisterSchema''
       ''RegisterSchemaRequest'' ''RegisterSchemaResponse''
       (ca_options args) (ca_channel_credentials args) (ca_insecure args) (ca_call_credentials args)
       (ca_compression args) (ca_wait_for_ready args) (ca_timeout args) (ca_metadata args)"

definition SchemaRegistry_GetSchema :: "'q \<Rightarrow> string \<Rightarrow> 'o CallArgs \<Rightarrow> ('q, 'o) StaticCall" where
  "SchemaRegistry_GetSchema request target args =
     experimental_unary_unary request target ''/danube_schema.SchemaRegistry/GetSchema''
       ''GetSchemaRequest'' ''GetSchemaResponse''
       (ca_options args) (ca_channel_credentials args) (ca_insecure args) (ca_call_credentials args)
       (ca_compression args) (ca_wait_for_ready args) (ca_timeout args) (ca_metadata args)"

definition SchemaRegistry_GetLatestSchema :: "'q \<Rightarrow> string \<Rightarrow> 'o CallArgs \<Rightarrow> ('q, 'o) StaticCall" where
  "SchemaRegistry_GetLatestSchema request target args =
     experimental_unary_unary request target ''/danube_schema.SchemaRegistry/GetLatestSchema''
       ''GetLatestSchemaRequest'' ''GetSchemaResponse''
       (ca_options args) (ca_channel_credentials args) (ca_insecure args) (ca_call_credentials args)
       (ca_compression args) (ca_wait_for_ready args) (ca_timeout args) (ca_metadata args)"

definition SchemaRegistry_ListVersions :: "'q \<Rightarrow> string \<Rightarrow> 'o CallArgs \<Rightarrow> ('q, 'o) StaticCall" where
  "SchemaRegistry_ListVersions request target args =
     experimental_unary_unary request target ''/danube_schema.SchemaRegistry/ListVersions''
       ''ListVersionsRequest'' ''ListVersionsResponse''
       (ca_options args) (ca_channel_credentials args) (ca_insecure args) (ca_call_credentials args)
       (ca_compression args) (ca_wait_for_ready args) (ca_timeout args) (ca_metadata args)"

definition SchemaRegistry_CheckCompatibility :: "'q \<Rightarrow> string \<Rightarrow> 'o CallArgs \<Rightarrow> ('q, 'o) StaticCall" where
  "SchemaRegistry_CheckCompatibility request target args =
     experimental_unary_unary request target ''/danube_schema.SchemaRegistry/CheckCompatibility''
       ''CheckCompatibilityRequest'' ''CheckCompatibilityResponse''
       (ca_options args) (ca_channel_credentials args) (ca_insecure args) (ca_call_credentials args)
       (ca_compression args) (ca_wait_for_ready args) (ca_timeout args) (ca_metadata args)"

definition SchemaRegistry_DeleteSchemaVersion :: "'q \<Rightarrow> string \<Rightarrow> 'o CallArgs \<Rightarrow> ('q, 'o) StaticCall" where
  "SchemaRegistry_DeleteSchemaVersion request target args =
     experimental_unary_unary request target ''/danube_schema.SchemaRegistry/DeleteSchemaVersion''
       ''DeleteSchemaVersionRequest'' ''DeleteSchemaVersionResponse''
       (ca_options args) (ca_channel_credentials args) (ca_insecure args) (ca_call_credentials args)
       (ca_compression args) (ca_wait_for_ready args) (ca_timeout args) (ca_metadata args)"

definition SchemaRegistry_SetCompatibilityMode :: "'q \<Rightarrow> string \<Rightarrow> 'o CallArgs \<Rightarrow> ('q, 'o) StaticCall" where
  "SchemaRegistry_SetCompatibilityMode request target args =
     experimental_unary_unary request target ''/danube_schema.SchemaRegistry/SetCompatibilityMode''
       ''SetCompatibilityModeRequest'' ''SetCompatibilityModeResponse''
       (ca_options args) (ca_channel_credentials args) (ca_insecure args) (ca_call_credentials args)
       (ca_compression args) (ca_wait_for_ready args) (ca_timeout args) (ca_metadata args)"

definition SchemaRegistry_ConfigureTopicSchema :: "'q \<Rightarrow> string \<Rightarrow> 'o CallArgs \<Rightarrow> ('q, 'o) StaticCall" where
  "SchemaRegistry_ConfigureTopicSchema request target args =
     experimental_unary_unary request target ''/danube_schema.SchemaRegistry/ConfigureTopicSchema''
       ''ConfigureTopicSchemaRequest'' ''ConfigureTopicSchemaResponse''
       (ca_options args) (ca_channel_credentials args) (ca_insecure args) (ca_call_credentials args)
       (ca_compression args) (ca_wait_for_ready args) (ca_timeout args) (ca_metadata args)"

definition SchemaRegistry_UpdateTopicValidationPolicy :: "'q \<Rightarrow> string \<Rightarrow> 'o CallArgs \<Rightarrow> ('q, 'o) StaticCall" where
  "SchemaRegistry_UpdateTopicValidationPolicy request target args =
     experimental_unary_unary request target ''/danube_schema.SchemaRegistry/UpdateTopicValidationPolicy''
       ''UpdateTopicValidationPolicyRequest'' ''UpdateTopicValidationPolicyResponse''
       (ca_options args) (ca_channel_credentials args) (ca_insecure args) (ca_call_credentials args)
       (ca_compression args) (ca_wait_for_ready args) (ca_timeout args) (ca_metadata args)"

definition SchemaRegistry_GetTopicSchemaConfig :: "'q \<Rightarrow> string \<Rightarrow> 'o CallArgs \<Rightarrow> ('q, 'o) StaticCall" where
  "SchemaRegistry_GetTopicSchemaConfig request target args =
     experimental_unary_unary request target ''/danube_schema.SchemaRegistry/GetTopicSchemaConfig''
       ''GetTopicSchemaConfigRequest'' ''GetTopicSchemaConfigResponse''
       (ca_options args) (ca_channel_credentials args) (ca_insecure args) (ca_call_credentials args)
       (ca_compression args) (ca_wait_for_ready args) (ca_timeout args) (ca_metadata args)"

section \<open>The services together\<close>

definition services ::
  "(string \<times> (Channel \<Rightarrow> (string \<times> MultiCallable) list) \<times> (string \<times> (ServicerContext, unit) py) list
     \<times> ((string \<rightharpoonup> 'm) \<Rightarrow> ('m Server, unit) py)) list" where
  "services =
    [(''danube.ProducerService'', ProducerServiceStub, ProducerServiceServicer, add_ProducerServiceServicer_to_server),
     (''danube.ConsumerService'', ConsumerServiceStub, ConsumerServiceServicer, add_ConsumerServiceServicer_to_server),
     (''danube.Discovery'', DiscoveryStub, DiscoveryServicer, add_DiscoveryServicer_to_server),
     (''danube.HealthCheck'', HealthCheckStub, HealthCheckServicer, add_HealthCheckServicer_to_server),
     (''danube_schema.SchemaRegistry'', SchemaRegistryStub, SchemaRegistryServicer, add_SchemaRegistryServicer_to_server)]"

definition static_methods :: "(string \<times> string \<times> ('q \<Rightarrow> string \<Rightarrow> 'o CallArgs \<Rightarrow> ('q, 'o) StaticCall)) list" where
  "static_methods =
    [(''danube.ProducerService'', ''CreateProducer'', ProducerService_CreateProducer),
     (''danube.ProducerService'', ''SendMessage'', ProducerService_SendMessage),
     (''danube.ConsumerService'', ''Subscribe'', ConsumerService_Subscribe),
     (''danube.ConsumerService'', ''ReceiveMessages'', ConsumerService_ReceiveMessages),
     (''danube.ConsumerService'', ''Ack'', ConsumerService_Ack),
     (''danube.ConsumerService'', ''Nack'', ConsumerService_Nack),
     (''danube.Discovery'', ''TopicLookup'', Discovery_TopicLookup),
     (''danube.Discovery'', ''TopicPartitions'', Discovery_TopicPartitions),
     (''danube.HealthCheck'', ''HealthCheck'', HealthCheck_HealthCheck),
     (''danube_schema.SchemaRegistry'', ''RegisterSchema'', SchemaRegistry_RegisterSchema),
     (''danube_schema.SchemaRegistry'', ''GetSchema'', SchemaRegistry_GetSchema),
     (''danube_schema.SchemaRegistry'', ''GetLatestSchema'', SchemaRegistry_GetLatestSchema),
     (''danube_schema.SchemaRegistry'', ''ListVersions'', SchemaRegistry_ListVersions),
     (''danube_schema.SchemaRegistry'', ''CheckCompatibility'', SchemaRegistry_CheckCompatibility),
     (''danube_schema.SchemaRegistry'', ''DeleteSchemaVersion'', SchemaRegistry_DeleteSchemaVersion),
     (''danube_schema.SchemaRegistry'', ''SetCompatibilityMode'', SchemaRegistry_SetCompatibilityMode),
     (''danube_schema.SchemaRegistry'', ''ConfigureTopicSchema'', SchemaRegistry_ConfigureTopicSchema),
     (''danube_schema.SchemaRegistry'', ''UpdateTopicValidationPolicy'', SchemaRegistry_UpdateTopicValidationPolicy),
     (''danube_schema.SchemaRegistry'', ''GetTopicSchemaConfig'', SchemaRegistry_GetTopicSchemaConfig)]"

section \<open>The services that the protocol declares\<close>

text \<open>The \<open>service\<close> declarations of the two \<open>.proto\<close> files: name, kind, request and response of each \<open>rpc\<close>.\<close>

definition ProducerService_rpcs :: "(string \<times> call_kind \<times> string \<times> string) list" where
  "ProducerService_rpcs =
    [(''CreateProducer'', UnaryUnary, ''ProducerRequest'', ''ProducerResponse''),
     (''SendMessage'', UnaryUnary, ''StreamMessage'', ''MessageResponse'')]"

definition ConsumerService_rpcs :: "(string \<times> call_kind \<times> string \<times> string) list" where
  "ConsumerService_rpcs =
    [(''Subscribe'', UnaryUnary, ''ConsumerRequest'', ''ConsumerResponse''),
     (''ReceiveMessages'', UnaryStream, ''ReceiveRequest'', ''StreamMessage''),
     (''Ack'', UnaryUnary, ''AckRequest'', ''AckResponse''),
     (''Nack'', UnaryUnary, ''NackRequest'', ''NackResponse'')]"

definition Discovery_rpcs :: "(string \<times> call_kind \<times> string \<times> string) list" where
  "Discovery_rpcs =
    [(''TopicLookup'', UnaryUnary, ''TopicLookupRequest'', ''TopicLookupResponse''),
     (''TopicPartitions'', UnaryUnary, ''TopicLookupRequest'', ''TopicPartitionsResponse'')]"

definition HealthCheck_rpcs :: "(string \<times> call_kind \<times> string \<times> string) list" where
  "HealthCheck_rpcs =
    [(''HealthCheck'', UnaryUnary, ''HealthCheckRequest'', ''HealthCheckResponse'')]"

definition SchemaRegistry_rpcs :: "(string \<times> call_kind \<times> string \<times> string) list" where
  "SchemaRegistry_rpcs =
    [(''RegisterSchema'', UnaryUnary, ''RegisterSchemaRequest'', ''RegisterSchemaResponse''),
     (''GetSchema'', UnaryUnary, ''GetSchemaRequest'', ''GetSchemaResponse''),
     (''GetLatestSchema'', UnaryUnary, ''GetLatestSchemaRequest'', ''GetSchemaResponse''),
     (''ListVersions'', UnaryUnary, ''ListVersionsRequest'', ''ListVersionsResponse''),
     (''CheckCompatibility'', UnaryUnary, ''CheckCompatibilityRequest'', ''CheckCompatibilityResponse''),
     (''DeleteSchemaVersion'', UnaryUnary, ''DeleteSchemaVersionRequest'', ''DeleteSchemaVersionResponse''),
     (''SetCompatibilityMode'', UnaryUnary, ''SetCompatibilityModeRequest'', ''SetCompatibilityModeResponse''),
     (''ConfigureTopicSchema'', UnaryUnary, ''ConfigureTopicSchemaRequest'', ''ConfigureTopicSchemaResponse''),
     (''UpdateTopicValidationPolicy'', UnaryUnary, ''UpdateTopicValidationPolicyRequest'', ''UpdateTopicValidationPolicyResponse''),
     (''GetTopicSchemaConfig'', UnaryUnary, ''GetTopicSchemaConfigRequest'', ''GetTopicSchemaConfigResponse'')]"

definition rpcs :: "string \<rightharpoonup> (string \<times> call_kind \<times> string \<times> string) list" where
  "rpcs = map_of
    [(''danube.ProducerService'', ProducerService_rpcs),
     (''danube.ConsumerService'', ConsumerService_rpcs),
     (''danube.Discovery'', Discovery_rpcs),
     (''danube.HealthCheck'', HealthCheck_rpcs),
     (''danube_schema.SchemaRegistry'', SchemaRegistry_rpcs)]"

section \<open>The generated code implements the declarations\<close>

type_synonym rpc_decl = "string \<times> call_kind \<times> string \<times> string"

definition callable_of :: "Channel \<Rightarrow> string \<Rightarrow> rpc_decl \<Rightarrow> string \<times> MultiCallable" where
  "callable_of ch svc = (\<lambda>(name, kind, rq, rs). (name,
     \<lparr>mc_channel = ch, mc_kind = kind, mc_path = ''/'' @ svc @ ''/'' @ name, mc_request = rq, mc_response = rs\<rparr>))"

definition handler_of :: "(string \<rightharpoonup> 'm) \<Rightarrow> rpc_decl \<Rightarrow> string \<times> 'm Handler" where
  "handler_of servicer = (\<lambda>(name, kind, rq, rs). (name,
     \<lparr>mh_method = the (servicer name), mh_kind = kind, mh_request = rq, mh_response = rs\<rparr>))"

definition entry_of :: "(string \<rightharpoonup> 'm) \<Rightarrow> rpc_decl \<Rightarrow> string \<times> (exn + 'm Handler)" where
  "entry_of servicer = (\<lambda>(name, kind, rq, rs). (name, method_handler kind (servicer name) rq rs))"

lemmas stub_defs = ProducerServiceStub_def ConsumerServiceStub_def DiscoveryStub_def HealthCheckStub_def
  SchemaRegistryStub_def
lemmas servicer_defs = ProducerServiceServicer_def ConsumerServiceServicer_def DiscoveryServicer_def
  HealthCheckServicer_def SchemaRegistryServicer_def
lemmas adder_defs = add_ProducerServiceServicer_to_server_def add_ConsumerServiceServicer_to_server_def
  add_DiscoveryServicer_to_server_def add_HealthCheckServicer_to_server_def
  add_SchemaRegistryServicer_to_server_def
lemmas rpcs_defs = ProducerService_rpcs_def ConsumerService_rpcs_def Discovery_rpcs_def HealthCheck_rpcs_def
  SchemaRegistry_rpcs_def

text \<open>Registering handlers whose methods all exist adds one entry of each kind; otherwise it raises and
  the server is as before.\<close>

lemma handlers_run:
  "for_each (\<lambda>(name, h). bnd (of_result h) (\<lambda>h. ret (name, h))) (map (entry_of servicer) decls) srv =
     (if \<forall>d \<in> set decls. servicer (fst d) \<noteq> None then Inr (map (handler_of servicer) decls)
      else Inl AttributeError, srv)"
proof (induction decls)
  case (Cons d decls)
  obtain name kind rq rs where d: "d = (name, kind, rq, rs)" by (metis surj_pair)
  have first: "(case entry_of servicer d of (name, h) \<Rightarrow> bnd (of_result h) (\<lambda>h. ret (name, h))) srv
      = (if servicer (fst d) \<noteq> None then Inr (handler_of servicer d) else Inl AttributeError, srv)"
    by (cases "servicer name") (simp_all add: d entry_of_def handler_of_def method_handler_def run_simps)
  have "for_each (\<lambda>(name, h). bnd (of_result h) (\<lambda>h. ret (name, h))) (map (entry_of servicer) (d # decls)) srv =
     (if servicer (fst d) \<noteq> None \<and> (\<forall>d \<in> set decls. servicer (fst d) \<noteq> None)
      then Inr (map (handler_of servicer) (d # decls)) else Inl AttributeError, srv)"
    unfolding list.map for_each.simps
    by (subst bnd_run, subst first) (simp add: Cons.IH bnd_run ret_run)
  then show ?case by simp
qed (simp add: run_simps)

lemma add_handlers_run:
  "add_handlers svc (map (entry_of servicer) decls) srv =
     (if \<forall>d \<in> set decls. servicer (fst d) \<noteq> None
      then (Inr (), srv\<lparr>srv_generic := srv_generic srv @ [(svc, map (handler_of servicer) decls)],
                        srv_registered := srv_registered srv @ [(svc, map (handler_of servicer) decls)]\<rparr>)
      else (Inl AttributeError, srv))"
  by (simp add: add_handlers_def run_simps handlers_run)

lemma ProducerService_implements:
  "rpcs ''danube.ProducerService'' = Some ProducerService_rpcs"
  "ProducerServiceStub ch = map (callable_of ch ''danube.ProducerService'') ProducerService_rpcs"
  "ProducerServiceServicer = map (\<lambda>d. (fst d, unimplemented)) ProducerService_rpcs"
  "add_ProducerServiceServicer_to_server servicer = add_handlers ''danube.ProducerService'' (map (entry_of servicer) ProducerService_rpcs)"
  by (simp_all add: rpcs_def ProducerServiceStub_def ProducerService_rpcs_def ProducerServiceServicer_def add_ProducerServiceServicer_to_server_def
      callable_of_def entry_of_def unary_unary_def unary_stream_def)

lemma ConsumerService_implements:
  "rpcs ''danube.ConsumerService'' = Some ConsumerService_rpcs"
  "ConsumerServiceStub ch = map (callable_of ch ''danube.ConsumerService'') ConsumerService_rpcs"
  "ConsumerServiceServicer = map (\<lambda>d. (fst d, unimplemented)) ConsumerService_rpcs"
  "add_ConsumerServiceServicer_to_server servicer = add_handlers ''danube.ConsumerService'' (map (entry_of servicer) ConsumerService_rpcs)"
  by (simp_all add: rpcs_def ConsumerServiceStub_def ConsumerService_rpcs_def ConsumerServiceServicer_def add_ConsumerServiceServicer_to_server_def
      callable_of_def entry_of_def unary_unary_def unary_stream_def)

lemma Discovery_implements:
  "rpcs ''danube.Discovery'' = Some Discovery_rpcs"
  "DiscoveryStub ch = map (callable_of ch ''danube.Discovery'') Discovery_rpcs"
  "DiscoveryServicer = map (\<lambda>d. (fst d, unimplemented)) Discovery_rpcs"
  "add_DiscoveryServicer_to_server servicer = add_handlers ''danube.Discovery'' (map (entry_of servicer) Discovery_rpcs)"
  by (simp_all add: rpcs_def DiscoveryStub_def Discovery_rpcs_def DiscoveryServicer_def add_DiscoveryServicer_to_server_def
      callable_of_def entry_of_def unary_unary_def unary_stream_def)

lemma HealthCheck_implements:
  "rpcs ''danube.HealthCheck'' = Some HealthCheck_rpcs"
  "HealthCheckStub ch = map (callable_of ch ''danube.HealthCheck'') HealthCheck_rpcs"
  "HealthCheckServicer = map (\<lambda>d. (fst d, unimplemented)) HealthCheck_rpcs"
  "add_HealthCheckServicer_to_server servicer = add_handlers ''danube.HealthCheck'' (map (entry_of servicer) HealthCheck_rpcs)"
  by (simp_all add: rpcs_def HealthCheckStub_def HealthCheck_rpcs_def HealthCheckServicer_def add_HealthCheckServicer_to_server_def
      callable_of_def entry_of_def unary_unary_def unary_stream_def)

lemma SchemaRegistry_implements:
  "rpcs ''danube_schema.SchemaRegistry'' = Some SchemaRegistry_rpcs"
  "SchemaRegistryStub ch = map (callable_of ch ''danube_schema.SchemaRegistry'') SchemaRegistry_rpcs"
  "SchemaRegistryServicer = map (\<lambda>d. (fst d, unimplemented)) SchemaRegistry_rpcs"
  "add_SchemaRegistryServicer_to_server servicer = add_handlers ''danube_schema.SchemaRegistry'' (map (entry_of servicer) SchemaRegistry_rpcs)"
  by (simp_all add: rpcs_def SchemaRegistryStub_def SchemaRegistry_rpcs_def SchemaRegistryServicer_def add_SchemaRegistryServicer_to_server_def
      callable_of_def entry_of_def unary_unary_def unary_stream_def)

definition implements ::
  "string \<times> (Channel \<Rightarrow> (string \<times> MultiCallable) list) \<times> (string \<times> (ServicerContext, unit) py) list
     \<times> ((string \<rightharpoonup> 'm) \<Rightarrow> ('m Server, unit) py) \<Rightarrow> rpc_decl list \<Rightarrow> bool" where
  "implements service decls \<longleftrightarrow> (case service of (svc, stub, defaults, add) \<Rightarrow>
     rpcs svc = Some decls \<and> stub = (\<lambda>ch. map (callable_of ch svc) decls)
     \<and> defaults = map (\<lambda>d. (fst d, unimplemented)) decls
     \<and> add = (\<lambda>servicer. add_handlers svc (map (entry_of servicer) decls)))"

lemma each_implements:
  "implements (''danube.ProducerService'', ProducerServiceStub, ProducerServiceServicer, add_ProducerServiceServicer_to_server) ProducerService_rpcs"
  "implements (''danube.ConsumerService'', ConsumerServiceStub, ConsumerServiceServicer, add_ConsumerServiceServicer_to_server) ConsumerService_rpcs"
  "implements (''danube.Discovery'', DiscoveryStub, DiscoveryServicer, add_DiscoveryServicer_to_server) Discovery_rpcs"
  "implements (''danube.HealthCheck'', HealthCheckStub, HealthCheckServicer, add_HealthCheckServicer_to_server) HealthCheck_rpcs"
  "implements (''danube_schema.SchemaRegistry'', SchemaRegistryStub, SchemaRegistryServicer, add_SchemaRegistryServicer_to_server) SchemaRegistry_rpcs"
  unfolding implements_def prod.case
  by (intro conjI ext ProducerService_implements ConsumerService_implements Discovery_implements HealthCheck_implements SchemaRegistry_implements)+

lemma services_implement:
  assumes "service \<in> set services"
  shows "\<exists>decls. implements service decls"
  using assms unfolding services_def list.set
  by (elim insertE emptyE) (hypsubst, rule exI, rule each_implements)+

text \<open>C39: The generated code implements the declared services. For each of them the stub has exactly the
  declared methods, each calling \<open>/service/method\<close> on the stub's channel with the declared kind and
  message types; the default servicer answers every one of them with UNIMPLEMENTED; registering a
  servicer that has all methods gives the server exactly the matching handlers under the service's
  name, and registering an incomplete one raises and changes nothing.\<close>

theorem services_match_declarations:
  assumes "(svc, stub, defaults, add) \<in> set services"
  shows "\<exists>decls. rpcs svc = Some decls \<and> stub ch = map (callable_of ch svc) decls
    \<and> map fst defaults = map fst decls
    \<and> (\<forall>(name, m) \<in> set defaults. m context = (Inl (NotImplementedError ''Method not implemented!''),
          context\<lparr>sc_code := Some UNIMPLEMENTED, sc_details := ''Method not implemented!''\<rparr>))
    \<and> add servicer srv =
       (if \<forall>d \<in> set decls. servicer (fst d) \<noteq> None
        then (Inr (), srv\<lparr>srv_generic := srv_generic srv @ [(svc, map (handler_of servicer) decls)],
                          srv_registered := srv_registered srv @ [(svc, map (handler_of servicer) decls)]\<rparr>)
        else (Inl AttributeError, srv))"
proof -
  from services_implement [OF assms] obtain decls where "rpcs svc = Some decls"
    "stub ch = map (callable_of ch svc) decls" "defaults = map (\<lambda>d. (fst d, unimplemented)) decls"
    "add servicer = add_handlers svc (map (entry_of servicer) decls)"
    by (auto simp: implements_def)
  moreover have "unimplemented context = (Inl (NotImplementedError ''Method not implemented!''),
          context\<lparr>sc_code := Some UNIMPLEMENTED, sc_details := ''Method not implemented!''\<rparr>)"
    by (simp add: unimplemented_def run_simps)
  ultimately show ?thesis by (intro exI [of _ decls]) (auto simp: add_handlers_run comp_def)
qed

theorem services_match_declarations_witness:
  "add_HealthCheckServicer_to_server (\<lambda>name. if name = ''HealthCheck'' then Some (7 :: nat) else None)
     \<lparr>srv_generic = [], srv_registered = []\<rparr> =
   (Inr (), \<lparr>srv_generic = [(''danube.HealthCheck'', [(''HealthCheck'', \<lparr>mh_method = 7, mh_kind = UnaryUnary,
        mh_request = ''HealthCheckRequest'', mh_response = ''HealthCheckResponse''\<rparr>)])],
      srv_registered = [(''danube.HealthCheck'', [(''HealthCheck'', \<lparr>mh_method = 7, mh_kind = UnaryUnary,
        mh_request = ''HealthCheckRequest'', mh_response = ''HealthCheckResponse''\<rparr>)])]\<rparr>)"
proof -
  have "(''danube.HealthCheck'', HealthCheckStub, HealthCheckServicer, add_HealthCheckServicer_to_server)
      \<in> set services"
    by (simp add: services_def)
  from services_match_declarations [OF this, of undefined undefined
      "\<lambda>name. if name = ''HealthCheck'' then Some (7 :: nat) else None" "\<lparr>srv_generic = [], srv_registered = []\<rparr>"]
  show ?thesis by (simp add: rpcs_def rpcs_defs handler_of_def)
qed

text \<open>A static method passes its declaration and every argument on.\<close>

definition static_call :: "string \<Rightarrow> rpc_decl \<Rightarrow> 'q \<Rightarrow> string \<Rightarrow> 'o CallArgs \<Rightarrow> ('q, 'o) StaticCall" where
  "static_call svc = (\<lambda>(name, kind, rq, rs) request target args.
     \<lparr>xc_kind = kind, xc_request = request, xc_target = target, xc_path = ''/'' @ svc @ ''/'' @ name,
      xc_serializer = rq, xc_deserializer = rs, xc_options = ca_options args,
      xc_channel_credentials = ca_channel_credentials args, xc_insecure = ca_insecure args,
      xc_call_credentials = ca_call_credentials args, xc_compression = ca_compression args,
      xc_wait_for_ready = ca_wait_for_ready args, xc_timeout = ca_timeout args, xc_metadata = ca_metadata args\<rparr>)"

lemma static_methods_eq:
  "static_methods = concat (map (\<lambda>svc. map (\<lambda>d. (svc, fst d, static_call svc d)) (the (rpcs svc)))
     [''danube.ProducerService'', ''danube.ConsumerService'', ''danube.Discovery'', ''danube.HealthCheck'',
      ''danube_schema.SchemaRegistry''])"
  unfolding list.map ProducerService_implements ConsumerService_implements Discovery_implements
    HealthCheck_implements SchemaRegistry_implements option.sel rpcs_defs list.map concat.simps
  by (simp add: static_methods_def static_call_def fun_eq_iff experimental_unary_unary_def
      experimental_unary_stream_def ProducerService_CreateProducer_def ProducerService_SendMessage_def ConsumerService_Subscribe_def ConsumerService_ReceiveMessages_def ConsumerService_Ack_def ConsumerService_Nack_def Discovery_TopicLookup_def Discovery_TopicPartitions_def HealthCheck_HealthCheck_def SchemaRegistry_RegisterSchema_def SchemaRegistry_GetSchema_def SchemaRegistry_GetLatestSchema_def SchemaRegistry_ListVersions_def SchemaRegistry_CheckCompatibility_def SchemaRegistry_DeleteSchemaVersion_def SchemaRegistry_SetCompatibilityMode_def SchemaRegistry_ConfigureTopicSchema_def SchemaRegistry_UpdateTopicValidationPolicy_def SchemaRegistry_GetTopicSchemaConfig_def)

text \<open>The same call made without a stub, as a static method makes it.\<close>

definition static_of :: "MultiCallable \<Rightarrow> 'q \<Rightarrow> string \<Rightarrow> 'o CallArgs \<Rightarrow> ('q, 'o) StaticCall" where
  "static_of m request target args =
     \<lparr>xc_kind = mc_kind m, xc_request = request, xc_target = target, xc_path = mc_path m,
      xc_serializer = mc_request m, xc_deserializer = mc_response m, xc_options = ca_options args,
      xc_channel_credentials = ca_channel_credentials args, xc_insecure = ca_insecure args,
      xc_call_credentials = ca_call_credentials args, xc_compression = ca_compression args,
      xc_wait_for_ready = ca_wait_for_ready args, xc_timeout = ca_timeout args, xc_metadata = ca_metadata args\<rparr>"

lemma static_of_callable: "static_of (snd (callable_of ch svc d)) = static_call svc d"
  by (cases d) (simp add: callable_of_def static_call_def static_of_def fun_eq_iff)

lemma fst_callable [simp]: "fst (callable_of ch svc d) = fst d"
  by (cases d) (simp add: callable_of_def)

text \<open>C40: The two generated ways to make a call agree. The static methods are exactly those that the
  protocol declares, service by service and in its order; each makes the call that the method of
  the same name makes on a stub of its service, with the same path, kind, serializer and
  deserializer, and passes the request, the target and every option on.\<close>

theorem static_methods_match_stubs:
  "static_methods = concat (map (\<lambda>(svc, stub, _). map (\<lambda>d. (svc, fst d, static_call svc d)) (the (rpcs svc))) services)
   \<and> static_methods = concat (map (\<lambda>(svc, stub, _). map (\<lambda>(name, m). (svc, name, static_of m)) (stub ch)) services)"
proof -
  have each: "map (\<lambda>(name, m). (svc, name, static_of m)) (map (callable_of ch svc) decls)
      = map (\<lambda>d. (svc, fst d, static_call svc d)) decls" for svc decls
    unfolding list.map_comp
    by (rule list.map_cong0) (metis (no_types, lifting) case_prod_conv comp_apply fst_callable static_of_callable surjective_pairing)
  show ?thesis
    unfolding static_methods_eq services_def list.map prod.case ProducerService_implements
      ConsumerService_implements Discovery_implements HealthCheck_implements SchemaRegistry_implements
      option.sel each
    by (rule conjI; rule refl)
qed

end
