(* ===== verification/MessageRouter.thy ===== *)
theory MessageRouter
  imports PyText
begin

text \<open>
  \<open>danube/message_router.py\<close>: the round-robin and key-based choice of a partition, and the
  64-bit FNV-1a hash on Python's unbounded integers. The lock around the counter makes
  \<open>round_robin\<close> one atomic step. \<open>%\<close> by zero raises; its sign is that of the divisor, as
  \<open>mod\<close> on \<open>int\<close>.
\<close>

unbundle bit_operations_syntax

record MessageRouter =
  mr_partitions :: int
  mr_last :: int

definition new_MessageRouter :: "int \<Rightarrow> MessageRouter" where
  "new_MessageRouter n = \<lparr>mr_partitions = n, mr_last = n - 1\<rparr>"

definition py_mod :: "int \<Rightarrow> int \<Rightarrow> exn + int" where
  "py_mod a b = (if b = 0 then Inl ZeroDivisionError else Inr (a mod b))"

definition round_robin :: "(MessageRouter, int) py" where
  "round_robin =
     bnd (gets (\<lambda>r. py_mod (mr_last r + 1) (mr_partitions r))) (\<lambda>m.
     bnd (of_result m) (\<lambda>next_part.
     seq (modify (\<lambda>r. r\<lparr>mr_last := next_part\<rparr>))
         (ret next_part)))"

fun fnv1a_loop :: "int \<Rightarrow> 8 word list \<Rightarrow> int" where
  "fnv1a_loop h [] = h"
| "fnv1a_loop h (byte # bs) =
     (let h = h XOR uint byte;
          h = (h * 0x100000001B3) AND 0xFFFFFFFFFFFFFFFF
      in fnv1a_loop h bs)"

definition fnv1a_hash :: "string \<Rightarrow> int" where
  "fnv1a_hash key = fnv1a_loop 0xCBF29CE484222325 (encode key)"

definition key_route :: "MessageRouter \<Rightarrow> string \<Rightarrow> exn + int" where
  "key_route r routing_key = (let h = fnv1a_hash routing_key in py_mod h (mr_partitions r))"

section \<open>The hash against the 64-bit algorithm\<close>

text \<open>FNV-1a as its description states it: on 64-bit words, exclusive-or and wrapping product.\<close>

definition fnv1a_step64 :: "64 word \<Rightarrow> 8 word \<Rightarrow> 64 word" where
  "fnv1a_step64 h byte = (h XOR ucast byte) * 0x100000001B3"

definition fnv1a_64 :: "bytes \<Rightarrow> 64 word" where
  "fnv1a_64 bs = fold (\<lambda>b h. fnv1a_step64 h b) bs 0xCBF29CE484222325"

lemma and_mask64: "(x :: int) AND 0xFFFFFFFFFFFFFFFF = x mod 2 ^ 64"
proof -
  have "(0xFFFFFFFFFFFFFFFF :: int) = mask 64"
    by (simp add: mask_eq_exp_minus_1)
  then show ?thesis
    by (simp only: flip: take_bit_eq_mask) (simp only: take_bit_eq_mod)
qed

lemma fnv1a_step_uint:
  "((uint (h :: 64 word) XOR uint (b :: 8 word)) * 0x100000001B3) AND 0xFFFFFFFFFFFFFFFF
   = uint (fnv1a_step64 h b)"
proof -
  have "uint (h XOR ucast b :: 64 word) = uint h XOR uint b"
  proof -
    have "uint b < 2 ^ 8" using uint_lt2p [of b] by simp
    then have "take_bit 64 (uint b) = uint b"
      by (intro take_bit_int_eq_self) simp_all
    then show ?thesis by (simp add: uint_xor unsigned_ucast_eq)
  qed
  then show ?thesis
    by (simp add: fnv1a_step64_def and_mask64 uint_word_ariths)
qed

lemma fnv1a_loop_uint:
  "fnv1a_loop (uint (h :: 64 word)) bs = uint (fold (\<lambda>b h. fnv1a_step64 h b) bs h)"
proof (induction bs arbitrary: h)
  case (Cons b bs)
  have "fnv1a_loop (uint h) (b # bs) = fnv1a_loop (uint (fnv1a_step64 h b)) bs"
    by (simp add: Let_def fnv1a_step_uint)
  with Cons.IH show ?case by simp
qed simp

lemma fnv1a_hash_uint: "fnv1a_hash key = uint (fnv1a_64 (encode key))"
  using fnv1a_loop_uint [of "0xCBF29CE484222325" "encode key"]
  by (simp add: fnv1a_hash_def fnv1a_64_def)

section \<open>The choice of a partition\<close>

lemma round_robin_run:
  assumes "mr_partitions r \<noteq> 0"
  shows "round_robin r =
    (Inr ((mr_last r + 1) mod mr_partitions r),
     r\<lparr>mr_last := (mr_last r + 1) mod mr_partitions r\<rparr>)"
  using assms by (simp add: round_robin_def run_simps py_mod_def)

text \<open>\<open>k\<close> calls one after the other.\<close>

definition round_robins :: "nat \<Rightarrow> (MessageRouter, int list) py" where
  "round_robins k = for_each (\<lambda>_. round_robin) [0..<k]"

lemma for_each_round_robin:
  assumes "mr_partitions r = n" and "0 < n"
  shows "for_each (\<lambda>_. round_robin) xs r =
    (Inr (map (\<lambda>i. (mr_last r + 1 + int i) mod n) [0..<length xs]),
     r\<lparr>mr_last := (if xs = [] then mr_last r else (mr_last r + int (length xs)) mod n)\<rparr>)"
  using assms(1)
proof (induction xs arbitrary: r)
  case (Cons x xs)
  define r1 where "r1 = r\<lparr>mr_last := (mr_last r + 1) mod n\<rparr>"
  from Cons.prems assms(2) have first: "round_robin r = (Inr ((mr_last r + 1) mod n), r1)"
    by (simp add: round_robin_run r1_def)
  have IH: "for_each (\<lambda>_. round_robin) xs r1 =
    (Inr (map (\<lambda>i. (mr_last r1 + 1 + int i) mod n) [0..<length xs]),
     r1\<lparr>mr_last := (if xs = [] then mr_last r1 else (mr_last r1 + int (length xs)) mod n)\<rparr>)"
    by (rule Cons.IH) (simp add: r1_def Cons.prems)
  have shift: "map (\<lambda>i. (mr_last r + 1 + int i) mod n) [0..<Suc k]
    = (mr_last r + 1) mod n # map (\<lambda>i. (mr_last r1 + 1 + int i) mod n) [0..<k]" for k
  proof -
    have "(mr_last r + 1 + int (Suc i)) mod n = (mr_last r1 + 1 + int i) mod n" for i
    proof -
      have last: "mr_last r1 = (mr_last r + 1) mod n" by (simp add: r1_def)
      have "(mr_last r1 + (1 + int i)) mod n = (mr_last r + 1 + (1 + int i)) mod n"
        by (simp only: last mod_add_left_eq)
      then show ?thesis by (simp add: algebra_simps)
    qed
    then show ?thesis
      by (simp add: upt_conv_Cons map_Suc_upt [symmetric] del: upt_Suc)
  qed
  show ?case
    by (auto simp: run_simps first IH shift simp del: upt_Suc)
       (auto simp: r1_def mod_simps algebra_simps)
qed (simp add: run_simps)

lemma mod_window_inj:
  assumes "0 < n" and "i < nat n" and "j < nat n"
    and "(a + int i) mod n = (a + int j) mod n"
  shows "i = j"
proof -
  from assms(4) have "n dvd (a + int i) - (a + int j)"
    by (simp add: mod_eq_dvd_iff)
  then have "n dvd int i - int j" by simp
  moreover have "\<bar>int i - int j\<bar> < n" using assms(1-3) by linarith
  ultimately have "int i - int j = 0"
    using dvd_imp_le_int [of "int i - int j" n] assms(1) by fastforce
  then show ?thesis by simp
qed

text \<open>
  The contract a producer relies on: a selector of partitions returns an index in range and
  keeps the number of partitions. Both ways to route provide it.
\<close>

locale selector =
  fixes pick :: "'k \<Rightarrow> 'r \<Rightarrow> (exn + int) \<times> 'r"
    and parts :: "'r \<Rightarrow> int"
  assumes in_range: "0 < parts r \<Longrightarrow> \<exists>p. fst (pick k r) = Inr p \<and> 0 \<le> p \<and> p < parts r"
    and parts_kept: "parts (snd (pick k r)) = parts r"
begin

lemma pick_cases:
  assumes "0 < parts r"
  obtains p r' where "pick k r = (Inr p, r')" and "0 \<le> p" and "p < parts r" and "parts r' = parts r"
  using in_range [OF assms, of k] parts_kept [of k r] by (cases "pick k r") auto

lemma picks_in_range:
  assumes "0 < parts r"
  shows "\<exists>ps r'. for_each pick ks r = (Inr ps, r') \<and> length ps = length ks
    \<and> (\<forall>p \<in> set ps. 0 \<le> p \<and> p < parts r) \<and> parts r' = parts r"
  using assms
proof (induction ks arbitrary: r)
  case (Cons k ks)
  obtain p r1 where p: "pick k r = (Inr p, r1)" "0 \<le> p" "p < parts r" "parts r1 = parts r"
    using Cons.prems by (rule pick_cases)
  from p(4) Cons.prems have "0 < parts r1" by simp
  from Cons.IH [OF this] p show ?case by (force simp: run_simps)
qed (simp add: run_simps)

end

interpretation rr: selector "\<lambda>_. round_robin" mr_partitions
  by unfold_locales (auto simp: round_robin_def run_simps py_mod_def)

interpretation kr: selector "\<lambda>key r. (key_route r key, r)" mr_partitions
  by unfold_locales (auto simp: key_route_def py_mod_def Let_def)

section \<open>Properties\<close>

text \<open>C23: The Python hash, computed on unbounded integers with a mask, is the 64-bit FNV-1a hash of
  the key's bytes: exclusive-or with each byte and multiplication by the FNV prime modulo
  \<open>2 ^ 64\<close>, from the FNV offset basis. In particular it fits 64 bits.\<close>

theorem fnv1a_hash_is_fnv1a_64:
  "fnv1a_hash key = uint (fnv1a_64 (encode key)) \<and> 0 \<le> fnv1a_hash key \<and> fnv1a_hash key < 2 ^ 64"
  using uint_lt2p [of "fnv1a_64 (encode key)"] by (simp add: fnv1a_hash_uint)

text \<open>Round robin is exact. From a new router with \<open>n > 0\<close> partitions the \<open>i\<close>-th call returns
  \<open>i mod n\<close>; no call raises.\<close>

theorem round_robin_sequence:
  assumes "0 < n"
  shows "fst (round_robins k (new_MessageRouter n)) = Inr (map (\<lambda>i. int i mod n) [0..<k])"
  using assms for_each_round_robin [of "new_MessageRouter n" n "[0..<k]"]
  by (simp add: round_robins_def new_MessageRouter_def)

theorem round_robin_sequence_witness:
  "fst (round_robins 7 (new_MessageRouter 3)) = Inr [0, 1, 2, 0, 1, 2, 0]"
proof -
  have "map (\<lambda>i. int i mod 3) [0..<7] = [0, 1, 2, 0, 1, 2, 0 :: int]" by (simp add: upt_rec)
  with round_robin_sequence [of 3 7] show ?thesis by simp
qed

text \<open>Round robin is fair from every state: any \<open>n\<close> consecutive calls use each of the \<open>n\<close>
  partitions exactly once.\<close>

theorem round_robin_fair:
  assumes "mr_partitions r = n" and "0 < n"
  shows "\<exists>ps. fst (round_robins (nat n) r) = Inr ps \<and> distinct ps \<and> set ps = {0..<n}"
proof -
  define ps where "ps = map (\<lambda>i. (mr_last r + 1 + int i) mod n) [0..<nat n]"
  have run: "fst (round_robins (nat n) r) = Inr ps"
    using for_each_round_robin [OF assms, of "[0..<nat n]"] by (simp add: round_robins_def ps_def)
  have dist: "distinct ps"
    unfolding ps_def distinct_map using mod_window_inj [OF assms(2)]
    by (auto intro!: inj_onI)
  have sub: "set ps \<subseteq> {0..<n}" using assms(2) by (auto simp: ps_def)
  have "card (set ps) = nat n" using distinct_card [OF dist] by (simp add: ps_def)
  with sub have "set ps = {0..<n}" by (intro card_subset_eq) simp_all
  with run dist show ?thesis by blast
qed

theorem round_robin_fair_witness:
  "\<exists>ps. fst (round_robins 4 \<lparr>mr_partitions = 4, mr_last = 2\<rparr>) = Inr ps
     \<and> distinct ps \<and> set ps = {0..<4}"
  using round_robin_fair [of "\<lparr>mr_partitions = 4, mr_last = 2\<rparr>" 4] by simp

text \<open>A routing key names one partition for good: it depends on the key and the number of
  partitions only, not on the round-robin calls made in between, and it is in range.\<close>

theorem key_route_stable:
  assumes "0 < mr_partitions r"
  shows "\<exists>p. key_route r key = Inr p \<and> 0 \<le> p \<and> p < mr_partitions r
    \<and> key_route (snd (round_robins k r)) key = Inr p"
proof -
  obtain p where p: "key_route r key = Inr p" "0 \<le> p" "p < mr_partitions r"
    using kr.in_range [OF assms, of key] by (simp only: fst_conv) blast
  have "mr_partitions (snd (round_robins k r)) = mr_partitions r"
    using rr.picks_in_range [OF assms, of "[0..<k]"] by (auto simp: round_robins_def)
  then have "key_route (snd (round_robins k r)) key = key_route r key"
    by (simp add: key_route_def)
  with p show ?thesis by simp
qed

theorem key_route_stable_witness:
  "\<exists>p. key_route (new_MessageRouter 5) ''order-123'' = Inr p \<and> 0 \<le> p \<and> p < 5
    \<and> key_route (snd (round_robins 2 (new_MessageRouter 5))) ''order-123'' = Inr p"
proof -
  have five: "mr_partitions (new_MessageRouter 5) = 5" by (simp add: new_MessageRouter_def)
  then have "0 < mr_partitions (new_MessageRouter 5)" by (simp only: five)
  from key_route_stable [OF this, of "''order-123''" 2] show ?thesis by (simp only: five)
qed

end
