(* ===== verification/Lookup.thy ===== *)
theory Lookup
  imports World
begin

text \<open>
  \<open>danube/lookup_service.py\<close>: which broker serves a topic, and which partitions a topic has.
  \<open>_request_id\<close> is the field \<open>lookup_request_id\<close> of the world: \<open>next()\<close> returns it and steps it.
\<close>

definition next_lookup_id :: "('w World, nat) py" where
  "next_lookup_id = bnd (gets lookup_request_id) (\<lambda>i.
     seq (modify (\<lambda>w. w\<lparr>lookup_request_id := Suc i\<rparr>)) (ret i))"

definition lookup_topic ::
  "'w Outside \<Rightarrow> string \<Rightarrow> string \<Rightarrow> ('w World, TopicLookupResponse) py" where
  "lookup_topic E addr topic =
     bnd (on_conn_mgr (get_connection addr addr)) (\<lambda>conn.
     bnd (attach_token_if_needed addr) (\<lambda>md.
     bnd next_lookup_id (\<lambda>i.
     rpc (answer_TopicLookup E) TopicLookup
       \<lparr>call_channel = rc_channel conn, call_metadata = md\<rparr>
       \<lparr>tlr_request_id = i, tlr_topic = topic\<rparr>)))"

definition topic_partitions ::
  "'w Outside \<Rightarrow> string \<Rightarrow> string \<Rightarrow> ('w World, string list) py" where
  "topic_partitions E addr topic =
     bnd (on_conn_mgr (get_connection addr addr)) (\<lambda>conn.
     bnd (attach_token_if_needed addr) (\<lambda>md.
     bnd next_lookup_id (\<lambda>i.
     bnd (rpc (answer_TopicPartitions E) TopicPartitions
       \<lparr>call_channel = rc_channel conn, call_metadata = md\<rparr>
       \<lparr>tlr_request_id = i, tlr_topic = topic\<rparr>) (\<lambda>response.
     ret (tps_partitions response)))))"

definition lookup_failed :: exn where
  "lookup_failed =
     LookupError ''topic lookup failed: topic may not exist or cluster is unavailable''"

definition handle_lookup ::
  "'w Outside \<Rightarrow> string \<Rightarrow> string \<Rightarrow> ('w World, BrokerAddress) py" where
  "handle_lookup E addr topic =
     bnd (lookup_topic E addr topic) (\<lambda>response.
     (let resp_type = tls_response_type response in
      if resp_type \<in> {0, 1} then
        ret \<lparr>connect_url = tls_connect_url response, broker_url = tls_broker_url response,
             proxy = tls_proxy response\<rparr>
      else if resp_type = 2 then throw lookup_failed
      else throw (LookupError ''unknown lookup type'')))"

section \<open>What a lookup does\<close>

lemma next_lookup_id_run [run_simps]:
  "next_lookup_id w = (Inr (lookup_request_id w), w\<lparr>lookup_request_id := Suc (lookup_request_id w)\<rparr>)"
  by (simp add: next_lookup_id_def run_simps)

lemma next_lookup_id_keeps [stays_rules]:
  "stays grows next_lookup_id" "stays (emits P) next_lookup_id" "stays pool_kept next_lookup_id"
  by (auto intro!: staysI simp: run_simps grows_def emits_def pool_kept_def)

text \<open>The only call a lookup makes.\<close>

definition is_lookup_call :: "string \<Rightarrow> obs \<Rightarrow> bool" where
  "is_lookup_call topic ob =
     (case ob of Rpc call (TopicLookup r) \<Rightarrow> tlr_topic r = topic | _ \<Rightarrow> False)"

lemma handle_lookup_keeps [stays_rules]:
  "stays grows (handle_lookup E a t)"
  "(\<And>ob. is_lookup_call t ob \<Longrightarrow> P ob) \<Longrightarrow> stays (emits P) (handle_lookup E a t)"
  "stays pool_kept (handle_lookup E a t)"
  unfolding handle_lookup_def lookup_topic_def Let_def
  by (auto intro!: world_methods stays_rules simp: is_lookup_call_def)

lemma topic_partitions_keeps [stays_rules]:
  "stays grows (topic_partitions E a t)" "stays pool_kept (topic_partitions E a t)"
  "(\<And>call q. P (Rpc call (TopicPartitions q))) \<Longrightarrow> stays (emits P) (topic_partitions E a t)"
  unfolding topic_partitions_def by (auto intro!: world_methods stays_rules)

lemma next_lookup_id_calm [stays_rules]:
  "stays calm next_lookup_id" "stays (same events) next_lookup_id"
  by (auto intro!: staysI simp: run_simps calm_def same_def)

lemma handle_lookup_calm [stays_rules]:
  "stays calm (handle_lookup E a t)" "stays (same events) (handle_lookup E a t)"
  unfolding handle_lookup_def lookup_topic_def Let_def
  by (auto intro!: calm.steps same.steps stays_rules)

lemma handle_lookup_result:
  "handle_lookup E addr topic w =
     (case lookup_topic E addr topic w of
        (Inl e, w') \<Rightarrow> (Inl e, w')
      | (Inr r, w') \<Rightarrow>
          (if tls_response_type r = 0 \<or> tls_response_type r = 1
           then Inr \<lparr>connect_url = tls_connect_url r, broker_url = tls_broker_url r, proxy = tls_proxy r\<rparr>
           else if tls_response_type r = 2 then Inl lookup_failed
           else Inl (LookupError ''unknown lookup type''), w'))"
  by (simp add: handle_lookup_def run_simps Let_def split: prod.split sum.split)

end
