(* ===== verification/HealthCheck.thy ===== *)
theory HealthCheck
  imports World
begin

text \<open>
  \<open>danube/health_check.py\<close>: the background task that asks the broker whether it still serves a
  producer or consumer, and sets the stop event when the broker closes the topic.

  \<open>start_health_check\<close> opens the connection and creates the task. The coroutine \<open>_loop\<close> is a state
  machine with the positions \<open>AtTop\<close> (about to test the event), \<open>Sleeping\<close> and \<open>Ended\<close>; a task that
  was cancelled takes the \<open>CancelledError\<close> at its next await. Other tasks run between the steps.
\<close>

definition HEALTH_CHECK_INTERVAL_SECS :: rat where
  "HEALTH_CHECK_INTERVAL_SECS = 5"

definition next_health_id :: "('w World, nat) py" where
  "next_health_id = bnd (gets health_request_id) (\<lambda>i.
     seq (modify (\<lambda>w. w\<lparr>health_request_id := Suc i\<rparr>)) (ret i))"

definition start_health_check ::
  "string \<Rightarrow> string \<Rightarrow> bool \<Rightarrow> ClientType \<Rightarrow> 64 word \<Rightarrow> nat \<Rightarrow> ('w World, nat) py" where
  "start_health_check connect broker is_proxy client_type client_id stop_event =
     bnd (on_conn_mgr (get_connection broker connect)) (\<lambda>conn.
     create_task
       \<lparr>ht_channel = rc_channel conn, ht_connect_url = connect, ht_broker_addr = broker,
        ht_proxy = is_proxy, ht_client_type = client_type, ht_client_id = client_id,
        ht_stop_event = stop_event, ht_pc = AtTop, ht_cancelled = False\<rparr>)"

text \<open>The \<open>try\<close> block of one round, up to the reply.\<close>

definition health_call :: "'w Outside \<Rightarrow> HealthTask \<Rightarrow> ('w World, HealthCheckResponse) py" where
  "health_call E t =
     bnd next_health_id (\<lambda>i.
     bnd (call_headers (ht_connect_url t) (ht_broker_addr t) (ht_proxy t)) (\<lambda>md.
     rpc (answer_HealthCheck E) HealthCheck
       \<lparr>call_channel = ht_channel t, call_metadata = md\<rparr>
       \<lparr>hr_request_id = i, hr_client = ht_client_type t, hr_id = ht_client_id t\<rparr>))"

text \<open>One round of the loop, from its test to its sleep or its end.\<close>

definition health_round :: "'w Outside \<Rightarrow> HealthTask \<Rightarrow> ('w World, task_pc) py" where
  "health_round E t =
     bnd (gets (is_set (ht_stop_event t))) (\<lambda>stopped.
     if stopped then ret Ended
     else handle
       (bnd (health_call E t) (\<lambda>response.
          if hrs_status response = 1
          then seq (set_event (ht_stop_event t)) (ret Ended)
          else ret Sleeping))
       (\<lambda>exc. ret Ended))"

definition set_pc :: "nat \<Rightarrow> task_pc \<Rightarrow> 'w World \<Rightarrow> 'w World" where
  "set_pc i pc w = w\<lparr>tasks := (tasks w)[i := (tasks w ! i)\<lparr>ht_pc := pc\<rparr>]\<rparr>"

definition run_round :: "'w Outside \<Rightarrow> nat \<Rightarrow> 'w World \<Rightarrow> 'w World" where
  "run_round E i w =
     (case health_round E (tasks w ! i) w of
        (Inr pc, w') \<Rightarrow> set_pc i pc w'
      | (Inl e, w') \<Rightarrow> set_pc i Ended w')"

text \<open>What the rest of the process may do between two steps of task \<open>i\<close>: anything that only
  extends the shared objects, and of the task itself nothing but cancel it.\<close>

definition others :: "nat \<Rightarrow> 'w World \<Rightarrow> 'w World \<Rightarrow> bool" where
  "others i v w \<longleftrightarrow> grows v w \<and> i < length (tasks v) \<and>
     (tasks w ! i = tasks v ! i \<or> tasks w ! i = (tasks v ! i)\<lparr>ht_cancelled := True\<rparr>)"

text \<open>The steps of the task itself: a round, a round whose call is cancelled while it waits for the
  reply, waking up, and taking a cancellation at its start or in its sleep.\<close>

inductive health_own :: "'w Outside \<Rightarrow> nat \<Rightarrow> 'w World \<Rightarrow> 'w World \<Rightarrow> bool"
  for E :: "'w Outside" and i :: nat where
  round:
    "i < length (tasks w) \<Longrightarrow> ht_pc (tasks w ! i) = AtTop \<Longrightarrow> \<not> ht_cancelled (tasks w ! i) \<Longrightarrow>
     health_own E i w (run_round E i w)"
| cancelled_in_call:
    "i < length (tasks w) \<Longrightarrow> ht_pc (tasks w ! i) = AtTop \<Longrightarrow> \<not> ht_cancelled (tasks w ! i) \<Longrightarrow>
     \<not> is_set (ht_stop_event (tasks w ! i)) w \<Longrightarrow>
     health_own E i w (set_pc i Ended (snd (health_call E (tasks w ! i) w)))"
| wake:
    "i < length (tasks w) \<Longrightarrow> ht_pc (tasks w ! i) = Sleeping \<Longrightarrow> \<not> ht_cancelled (tasks w ! i) \<Longrightarrow>
     health_own E i w (set_pc i AtTop (snd (asleep HEALTH_CHECK_INTERVAL_SECS w)))"
| cancelled:
    "i < length (tasks w) \<Longrightarrow> ht_pc (tasks w ! i) \<noteq> Ended \<Longrightarrow> ht_cancelled (tasks w ! i) \<Longrightarrow>
     health_own E i w (set_pc i Ended w)"

inductive_cases health_ownE: "health_own E i w w'"

inductive_simps health_own_iff: "health_own E i w w'"

text \<open>The task in its process.\<close>

inductive health_step :: "'w Outside \<Rightarrow> nat \<Rightarrow> 'w World \<Rightarrow> 'w World \<Rightarrow> bool"
  for E :: "'w Outside" and i :: nat where
  own: "health_own E i w w' \<Longrightarrow> health_step E i w w'"
| interference: "others i v w \<Longrightarrow> health_step E i v w"

section \<open>Single rounds\<close>

lemma next_health_id_run [run_simps]:
  "next_health_id w = (Inr (health_request_id w), w\<lparr>health_request_id := Suc (health_request_id w)\<rparr>)"
  by (simp add: next_health_id_def run_simps)

lemma next_health_id_keeps [stays_rules]:
  "stays grows next_health_id" "stays (emits P) next_health_id" "stays pool_kept next_health_id"
  by (auto intro!: staysI simp: run_simps grows_def emits_def pool_kept_def)

lemma start_health_check_keeps [stays_rules]:
  "stays grows (start_health_check c b p ty cid ev)"
  "stays (emits P) (start_health_check c b p ty cid ev)"
  "stays pool_kept (start_health_check c b p ty cid ev)"
  unfolding start_health_check_def by (auto intro!: world_methods stays_rules)

text \<open>A health check call of the task \<open>t\<close>: its channel, its client and its proxy header.\<close>

definition checks_for :: "HealthTask \<Rightarrow> obs \<Rightarrow> bool" where
  "checks_for t ob =
     (case ob of Rpc call (HealthCheck r) \<Rightarrow>
        call_channel call = ht_channel t \<and> hr_client r = ht_client_type t \<and> hr_id r = ht_client_id t
      | _ \<Rightarrow> False)"

lemma health_call_keeps [stays_rules]:
  "stays grows (health_call E t)"
  "(\<And>ob. checks_for t ob \<Longrightarrow> P ob) \<Longrightarrow> stays (emits P) (health_call E t)"
  unfolding health_call_def
  by (auto intro!: world_methods stays_rules simp: checks_for_def)

lemma health_round_keeps [stays_rules]:
  "stays grows (health_round E t)"
  "(\<And>ob. checks_for t ob \<Longrightarrow> P ob) \<Longrightarrow> stays (emits P) (health_round E t)"
  unfolding health_round_def by (auto intro!: world_methods stays_rules)

section \<open>The life of a task\<close>

lemma set_pc_task [simp]:
  "i < length (tasks w) \<Longrightarrow> tasks (set_pc i pc w) ! i = (tasks w ! i)\<lparr>ht_pc := pc\<rparr>"
  "length (tasks (set_pc i pc w)) = length (tasks w)"
  "trace (set_pc i pc w) = trace w" "events (set_pc i pc w) = events w"
  by (simp_all add: set_pc_def)

lemma set_pc_grows: "grows w (set_pc i pc w)"
  by (simp add: grows_def set_pc_def)

lemma next_health_id_calm [stays_rules]:
  "stays calm next_health_id" "stays (same events) next_health_id"
  by (auto intro!: staysI simp: run_simps calm_def same_def)

lemma start_health_check_events [stays_rules]:
  "stays (same events) (start_health_check c b p ty cid ev)"
  unfolding start_health_check_def by (auto intro!: same.steps stays_rules)

lemma health_call_calm [stays_rules]: "stays calm (health_call E t)"
  unfolding health_call_def by (auto intro!: calm.steps stays_rules)

lemma health_call_frame:
  "tasks (snd (health_call E t w)) = tasks w" "events (snd (health_call E t w)) = events w"
  using stays_snd [OF health_call_calm, of w E t] by (simp_all add: calm_def)

text \<open>A round, case by case.\<close>

lemma run_round_cases:
  "run_round E i w =
     (let t = tasks w ! i in
      if is_set (ht_stop_event t) w then set_pc i Ended w
      else (case health_call E t w of
              (Inl e, w1) \<Rightarrow> set_pc i Ended w1
            | (Inr resp, w1) \<Rightarrow>
                if hrs_status resp = 1
                then set_pc i Ended (w1\<lparr>events := (events w1)[ht_stop_event t := True]\<rparr>)
                else set_pc i Sleeping w1))"
  by (simp add: run_round_def health_round_def run_simps Let_def split: prod.split sum.split)

lemma run_round_task:
  assumes "i < length (tasks w)"
  shows "\<exists>pc. tasks (run_round E i w) ! i = (tasks w ! i)\<lparr>ht_pc := pc\<rparr>"
    and "length (tasks (run_round E i w)) = length (tasks w)"
proof -
  obtain r w1 where c: "health_call E (tasks w ! i) w = (r, w1)" by (meson surj_pair)
  then have "tasks w1 = tasks w" using health_call_frame(1) [of E "tasks w ! i" w] by simp
  with assms c show "\<exists>pc. tasks (run_round E i w) ! i = (tasks w ! i)\<lparr>ht_pc := pc\<rparr>"
    and "length (tasks (run_round E i w)) = length (tasks w)"
    by (auto simp: run_round_cases Let_def set_pc_def split: sum.split)
qed

lemma health_own_task:
  assumes "health_own E i w w'"
  shows "\<exists>pc. tasks w' ! i = (tasks w ! i)\<lparr>ht_pc := pc\<rparr>" and "i < length (tasks w)"
    and "length (tasks w') = length (tasks w)" and "ht_pc (tasks w ! i) \<noteq> Ended"
  using assms run_round_task [of i w E]
  by (auto elim!: health_ownE simp: health_call_frame asleep_run set_pc_def)

lemma health_own_grows: "health_own E i w w' \<Longrightarrow> grows w w'"
proof (erule health_ownE)
  have round: "grows w (run_round E i w)"
  proof -
    obtain r w1 where c: "health_round E (tasks w ! i) w = (r, w1)" by (meson surj_pair)
    from staysD [OF health_round_keeps(1) c] show ?thesis
      using c by (auto simp: run_round_def intro: grows.trans set_pc_grows split: sum.split)
  qed
  then show "w' = run_round E i w \<Longrightarrow> grows w w'" by simp
  have "grows w (snd (health_call E (tasks w ! i) w))"
    by (rule stays_snd) (rule health_call_keeps)
  then show "w' = set_pc i Ended (snd (health_call E (tasks w ! i) w)) \<Longrightarrow> grows w w'"
    using grows.trans set_pc_grows by blast
  have "grows w (snd (asleep HEALTH_CHECK_INTERVAL_SECS w))"
    by (rule stays_snd) (rule asleep_keeps)
  then show "w' = set_pc i AtTop (snd (asleep HEALTH_CHECK_INTERVAL_SECS w)) \<Longrightarrow> grows w w'"
    using grows.trans set_pc_grows by blast
qed (simp add: set_pc_grows)

text \<open>Over any run of the process: the task stays in the store with what it captured, its end is
  final and a cancellation is never lost.\<close>

lemma health_step_task:
  assumes "health_step E i v w" and "i < length (tasks v)"
  shows "i < length (tasks w)" and "frozen (tasks w ! i) = frozen (tasks v ! i)"
    and "ht_pc (tasks v ! i) = Ended \<Longrightarrow> ht_pc (tasks w ! i) = Ended"
    and "ht_cancelled (tasks v ! i) \<Longrightarrow> ht_cancelled (tasks w ! i)"
  using assms
  by (auto elim!: health_step.cases simp: others_def dest: health_own_task grows_tasks(1))
     (auto dest!: health_own_task(1) grows_tasks(1) simp: frozen_def)

lemma health_run_task:
  assumes "(health_step E i)\<^sup>*\<^sup>* v w" and "i < length (tasks v)"
  shows "i < length (tasks w) \<and> frozen (tasks w ! i) = frozen (tasks v ! i)
    \<and> (ht_pc (tasks v ! i) = Ended \<longrightarrow> ht_pc (tasks w ! i) = Ended)
    \<and> (ht_cancelled (tasks v ! i) \<longrightarrow> ht_cancelled (tasks w ! i))"
  using assms by (induction rule: rtranclp_induct) (auto dest: health_step_task)

end
