(* ===== verification/SchemaRegistry.thy ===== *)
theory SchemaRegistry
  imports World
begin

text \<open>
  \<open>danube/schema_registry_client.py\<close>: the operations of the schema registry, each one call on the
  connection to the client's own address with the token's metadata, and the registration builder.
  The three fields of \<open>SchemaRegistryClient\<close> are the shared objects of the world.
\<close>

definition prepare :: "string \<Rightarrow> ('w World, Call) py" where
  "prepare addr =
     bnd (on_conn_mgr (get_connection addr addr)) (\<lambda>conn.
     bnd (attach_token_if_needed addr) (\<lambda>md.
     ret \<lparr>call_channel = rc_channel conn, call_metadata = md\<rparr>))"

definition schema_info_from_proto :: "GetSchemaResponse \<Rightarrow> SchemaInfo" where
  "schema_info_from_proto resp =
     \<lparr>si_schema_id = gsr_schema_id resp, si_subject = gsr_subject resp,
      si_version = gsr_version resp, si_schema_type = gsr_schema_type resp,
      si_schema_definition = gsr_schema_definition resp, si_fingerprint = gsr_fingerprint resp\<rparr>"

definition get_schema_version ::
  "'w Outside \<Rightarrow> int \<Rightarrow> int option \<Rightarrow> ('w World, SchemaInfo) py" where
  "get_schema_version E schema_id version =
     bnd (gets uri) (\<lambda>u.
     bnd (prepare u) (\<lambda>call.
     bnd (of_result (u64_field schema_id)) (\<lambda>sid.
     bnd (of_result (opt_field u32_field version)) (\<lambda>ver.
     bnd (rpc (answer_GetSchema E) GetSchema call \<lparr>gs_schema_id = sid, gs_version = ver\<rparr>) (\<lambda>resp.
     ret (schema_info_from_proto resp))))))"

definition get_schema_by_id :: "'w Outside \<Rightarrow> int \<Rightarrow> ('w World, SchemaInfo) py" where
  "get_schema_by_id E schema_id = get_schema_version E schema_id None"

definition get_latest_schema :: "'w Outside \<Rightarrow> string \<Rightarrow> ('w World, SchemaInfo) py" where
  "get_latest_schema E subject =
     bnd (gets uri) (\<lambda>u.
     bnd (prepare u) (\<lambda>call.
     bnd (rpc (answer_GetLatestSchema E) GetLatestSchema call \<lparr>gl_subject = subject\<rparr>) (\<lambda>resp.
     ret (schema_info_from_proto resp))))"

definition list_versions :: "'w Outside \<Rightarrow> string \<Rightarrow> ('w World, 32 word list) py" where
  "list_versions E subject =
     bnd (gets uri) (\<lambda>u.
     bnd (prepare u) (\<lambda>call.
     bnd (rpc (answer_ListVersions E) ListVersions call \<lparr>lv_subject = subject\<rparr>) (\<lambda>resp.
     ret (map sv_version (lvr_versions resp)))))"

definition check_compatibility ::
  "'w Outside \<Rightarrow> string \<Rightarrow> bytes \<Rightarrow> SchemaType \<Rightarrow> CompatibilityMode option
     \<Rightarrow> ('w World, bool \<times> string list) py" where
  "check_compatibility E subject schema_data schema_type mode =
     bnd (gets uri) (\<lambda>u.
     bnd (prepare u) (\<lambda>call.
     bnd (rpc (answer_CheckCompatibility E) CheckCompatibility call
       \<lparr>cc_subject = subject, cc_new_schema_definition = schema_data,
        cc_schema_type = schema_as_string schema_type,
        cc_compatibility_mode = map_option compat_as_string mode\<rparr>) (\<lambda>resp.
     ret (ccr_is_compatible resp, ccr_errors resp))))"

definition set_compatibility_mode ::
  "'w Outside \<Rightarrow> string \<Rightarrow> CompatibilityMode \<Rightarrow> ('w World, bool \<times> string) py" where
  "set_compatibility_mode E subject mode =
     bnd (gets uri) (\<lambda>u.
     bnd (prepare u) (\<lambda>call.
     bnd (rpc (answer_SetCompatibilityMode E) SetCompatibilityMode call
       \<lparr>sc_subject = subject, sc_compatibility_mode = compat_as_string mode\<rparr>) (\<lambda>resp.
     ret (scr_success resp, scr_message resp))))"

definition delete_schema_version ::
  "'w Outside \<Rightarrow> string \<Rightarrow> int \<Rightarrow> ('w World, bool \<times> string) py" where
  "delete_schema_version E subject version =
     bnd (gets uri) (\<lambda>u.
     bnd (prepare u) (\<lambda>call.
     bnd (of_result (u32_field version)) (\<lambda>ver.
     bnd (rpc (answer_DeleteSchemaVersion E) DeleteSchemaVersion call
       \<lparr>ds_subject = subject, ds_version = ver\<rparr>) (\<lambda>resp.
     ret (dsr_success resp, dsr_message resp)))))"

definition configure_topic_schema ::
  "'w Outside \<Rightarrow> string \<Rightarrow> string \<Rightarrow> string \<Rightarrow> bool \<Rightarrow> ('w World, bool \<times> string) py" where
  "configure_topic_schema E topic subject policy enable =
     bnd (gets uri) (\<lambda>u.
     bnd (prepare u) (\<lambda>call.
     bnd (rpc (answer_ConfigureTopicSchema E) ConfigureTopicSchema call
       \<lparr>ct_topic_name = topic, ct_schema_subject = subject, ct_validation_policy = policy,
        ct_enable_payload_validation = enable\<rparr>) (\<lambda>resp.
     ret (ctr_success resp, ctr_message resp))))"

definition update_topic_validation_policy ::
  "'w Outside \<Rightarrow> string \<Rightarrow> string \<Rightarrow> bool \<Rightarrow> ('w World, bool \<times> string) py" where
  "update_topic_validation_policy E topic policy enable =
     bnd (gets uri) (\<lambda>u.
     bnd (prepare u) (\<lambda>call.
     bnd (rpc (answer_UpdateTopicValidationPolicy E) UpdateTopicValidationPolicy call
       \<lparr>ut_topic_name = topic, ut_validation_policy = policy,
        ut_enable_payload_validation = enable\<rparr>) (\<lambda>resp.
     ret (utr_success resp, utr_message resp))))"

definition get_topic_schema_config ::
  "'w Outside \<Rightarrow> string \<Rightarrow> ('w World, GetTopicSchemaConfigResponse) py" where
  "get_topic_schema_config E topic =
     bnd (gets uri) (\<lambda>u.
     bnd (prepare u) (\<lambda>call.
     rpc (answer_GetTopicSchemaConfig E) GetTopicSchemaConfig call \<lparr>gt_topic_name = topic\<rparr>))"

section \<open>Registration\<close>

record SchemaRegistrationBuilder =
  sb_subject :: string
  sb_schema_type :: "SchemaType option"
  sb_schema_data :: bytes
  sb_description :: string
  sb_created_by :: string
  sb_tags :: "string list"

definition register_schema :: "string \<Rightarrow> SchemaRegistrationBuilder" where
  "register_schema subject =
     \<lparr>sb_subject = subject, sb_schema_type = None, sb_schema_data = [], sb_description = '''',
      sb_created_by = '''', sb_tags = []\<rparr>"

definition sb_with_type :: "SchemaType \<Rightarrow> SchemaRegistrationBuilder \<Rightarrow> SchemaRegistrationBuilder" where
  "sb_with_type t b = b\<lparr>sb_schema_type := Some t\<rparr>"

definition sb_with_schema_data :: "bytes \<Rightarrow> SchemaRegistrationBuilder \<Rightarrow> SchemaRegistrationBuilder" where
  "sb_with_schema_data d b = b\<lparr>sb_schema_data := d\<rparr>"

definition sb_with_description :: "string \<Rightarrow> SchemaRegistrationBuilder \<Rightarrow> SchemaRegistrationBuilder" where
  "sb_with_description d b = b\<lparr>sb_description := d\<rparr>"

definition sb_with_created_by :: "string \<Rightarrow> SchemaRegistrationBuilder \<Rightarrow> SchemaRegistrationBuilder" where
  "sb_with_created_by c b = b\<lparr>sb_created_by := c\<rparr>"

definition sb_with_tags :: "string list \<Rightarrow> SchemaRegistrationBuilder \<Rightarrow> SchemaRegistrationBuilder" where
  "sb_with_tags ts b = b\<lparr>sb_tags := ts\<rparr>"

definition sb_execute :: "'w Outside \<Rightarrow> SchemaRegistrationBuilder \<Rightarrow> ('w World, 64 word) py" where
  "sb_execute E b =
     (case sb_schema_type b of
        None \<Rightarrow> throw (ValueError ''schema type is required'')
      | Some ty \<Rightarrow>
          if sb_schema_data b = [] then throw (ValueError ''schema data is required'')
          else (let created_by = (if sb_created_by b \<noteq> '''' then sb_created_by b else ''danube-py'') in
            bnd (gets uri) (\<lambda>u.
            bnd (prepare u) (\<lambda>call.
            bnd (rpc (answer_RegisterSchema E) RegisterSchema call
              \<lparr>rs_subject = sb_subject b, rs_schema_type = schema_as_string ty,
               rs_schema_definition = sb_schema_data b, rs_description = sb_description b,
               rs_created_by = created_by, rs_tags = sb_tags b\<rparr>) (\<lambda>resp.
            ret (rsr_schema_id resp))))))"

section \<open>Every operation is one call on the client's own connection\<close>

text \<open>Not a call of the producer, consumer, lookup or health check service.\<close>

fun is_registry_request :: "request \<Rightarrow> bool" where
  "is_registry_request (RegisterSchema _) = True"
| "is_registry_request (GetSchema _) = True"
| "is_registry_request (GetLatestSchema _) = True"
| "is_registry_request (ListVersions _) = True"
| "is_registry_request (CheckCompatibility _) = True"
| "is_registry_request (DeleteSchemaVersion _) = True"
| "is_registry_request (SetCompatibilityMode _) = True"
| "is_registry_request (ConfigureTopicSchema _) = True"
| "is_registry_request (UpdateTopicValidationPolicy _) = True"
| "is_registry_request (GetTopicSchemaConfig _) = True"
| "is_registry_request _ = False"

definition is_registry_call :: "obs \<Rightarrow> bool" where
  "is_registry_call ob = (case ob of Rpc call r \<Rightarrow> is_registry_request r | Sleep _ \<Rightarrow> False)"

lemma is_registry_call_Rpc [simp]: "is_registry_call (Rpc c r) = is_registry_request r"
  by (simp add: is_registry_call_def)

lemma prepare_keeps [stays_rules]:
  "stays grows (prepare a)" "stays (emits P) (prepare a)" "stays pool_kept (prepare a)"
  unfolding prepare_def by (auto intro!: world_methods stays_rules)

lemma registry_calm [stays_rules]:
  "stays calm (prepare a)" "stays calm (get_latest_schema E s)" "stays calm (get_schema_version E i v)"
  unfolding prepare_def get_latest_schema_def get_schema_version_def
  by (auto intro!: calm.steps stays_rules)

lemma get_latest_schema_keeps [stays_rules]:
  "stays grows (get_latest_schema E s)"
  "(\<And>ob. is_registry_call ob \<Longrightarrow> P ob) \<Longrightarrow> stays (emits P) (get_latest_schema E s)"
  "stays pool_kept (get_latest_schema E s)"
  unfolding get_latest_schema_def by (auto intro!: world_methods stays_rules)

lemma get_schema_version_keeps [stays_rules]:
  "stays grows (get_schema_version E i v)"
  "(\<And>ob. is_registry_call ob \<Longrightarrow> P ob) \<Longrightarrow> stays (emits P) (get_schema_version E i v)"
  "stays pool_kept (get_schema_version E i v)"
  unfolding get_schema_version_def by (auto intro!: world_methods stays_rules)

lemma prepare_run:
  assumes "static_token w"
  obtains call cm' where "prepare a w = (Inr call, w\<lparr>conn_mgr := cm'\<rparr>)"
    and "cm_options cm' = cm_options (conn_mgr w)"
    and "cm_connections cm' (pool_key (a, a)) = Some \<lparr>rc_channel = call_channel call\<rparr>"
proof -
  obtain conn cm' where c: "on_conn_mgr (get_connection a a) w = (Inr conn, w\<lparr>conn_mgr := cm'\<rparr>)"
    and opts: "cm_options cm' = cm_options (conn_mgr w)"
    and look: "cm_connections cm' (pool_key (a, a)) = Some conn"
    by (rule get_connection_run)
  have "static_token (w\<lparr>conn_mgr := cm'\<rparr>)" using assms opts by (simp add: static_token_def)
  from attach_token_static [OF this] c
  obtain md where "prepare a w = (Inr \<lparr>call_channel = rc_channel conn, call_metadata = md\<rparr>, w\<lparr>conn_mgr := cm'\<rparr>)"
    by (simp only: prepare_def bnd_run ret_run prod.case sum.case)
  with opts look show ?thesis
    by (intro that [of "\<lparr>call_channel = rc_channel conn, call_metadata = md\<rparr>" cm']) simp_all
qed

end
