(* ===== verification/RetryLoop.thy ===== *)
theory RetryLoop
  imports World
begin

text \<open>
  The retry loop that \<open>TopicProducer.create\<close> and \<open>TopicConsumer.subscribe\<close> both contain: try; on a
  retryable error look the broker up again, wait, and try once more, up to the limit. The
  locale \<open>retry_loop\<close> is the contract of such a loop; its specification \<open>bounded_tries\<close> says how
  many attempts are left instead of counting up.
\<close>

fun bounded_tries ::
  "('s, 'a) py \<Rightarrow> ('s, unit) py \<Rightarrow> (int \<Rightarrow> ('s, unit) py) \<Rightarrow> nat \<Rightarrow> int \<Rightarrow> ('s, 'a) py" where
  "bounded_tries attempt refresh pause 0 n s = attempt s"
| "bounded_tries attempt refresh pause (Suc k) n s =
     (case attempt s of
        (Inr x, s1) \<Rightarrow> (Inr x, s1)
      | (Inl e, s1) \<Rightarrow>
          if is_retryable e
          then bounded_tries attempt refresh pause k (n + 1) (snd (pause n (snd (refresh s1))))
          else (Inl e, s1))"

text \<open>What an attempt, a refresh and a pause add to a measure \<open>c\<close> of the state.\<close>

definition adds :: "('s \<Rightarrow> nat) \<Rightarrow> nat \<Rightarrow> 's \<Rightarrow> 's \<Rightarrow> bool" where
  "adds c k s t \<longleftrightarrow> c s \<le> c t \<and> c t \<le> c s + k"

lemma bounded_tries_count:
  assumes "stays (adds c a) attempt" and "stays (adds c 0) refresh"
    and "\<And>n. stays (adds c p) (pause n)"
  shows "adds c (a + k * (a + p)) s (snd (bounded_tries attempt refresh pause k n s))"
proof (induction k arbitrary: n s)
  case 0
  from assms(1) show ?case by (simp add: stays_def)
next
  case (Suc k)
  obtain r s1 where r: "attempt s = (r, s1)" by fastforce
  obtain r2 s2 where s2: "refresh s1 = (r2, s2)" by fastforce
  obtain r3 s3 where s3: "pause n s2 = (r3, s3)" by fastforce
  from staysD [OF assms(1) r] staysD [OF assms(2) s2] staysD [OF assms(3) s3]
  have "adds c a s s1" and "adds c (a + p) s s3" by (simp_all add: adds_def)
  with Suc.IH [where n = "n + 1" and s = s3] show ?case
    using r s2 s3 by (auto simp: adds_def split: sum.split)
qed

text \<open>If every attempt fails with a retryable error, all attempts are made and the last error
  is the result.\<close>

lemma bounded_tries_exhaust:
  assumes fail: "\<And>s. I s \<Longrightarrow> \<exists>e s1. attempt s = (Inl e, s1) \<and> is_retryable e \<and> I s1
      \<and> c s1 = c s + a"
    and refresh: "\<And>s. I s \<Longrightarrow> I (snd (refresh s)) \<and> c (snd (refresh s)) = c s"
    and pause: "\<And>n s. 0 \<le> n \<Longrightarrow> I s \<Longrightarrow> I (snd (pause n s)) \<and> c (snd (pause n s)) = c s + p"
    and "I s" and "0 \<le> n"
  shows "\<exists>e s'. bounded_tries attempt refresh pause k n s = (Inl e, s') \<and> is_retryable e \<and> I s'
    \<and> c s' = c s + a + k * (a + p)"
  using \<open>I s\<close> \<open>0 \<le> n\<close>
proof (induction k arbitrary: n s)
  case 0
  from fail [OF 0(1)] show ?case by auto
next
  case (Suc k)
  obtain e s1 where s1: "attempt s = (Inl e, s1)" "is_retryable e" "I s1" "c s1 = c s + a"
    using fail [OF Suc.prems(1)] by blast
  let ?s3 = "snd (pause n (snd (refresh s1)))"
  have "I ?s3" and c3: "c ?s3 = c s + a + p"
    using refresh [OF s1(3)] pause [OF Suc.prems(2), of "snd (refresh s1)"] s1(4) by simp_all
  from Suc.IH [OF this(1), where n = "n + 1"] Suc.prems(2) obtain e' s' where
    "bounded_tries attempt refresh pause k (n + 1) ?s3 = (Inl e', s')"
    "is_retryable e'" "I s'" "c s' = c ?s3 + a + k * (a + p)" by auto
  with s1 c3 show ?case by simp
qed

lemma bounded_tries_stays:
  assumes "evolution R" and "stays R attempt" and "stays R refresh" and "\<And>n. stays R (pause n)"
  shows "stays R (bounded_tries attempt refresh pause k n)"
proof (rule staysI)
  fix s
  show "R s (snd (bounded_tries attempt refresh pause k n s))"
  proof (induction k arbitrary: n s)
    case 0
    from assms(2) show ?case by (simp add: stays_def)
  next
    case (Suc k)
    obtain r s1 where r: "attempt s = (r, s1)" by fastforce
    let ?s3 = "snd (pause n (snd (refresh s1)))"
    note trans = evolution.trans [OF assms(1)]
    from staysD [OF assms(2) r] have "R s s1" .
    moreover from this have "R s ?s3"
      by (blast intro: trans stays_snd [OF assms(3)] stays_snd [OF assms(4)])
    ultimately show ?case
      using Suc.IH [where n = "n + 1" and s = ?s3] r by (auto intro: trans split: sum.split)
  qed
qed

text \<open>A result that every successful attempt establishes is established by the loop.\<close>

lemma bounded_tries_success:
  assumes "\<And>s x s'. attempt s = (Inr x, s') \<Longrightarrow> Q x s'"
    and "bounded_tries attempt refresh pause k n s = (Inr x, s')"
  shows "Q x s'"
  using assms(2)
proof (induction k arbitrary: n s)
  case 0
  with assms(1) show ?case by simp
next
  case (Suc k)
  obtain r s1 where r: "attempt s = (r, s1)" by fastforce
  with Suc assms(1) show ?case by (cases r) (auto split: if_splits)
qed

text \<open>An error of the loop that is worth a retry means that every attempt was used.\<close>

lemma bounded_tries_stop:
  assumes "attempt s = (Inl e, s')" and "\<not> is_retryable e"
  shows "bounded_tries attempt refresh pause k n s = (Inl e, s')"
  using assms by (cases k) simp_all

locale retry_loop =
  fixes attempt :: "('s, 'a) py"
    and refresh :: "('s, unit) py"
    and pause :: "RetryManager \<Rightarrow> int \<Rightarrow> ('s, unit) py"
    and loop :: "RetryManager \<Rightarrow> int \<Rightarrow> ('s, 'a) py"
  assumes loop_eq: "loop rm n =
      handle attempt (\<lambda>e.
        if \<not> is_retryable e then throw e
        else if n + 1 > max_retries rm then throw e
        else seq refresh (seq (pause rm n) (loop rm (n + 1))))"
    and refresh_ok: "\<exists>s'. refresh s = (Inr (), s')"
    and pause_ok: "rm_ok rm \<Longrightarrow> 0 \<le> n \<Longrightarrow> \<exists>s'. pause rm n s = (Inr (), s')"
begin

text \<open>The loop is its specification.\<close>

lemma loop_tries:
  assumes "rm_ok rm" and "0 \<le> n" and "n \<le> max_retries rm"
  shows "loop rm n s = bounded_tries attempt refresh (pause rm) (nat (max_retries rm - n)) n s"
  using assms(2,3)
proof (induction "nat (max_retries rm - n)" arbitrary: n s)
  case 0
  then have last: "n + 1 > max_retries rm" and zero: "nat (max_retries rm - n) = 0" by simp_all
  then show ?case
    by (subst loop_eq) (auto simp: run_simps split: prod.split sum.split)
next
  case (Suc k)
  from Suc.hyps(2) Suc.prems have more: "\<not> n + 1 > max_retries rm" and "0 \<le> n + 1"
    and "n + 1 \<le> max_retries rm" and k: "k = nat (max_retries rm - (n + 1))"
    by linarith+
  then have IH: "loop rm (n + 1) s =
      bounded_tries attempt refresh (pause rm) k (n + 1) s" for s
    using Suc.hyps(1) by simp
  obtain r s1 where r: "attempt s = (r, s1)" by fastforce
  obtain s2 where s2: "refresh s1 = (Inr (), s2)" using refresh_ok by blast
  obtain s3 where s3: "pause rm n s2 = (Inr (), s3)"
    using pause_ok [OF assms(1) Suc.prems(1)] by blast
  show ?case
    by (subst loop_eq, subst Suc.hyps(2) [symmetric])
       (use r s2 s3 more IH in \<open>auto simp: run_simps split: sum.split\<close>)
qed

lemma loop_stays:
  assumes "evolution R" "stays R attempt" "stays R refresh" "\<And>n. stays R (pause rm n)"
    and "rm_ok rm" "0 \<le> n" "n \<le> max_retries rm"
  shows "stays R (loop rm n)"
  using bounded_tries_stays [OF assms(1-4), where k = "nat (max_retries rm - n)" and n = n]
  by (simp add: stays_def loop_tries [OF assms(5-7)])

lemma loop_count:
  assumes "stays (adds c a) attempt" "stays (adds c 0) refresh" "\<And>n. stays (adds c p) (pause rm n)"
    and "rm_ok rm" "0 \<le> n" "n \<le> max_retries rm"
  shows "adds c (a + nat (max_retries rm - n) * (a + p)) s (snd (loop rm n s))"
  using bounded_tries_count [OF assms(1-3), where k = "nat (max_retries rm - n)" and s = s and n = n]
  by (simp add: loop_tries [OF assms(4-6)])

end

section \<open>Look the broker up, then try\<close>

text \<open>
  \<open>create\<close> and \<open>subscribe\<close> start with a lookup and take the limits from the object's own retry
  manager, which no lookup changes.
\<close>

locale connecting = retry_loop +
  fixes rm_of :: "'a \<Rightarrow> RetryManager"
    and start :: "('a, 'b) py"
  assumes start_eq: "start = seq refresh (bnd (gets rm_of) (\<lambda>rm. loop rm 0))"
    and refresh_rm: "rm_of (snd (refresh s)) = rm_of s"
begin

lemma start_loop: "start s = loop (rm_of s) 0 (snd (refresh s))"
proof -
  obtain s' where "refresh s = (Inr (), s')" using refresh_ok by blast
  with refresh_rm [of s] show ?thesis by (simp add: start_eq run_simps)
qed

lemma start_tries:
  assumes "rm_ok (rm_of s)"
  shows "start s = bounded_tries attempt refresh (pause (rm_of s)) (nat (max_retries (rm_of s))) 0
    (snd (refresh s))"
proof -
  from assms have "0 \<le> max_retries (rm_of s)" by (simp add: rm_ok_def)
  from loop_tries [OF assms order_refl this] show ?thesis by (simp add: start_loop)
qed

lemma start_stays:
  assumes "evolution R" "stays R attempt" "stays R refresh" "\<And>n. stays R (pause (rm_of s) n)"
    and "rm_ok (rm_of s)"
  shows "R s (snd (start s))"
proof -
  have "R s (snd (refresh s))" using assms(3) by (rule stays_snd)
  moreover have "stays R (bounded_tries attempt refresh (pause (rm_of s)) k n)" for k n
    using assms(1-4) by (rule bounded_tries_stays)
  then have "R (snd (refresh s)) (snd (start s))"
    unfolding start_tries [OF assms(5)] by (rule stays_snd)
  ultimately show ?thesis by (rule evolution.trans [OF assms(1)])
qed

lemma start_count:
  assumes "stays (adds c a) attempt" "stays (adds c 0) refresh"
    and "\<And>n. stays (adds c p) (pause (rm_of s) n)" and "rm_ok (rm_of s)"
  shows "c (snd (start s)) \<le> c s + a + nat (max_retries (rm_of s)) * (a + p)"
proof -
  have "adds c (a + k * (a + p)) t (snd (bounded_tries attempt refresh (pause (rm_of s)) k n t))" for k n t
    using assms(1-3) by (rule bounded_tries_count)
  from this [of "nat (max_retries (rm_of s))" "snd (refresh s)" 0] show ?thesis
    using stays_snd [OF assms(2), of s] by (simp add: start_tries [OF assms(4)] adds_def)
qed

lemma start_exhaust:
  assumes "\<And>s. I s \<Longrightarrow> \<exists>e s1. attempt s = (Inl e, s1) \<and> is_retryable e \<and> I s1 \<and> c s1 = c s + a"
    and refresh: "\<And>s. I s \<Longrightarrow> I (snd (refresh s)) \<and> c (snd (refresh s)) = c s"
    and "\<And>n s'. 0 \<le> n \<Longrightarrow> I s' \<Longrightarrow>
      I (snd (pause (rm_of s) n s')) \<and> c (snd (pause (rm_of s) n s')) = c s' + p"
    and "I s" and "rm_ok (rm_of s)"
  shows "\<exists>e s'. start s = (Inl e, s') \<and> is_retryable e \<and> I s'
    \<and> c s' = c s + a + nat (max_retries (rm_of s)) * (a + p)"
proof -
  have "\<exists>e s'. bounded_tries attempt refresh (pause (rm_of s)) k 0 (snd (refresh s)) = (Inl e, s')
    \<and> is_retryable e \<and> I s' \<and> c s' = c (snd (refresh s)) + a + k * (a + p)" for k
    using refresh [OF assms(4)] by (intro bounded_tries_exhaust assms(1-3)) auto
  then show ?thesis
    using refresh [OF assms(4)] by (simp add: start_tries [OF assms(5)])
qed

lemma start_success:
  assumes "\<And>s x s'. attempt s = (Inr x, s') \<Longrightarrow> Q x s'"
    and "start s = (Inr x, s')" and "rm_ok (rm_of s)"
  shows "Q x s'"
proof -
  from assms(2) have "bounded_tries attempt refresh (pause (rm_of s)) (nat (max_retries (rm_of s))) 0
      (snd (refresh s)) = (Inr x, s')"
    by (simp only: start_tries [OF assms(3)])
  then show ?thesis by (rule bounded_tries_success [rotated]) (rule assms(1))
qed

lemma start_stops:
  assumes "attempt (snd (refresh s)) = (Inl e, s2)" and "\<not> is_retryable e"
  shows "start s = (Inl e, s2)"
  unfolding start_loop by (subst loop_eq) (simp add: assms handle_run throw_run)

lemma start_first:
  assumes "attempt (snd (refresh s)) = (Inr x, s2)"
  shows "start s = (Inr x, s2)"
  unfolding start_loop by (subst loop_eq) (simp add: assms handle_run)

end

section \<open>Counting observations\<close>

text \<open>How many observations of a kind the history holds, and rules to bound what a method adds.\<close>

definition seen :: "(obs \<Rightarrow> bool) \<Rightarrow> 'w World \<Rightarrow> nat" where
  "seen Q w = length (filter Q (trace w))"

fun is_sleep :: "obs \<Rightarrow> bool" where
  "is_sleep (Sleep _) = True"
| "is_sleep (Rpc _ _) = False"

lemma adds_evolution: "evolution (adds c 0)"
  by unfold_locales (simp_all add: adds_def)

lemma adds_bnd_right:
  assumes "stays (adds c 0) m" and "\<And>x. stays (adds c k) (f x)"
  shows "stays (adds c k) (bnd m f)"
proof (rule staysI)
  fix s
  obtain r s1 where r: "m s = (r, s1)" by fastforce
  from staysD [OF assms(1) r] have "c s1 = c s" by (simp add: adds_def)
  moreover have "adds c k s1 (snd (f x s1))" for x
    using assms(2) by (rule stays_snd)
  ultimately show "adds c k s (snd (bnd m f s))"
    by (auto simp: bnd_run r adds_def split: sum.split)
qed

lemma adds_bnd_left:
  assumes "stays (adds c k) m" and "\<And>x. stays (adds c 0) (f x)"
  shows "stays (adds c k) (bnd m f)"
proof (rule staysI)
  fix s
  obtain r s1 where r: "m s = (r, s1)" by fastforce
  from staysD [OF assms(1) r] have "adds c k s s1" .
  moreover have "c (snd (f x s1)) = c s1" for x
    using stays_snd [OF assms(2), of s1 x] by (simp add: adds_def)
  ultimately show "adds c k s (snd (bnd m f s))"
    by (auto simp: bnd_run r adds_def split: sum.split)
qed

lemma adds_seq_right:
  "stays (adds c 0) m \<Longrightarrow> stays (adds c k) k' \<Longrightarrow> stays (adds c k) (seq m k')"
  by (simp add: seq_def adds_bnd_right)

lemma adds_handle_throw:
  assumes "stays (adds c k) m"
  shows "stays (adds c k) (handle m (\<lambda>e. throw (g e)))"
  using assms by (auto simp: stays_def handle_run throw_run split: prod.split sum.split dest: staysD)
     (metis snd_conv)+

lemma adds_mono: "stays (adds c k) m \<Longrightarrow> k \<le> l \<Longrightarrow> stays (adds c l) m"
  by (erule stays_mono) (simp add: adds_def)

lemma emits_seen: "emits (\<lambda>ob. \<not> Q ob) v w \<Longrightarrow> seen Q w = seen Q v"
  by (auto simp: emits_def seen_def list_all_iff)

section \<open>A loop without a limit\<close>

text \<open>
  \<open>while True: try: return attempt() except Exception as err: recover(err)\<close>: the handler returns the
  new number of attempts or raises. Nothing bounds the turns; a loop that never ends is \<open>None\<close>.
\<close>

partial_function (option) until_done ::
  "('s, 'a) py \<Rightarrow> (int \<Rightarrow> exn \<Rightarrow> ('s, int) py) \<Rightarrow> int \<Rightarrow> 's \<Rightarrow> ((exn + 'a) \<times> 's) option" where
  "until_done attempt recover n s =
     (case attempt s of
        (Inr x, s1) \<Rightarrow> Some (Inr x, s1)
      | (Inl err, s1) \<Rightarrow>
          (case recover n err s1 of
             (Inl e, s2) \<Rightarrow> Some (Inl e, s2)
           | (Inr n', s2) \<Rightarrow> until_done attempt recover n' s2))"

lemma until_done_induct [consumes 1, case_names finish escape again]:
  fixes attempt :: "('s, 'a) py" and recover :: "int \<Rightarrow> exn \<Rightarrow> ('s, int) py"
  assumes "until_done attempt recover n s = Some y"
    and finish: "\<And>n s x s1. attempt s = (Inr x, s1) \<Longrightarrow> P n s (Inr x, s1)"
    and escape: "\<And>n s err s1 e s2. attempt s = (Inl err, s1) \<Longrightarrow> recover n err s1 = (Inl e, s2)
      \<Longrightarrow> P n s (Inl e, s2)"
    and again: "\<And>n s err s1 n' s2 y. attempt s = (Inl err, s1) \<Longrightarrow> recover n err s1 = (Inr n', s2)
      \<Longrightarrow> until_done attempt recover n' s2 = Some y \<Longrightarrow> P n' s2 y \<Longrightarrow> P n s y"
  shows "P n s y"
proof -
  have "attempt' = attempt \<and> recover' = recover \<longrightarrow> P n s y \<and> until_done attempt recover n s = Some y"
    if "until_done attempt' recover' n s = Some y" for attempt' recover' n s y
  proof (rule until_done.raw_induct [where P = "\<lambda>attempt' recover' n s y.
      attempt' = attempt \<and> recover' = recover \<longrightarrow>
        P n s y \<and> until_done attempt recover n s = Some y", OF _ that])
    fix loop :: "('s, 'a) py \<Rightarrow> (int \<Rightarrow> exn \<Rightarrow> ('s, int) py) \<Rightarrow> int \<Rightarrow> 's \<Rightarrow> ((exn + 'a) \<times> 's) option"
      and attempt' recover' n s y
    assume IH: "\<And>attempt' recover' n s y. loop attempt' recover' n s = Some y \<Longrightarrow>
        attempt' = attempt \<and> recover' = recover \<longrightarrow>
          P n s y \<and> until_done attempt recover n s = Some y"
      and body: "(case attempt' s of
        (Inl err, s1) \<Rightarrow>
          (case recover' n err s1 of
             (Inl e, s2) \<Rightarrow> Some (Inl e, s2)
           | (Inr n', s2) \<Rightarrow> loop attempt' recover' n' s2)
      | (Inr x, s1) \<Rightarrow> Some (Inr x, s1)) = Some y"
    show "attempt' = attempt \<and> recover' = recover \<longrightarrow>
        P n s y \<and> until_done attempt recover n s = Some y"
    proof (intro impI)
      assume same: "attempt' = attempt \<and> recover' = recover"
      obtain r s1 where a: "attempt s = (r, s1)" by (meson surj_pair)
      show "P n s y \<and> until_done attempt recover n s = Some y"
      proof (cases r)
        case (Inr x)
        with body same a have "y = (Inr x, s1)" by simp
        with a Inr show ?thesis by (simp add: finish until_done.simps)
      next
        case (Inl err)
        obtain r2 s2 where b: "recover n err s1 = (r2, s2)" by (meson surj_pair)
        show ?thesis
        proof (cases r2)
          case (Inl e)
          with body same a b \<open>r = Inl err\<close> have "y = (Inl e, s2)" by simp
          with a b \<open>r = Inl err\<close> Inl escape [of s err s1 n e s2] show ?thesis
            by (simp add: until_done.simps)
        next
          case (Inr n')
          with body same a b \<open>r = Inl err\<close> have "loop attempt' recover' n' s2 = Some y" by simp
          with IH same have "P n' s2 y" and rest: "until_done attempt recover n' s2 = Some y"
            by blast+
          moreover have "until_done attempt recover n s = Some y"
            using rest a b \<open>r = Inl err\<close> Inr by (subst until_done.simps) simp
          ultimately show ?thesis
            using again [of s err s1 n n' s2 y] a b \<open>r = Inl err\<close> Inr by simp
        qed
      qed
    qed
  qed
  with assms(1) show ?thesis by blast
qed

text \<open>An invariant of the turns, and a relation of the state before and after.\<close>

lemma until_done_invar:
  assumes "until_done attempt recover n s = Some y" and "evolution R" and "I s"
    and a: "\<And>s. I s \<Longrightarrow> I (snd (attempt s)) \<and> R s (snd (attempt s))"
    and r: "\<And>n e s. I s \<Longrightarrow> I (snd (recover n e s)) \<and> R s (snd (recover n e s))"
  shows "I (snd y) \<and> R s (snd y)"
  using assms(1) assms(3)
proof (induction rule: until_done_induct)
  case (finish n s x s1)
  with a [of s] show ?case by simp
next
  case (escape n s err s1 e s2)
  with a [of s] r [of s1 n err] show ?case by (auto intro: evolution.trans [OF assms(2)])
next
  case (again n s err s1 n' s2 y)
  with a [of s] r [of s1 n err] have "I s2" "R s s2" by (auto intro: evolution.trans [OF assms(2)])
  with again.IH show ?case by (auto intro: evolution.trans [OF assms(2)])
qed

text \<open>If every attempt fails and every failure is recovered, the loop never ends.\<close>

lemma until_done_diverges:
  assumes "I n s"
    and turn: "\<And>n s. I n s \<Longrightarrow>
      \<exists>err s1 n' s2. attempt s = (Inl err, s1) \<and> recover n err s1 = (Inr n', s2) \<and> I n' s2"
  shows "until_done attempt recover n s = None"
proof (rule ccontr)
  assume "until_done attempt recover n s \<noteq> None"
  then obtain y where "until_done attempt recover n s = Some y" by blast
  then have "\<not> I n s"
  proof (induction rule: until_done_induct)
    case (finish n s x s1)
    with turn [of n s] show ?case by auto
  next
    case (escape n s err s1 e s2)
    with turn [of n s] show ?case by auto
  next
    case (again n s err s1 n' s2 y)
    with turn [of n s] show ?case by auto
  qed
  with assms(1) show False by simp
qed

text \<open>Two loops in step.\<close>

lemma until_done_simulates:
  assumes a: "\<And>s. attempt' (f s) = map_prod id f (attempt s)"
    and r: "\<And>n e s. recover' n e (f s) = map_prod id f (recover n e s)"
  shows "until_done attempt' recover' n (f s) = map_option (map_prod id f) (until_done attempt recover n s)"
proof -
  have up: "until_done attempt' recover' n (f s) = Some (map_prod id f y)"
    if "until_done attempt recover n s = Some y" for n s y
    using that
  proof (induction rule: until_done_induct)
    case (again n s err s1 n' s2 y)
    then show ?case by (subst until_done.simps) (simp add: a r id_def)
  qed (subst until_done.simps; simp add: a r)+
  have down: "\<exists>y. until_done attempt recover n s = Some y"
    if "until_done attempt' recover' n t = Some z" and "t = f s" for n s t z
    using that
  proof (induction arbitrary: s rule: until_done_induct)
    case (finish n t x t1)
    then show ?case by (subst until_done.simps) (auto simp: a split: prod.split sum.split)
  next
    case (escape n t err t1 e t2)
    obtain q s1 where q: "attempt s = (q, s1)" by (meson surj_pair)
    with escape a have "q = Inl err" "t1 = f s1" by simp_all
    moreover obtain q2 s2 where "recover n err s1 = (q2, s2)" by (meson surj_pair)
    ultimately show ?case using q escape r [of n err s1] by (subst until_done.simps) auto
  next
    case (again n t err t1 n' t2 z)
    obtain q s1 where q: "attempt s = (q, s1)" by (meson surj_pair)
    with again a have q1: "q = Inl err" "t1 = f s1" by simp_all
    obtain q2 s2 where q2: "recover n err s1 = (q2, s2)" by (meson surj_pair)
    with again r [of n err s1] q1 have "q2 = Inr n'" "t2 = f s2" by simp_all
    with again.IH [of s2] q q1 q2 show ?case by (subst until_done.simps) simp
  qed
  show ?thesis
  proof (cases "until_done attempt recover n s")
    case None
    then have "until_done attempt' recover' n (f s) = None"
      using down [of n "f s" _ s] by (metis not_None_eq)
    with None show ?thesis by simp
  next
    case (Some y)
    with up [OF Some] show ?thesis by simp
  qed
qed

end
