(* ===== verification/Endpoint.thy ===== *)
theory Endpoint
  imports Lookup HealthCheck SchemaRegistry RetryLoop
begin

text \<open>
  What \<open>TopicProducer\<close> and \<open>TopicConsumer\<close> share: an object in the world of its client, the relations
  that its methods keep, the kinds of calls, and the translation of an ALREADY\_EXISTS error.
  The methods of an object work on the pair of the object and the world.
\<close>

section \<open>Objects in their world\<close>

definition get_self :: "('t \<Rightarrow> 'a) \<Rightarrow> ('t \<times> 'w, 'a) py" where
  "get_self f = gets (\<lambda>s. f (fst s))"

definition set_self :: "('t \<Rightarrow> 't) \<Rightarrow> ('t \<times> 'w, unit) py" where
  "set_self f = modify (\<lambda>s. (f (fst s), snd s))"

lemma get_self_run [run_simps]: "get_self f (t, w) = (Inr (f t), (t, w))"
  by (simp add: get_self_def run_simps)

lemma set_self_run [run_simps]: "set_self f (t, w) = (Inr (), (f t, w))"
  by (simp add: set_self_def run_simps)

text \<open>A relation of worlds, read on the pair of an object and its world.\<close>

definition on_world :: "('w World \<Rightarrow> 'w World \<Rightarrow> bool) \<Rightarrow> 't \<times> 'w World \<Rightarrow> 't \<times> 'w World \<Rightarrow> bool" where
  "on_world R s s' \<longleftrightarrow> R (snd s) (snd s')"

lemma on_world_evolution: "evolution R \<Longrightarrow> evolution (on_world R)"
  by (auto simp: on_world_def intro!: evolution.intro intro: evolution.refl evolution.trans)

interpretation ow_grows: evolution "on_world grows"
  by (rule on_world_evolution) (rule grows.evolution_axioms)

interpretation ow_emits: evolution "on_world (emits P)" for P
  by (rule on_world_evolution) (rule emits.evolution_axioms)

interpretation ow_pool: evolution "on_world pool_kept"
  by (rule on_world_evolution) (rule pool_kept.evolution_axioms)

lemmas object_methods = ow_grows.steps ow_emits.steps ow_pool.steps

lemma on_world_on_snd [stays_rules]: "stays R m \<Longrightarrow> stays (on_world R) (on_snd m)"
  by (auto simp: on_world_def on_snd_def intro!: staysI split: prod.split dest: staysD)

lemma on_world_get_self [stays_rules]:
  "stays (on_world grows) (get_self f)" "stays (on_world (emits P)) (get_self f)"
  "stays (on_world pool_kept) (get_self f)"
  by (auto simp: get_self_def intro!: object_methods)

lemma on_world_set_self [stays_rules]:
  "stays (on_world grows) (set_self f)" "stays (on_world (emits P)) (set_self f)"
  "stays (on_world pool_kept) (set_self f)"
  by (auto simp: set_self_def on_world_def grows.refl emits.refl pool_kept.refl intro!: stays_modify)

lemma on_snd_fst: "fst (snd (on_snd m s)) = fst s"
  by (cases s) (simp add: run_simps split: prod.split)

interpretation ow_events: evolution "on_world (same events)"
  by (rule on_world_evolution) (rule same.evolution_axioms)

lemma self_events [stays_rules]:
  "stays (on_world (same events)) (get_self f)" "stays (on_world (same events)) (set_self g)"
  by (auto simp: get_self_def intro!: ow_events.steps)
     (auto simp: set_self_def on_world_def same_def intro!: stays_modify)

section \<open>Kinds of calls\<close>

fun is_lookup :: "obs \<Rightarrow> bool" where
  "is_lookup (Rpc _ (TopicLookup _)) = True"
| "is_lookup _ = False"

lemma is_lookup_call_is_lookup: "is_lookup_call t ob \<Longrightarrow> is_lookup ob"
  by (cases ob rule: is_lookup.cases) (auto simp: is_lookup_call_def)

fun is_create :: "obs \<Rightarrow> bool" where
  "is_create (Rpc _ (CreateProducer _)) = True"
| "is_create _ = False"

fun is_subscribe :: "obs \<Rightarrow> bool" where
  "is_subscribe (Rpc _ (Subscribe _)) = True"
| "is_subscribe _ = False"

lemma registry_kinds [simp]:
  "is_registry_call ob \<Longrightarrow> \<not> is_create ob" "is_registry_call ob \<Longrightarrow> \<not> is_sleep ob"
  "is_registry_call ob \<Longrightarrow> \<not> is_lookup ob"
    apply (cases ob rule: is_create.cases; simp add: is_registry_call_def)
   apply (cases ob; simp add: is_registry_call_def)
  by (cases ob rule: is_lookup.cases; simp add: is_registry_call_def)

lemma lookup_kinds [simp]:
  "is_lookup ob \<Longrightarrow> \<not> is_create ob" "is_lookup ob \<Longrightarrow> \<not> is_sleep ob"
  by (cases ob rule: is_lookup.cases; simp)+

lemma subscribe_kinds [simp]:
  "is_lookup ob \<Longrightarrow> \<not> is_subscribe ob" "is_subscribe ob \<Longrightarrow> \<not> is_sleep ob"
  by (cases ob rule: is_subscribe.cases; simp)+

lemma create_kinds [simp]: "is_create ob \<Longrightarrow> \<not> is_sleep ob"
  by (cases ob) simp_all

section \<open>Errors, waiting and health checks\<close>

text \<open>\<open>except grpc.aio.AioRpcError as err\<close> around the call that creates a producer or a consumer\<close>

fun already_exists :: "string \<Rightarrow> exn \<Rightarrow> exn" where
  "already_exists what (AioRpcError code text) =
     (if code = ALREADY_EXISTS then UnrecoverableError (what @ '' already exists: '' @ text)
      else AioRpcError code text)"
| "already_exists what e = e"

definition always_retryable :: "('q, 'r, 'w) stub_method \<Rightarrow> bool" where
  "always_retryable answer \<longleftrightarrow>
     (\<forall>call q x. \<exists>code text x'. answer call q x = (Inl (AioRpcError code text), x')
        \<and> is_retryable (AioRpcError code text))"

lemma backoff_delay_run:
  assumes "rm_ok rm" and "0 \<le> n"
  obtains d x where "backoff_delay E rm n w = (Inr d, w\<lparr>outside := x\<rparr>)"
    and "0 < d" and "d \<le> of_int (max_backoff_ms rm) / 1000"
proof -
  obtain u x where u: "random_source E (outside w) = (u, x)" by fastforce
  obtain d where "calculate_backoff rm n u = Inr d" "0 < d" "d \<le> of_int (max_backoff_ms rm) / 1000"
    using assms by (rule calculate_backoff_ok)
  with u show ?thesis by (intro that [of d x]) (simp_all add: backoff_delay_def run_simps)
qed

text \<open>The wait before the next attempt.\<close>

definition pause :: "'w Outside \<Rightarrow> RetryManager \<Rightarrow> int \<Rightarrow> ('t \<times> 'w World, unit) py" where
  "pause E rm n = bnd (on_snd (backoff_delay E rm n)) (\<lambda>b. on_snd (asleep b))"

lemma pause_ok:
  assumes "rm_ok rm" and "0 \<le> n"
  shows "\<exists>s'. pause E rm n s = (Inr (), s')"
proof -
  obtain t w where s: "s = (t, w)" by fastforce
  obtain d x where "backoff_delay E rm n w = (Inr d, w\<lparr>outside := x\<rparr>)"
    using assms by (rule backoff_delay_run)
  then show ?thesis by (simp add: s pause_def run_simps)
qed

lemma pause_keeps [stays_rules]:
  "stays (on_world grows) (pause E rm n)"
  "(\<And>d. P (Sleep d)) \<Longrightarrow> stays (on_world (emits P)) (pause E rm n)"
  "stays (on_world pool_kept) (pause E rm n)" "stays (on_world (same events)) (pause E rm n)"
  unfolding pause_def by (auto intro!: object_methods ow_events.steps stays_rules)

lemma pause_self: "fst (snd (pause E rm n s)) = fst s"
  by (cases s) (auto simp: pause_def run_simps split: prod.split sum.split)

lemma start_health_check_hit:
  assumes "cm_connections (conn_mgr w) (pool_key (b, c)) = Some conn"
  shows "start_health_check c b p ty cid ev w =
    (Inr (length (tasks w)), w\<lparr>tasks := tasks w @ [
       \<lparr>ht_channel = rc_channel conn, ht_connect_url = c, ht_broker_addr = b, ht_proxy = p,
        ht_client_type = ty, ht_client_id = cid, ht_stop_event = ev, ht_pc = AtTop,
        ht_cancelled = False\<rparr>]\<rparr>)"
  using cm.hit [of "conn_mgr w" "(b, c)" conn] assms
  by (simp add: start_health_check_def run_simps)

section \<open>Counting in objects\<close>

lemma adds_of_emits:
  "stays (on_world (emits (\<lambda>ob. \<not> Q ob))) m \<Longrightarrow> stays (adds (\<lambda>s. seen Q (snd s)) 0) m"
  by (erule stays_mono) (simp add: on_world_def emits_seen adds_def)

lemma adds_rpc: "stays (adds (\<lambda>s. seen Q (snd s)) 1) (on_snd (rpc answer mk call q))"
  by (auto simp: stays_def on_snd_def rpc_run adds_def seen_def split: prod.split)

text \<open>The state between two attempts: the token stays static and the events stay allocated.\<close>

lemma static_token_kept:
  assumes "stays (on_world grows) m" and "static_token (snd s)"
  shows "static_token (snd (snd (m s)))"
  using stays_snd [OF assms(1), of s] assms(2) by (auto simp: on_world_def intro: static_token_grows)

lemma seen_kept:
  assumes "stays (adds (\<lambda>s. seen Q (snd s)) 0) m"
  shows "seen Q (snd (snd (m s))) = seen Q (snd s)"
  using stays_snd [OF assms, of s] by (simp add: adds_def)

lemma pause_one_sleep:
  assumes "rm_ok rm" and "0 \<le> n"
  shows "seen is_sleep (snd (snd (pause E rm n s))) = Suc (seen is_sleep (snd s))"
proof -
  obtain t w where s: "s = (t, w)" by fastforce
  obtain d x where "backoff_delay E rm n w = (Inr d, w\<lparr>outside := x\<rparr>)"
    using assms by (rule backoff_delay_run)
  then show ?thesis by (simp add: s pause_def run_simps seen_def)
qed

lemma pause_counts:
  "stays (adds (\<lambda>s. seen is_sleep (snd s)) 1) (pause E rm n)"
  "(\<And>d. \<not> Q (Sleep d)) \<Longrightarrow> stays (adds (\<lambda>s. seen Q (snd s)) 0) (pause E rm n)"
proof -
  show "stays (adds (\<lambda>s. seen is_sleep (snd s)) 1) (pause E rm n)"
    unfolding pause_def
    by (rule adds_bnd_right, rule adds_of_emits, intro stays_rules)
       (auto simp: stays_def on_snd_def asleep_run adds_def seen_def)
  show "stays (adds (\<lambda>s. seen Q (snd s)) 0) (pause E rm n)" if "\<And>d. \<not> Q (Sleep d)"
    by (rule adds_of_emits) (intro stays_rules that)
qed

section \<open>Closing\<close>

text \<open>What the steps of a \<open>close\<close> do to the shared objects: events are set, tasks are cancelled, and
  nothing is called.\<close>

definition winds_down :: "'w World \<Rightarrow> 'w World \<Rightarrow> bool" where
  "winds_down v w \<longleftrightarrow> length (events w) = length (events v) \<and> length (tasks w) = length (tasks v)
     \<and> (\<forall>i. is_set i v \<longrightarrow> is_set i w)
     \<and> (\<forall>i < length (tasks v). ht_cancelled (tasks v ! i) \<longrightarrow> ht_cancelled (tasks w ! i))
     \<and> trace w = trace v \<and> conn_mgr w = conn_mgr v"

interpretation winds_down: evolution winds_down
  by unfold_locales (simp_all add: winds_down_def)

lemma set_stays: "i < length xs \<Longrightarrow> xs ! i \<Longrightarrow> xs[k := True] ! i"
  by (cases "k = i") simp_all

end
