(* ===== verification/TopicProducer.thy ===== *)
theory TopicProducer
  imports Endpoint
begin

text \<open>
  \<open>danube/topic_producer.py\<close>: the producer of one topic or partition. Its methods work on the pair
  of the object and the world it shares with the rest of the client. \<open>_stub\<close> is the channel the
  stub was made on, \<open>stop_event\<close> an index into the events of the world and \<open>_health_task\<close> an index
  into its tasks.
\<close>

record TopicProducer =
  tp_topic :: string
  tp_producer_name :: string
  tp_producer_id :: "64 word"
  tp_request_id :: nat
  tp_schema_ref :: "SchemaReference option"
  tp_schema_id :: "64 word option"
  tp_schema_version :: "32 word option"
  tp_dispatch_strategy :: DispatchStrategy
  tp_retry_manager :: RetryManager
  tp_stub :: "Channel option"
  tp_stop_event :: nat
  tp_health_task :: "nat option"
  tp_broker_addr :: string
  tp_connect_url :: string
  tp_proxy :: bool

definition new_TopicProducer ::
  "string \<Rightarrow> string \<Rightarrow> SchemaReference option \<Rightarrow> DispatchStrategy \<Rightarrow> int \<Rightarrow> int \<Rightarrow> int
     \<Rightarrow> ('w World, TopicProducer) py" where
  "new_TopicProducer topic name schema_ref strategy retries base cap =
     bnd new_event (\<lambda>event.
     bnd (gets uri) (\<lambda>u.
     ret \<lparr>tp_topic = topic, tp_producer_name = name, tp_producer_id = 0, tp_request_id = 1,
          tp_schema_ref = schema_ref, tp_schema_id = None, tp_schema_version = None,
          tp_dispatch_strategy = strategy, tp_retry_manager = new_RetryManager retries base cap,
          tp_stub = None, tp_stop_event = event, tp_health_task = None,
          tp_broker_addr = u, tp_connect_url = u, tp_proxy = False\<rparr>))"

type_synonym 'w tp_state = "TopicProducer \<times> 'w World"

text \<open>\<open>next(self._request_id)\<close>\<close>

definition tp_next_id :: "('w tp_state, nat) py" where
  "tp_next_id = bnd (get_self tp_request_id) (\<lambda>i.
     seq (set_self (\<lambda>t. t\<lparr>tp_request_id := Suc i\<rparr>)) (ret i))"

definition tp_lookup_new_broker :: "'w Outside \<Rightarrow> ('w tp_state, unit) py" where
  "tp_lookup_new_broker E =
     handle
       (bnd (get_self id) (\<lambda>t.
        bnd (on_snd (handle_lookup E (tp_connect_url t) (tp_topic t))) (\<lambda>addr.
        set_self (\<lambda>t. t\<lparr>tp_broker_addr := broker_url addr, tp_connect_url := connect_url addr,
                      tp_proxy := proxy addr\<rparr>))))
       (\<lambda>err. ret ())"

definition tp_connect :: "('w tp_state, unit) py" where
  "tp_connect =
     bnd (get_self id) (\<lambda>t.
     bnd (on_snd (on_conn_mgr (get_connection (tp_broker_addr t) (tp_connect_url t)))) (\<lambda>conn.
     set_self (\<lambda>t. t\<lparr>tp_stub := Some (rc_channel conn)\<rparr>)))"

text \<open>Token and proxy header for a call of this producer.\<close>

definition tp_headers :: "('w tp_state, metadata option) py" where
  "tp_headers = bnd (get_self id) (\<lambda>t.
     on_snd (call_headers (tp_connect_url t) (tp_broker_addr t) (tp_proxy t)))"

definition resolve_schema_metadata ::
  "'w Outside \<Rightarrow> SchemaReference option \<Rightarrow> ('w World, 64 word \<times> 32 word) py" where
  "resolve_schema_metadata E schema_ref =
     (case schema_ref of
        None \<Rightarrow> throw (ValueError ''schema reference is None'')
      | Some ref \<Rightarrow>
          (case sr_version_ref ref of
             Some (PinnedVersion v) \<Rightarrow>
               bnd (get_latest_schema E (sr_subject ref)) (\<lambda>latest.
               if v > si_version latest then
                 throw (ValueError (''pinned version '' @ str_int (uint v) @
                   '' does not exist for subject '' @ sr_subject ref))
               else if v = si_version latest then
                 ret (si_schema_id latest, si_version latest)
               else
                 bnd (get_schema_version E (uint (si_schema_id latest)) (Some (uint v))) (\<lambda>pinned.
                 ret (si_schema_id pinned, si_version pinned)))
           | Some (MinVersion v) \<Rightarrow>
               bnd (get_latest_schema E (sr_subject ref)) (\<lambda>latest.
               if si_version latest < v then
                 throw (ValueError (''latest version '' @ str_int (uint (si_version latest)) @
                   '' does not meet minimum '' @ str_int (uint v) @
                   '' for subject '' @ sr_subject ref))
               else ret (si_schema_id latest, si_version latest))
           | _ \<Rightarrow>
               bnd (get_latest_schema E (sr_subject ref)) (\<lambda>latest.
               ret (si_schema_id latest, si_version latest))))"

text \<open>What follows a reply: the identifier, the health check, the schema.\<close>

definition tp_created :: "'w Outside \<Rightarrow> ProducerResponse \<Rightarrow> ('w tp_state, 64 word) py" where
  "tp_created E resp =
     seq (set_self (\<lambda>t. t\<lparr>tp_producer_id := prs_producer_id resp\<rparr>)) (
     bnd (get_self id) (\<lambda>t.
     bnd (on_snd (start_health_check (tp_connect_url t) (tp_broker_addr t) (tp_proxy t)
            ClientProducer (tp_producer_id t) (tp_stop_event t))) (\<lambda>task.
     seq (set_self (\<lambda>t. t\<lparr>tp_health_task := Some task\<rparr>)) (
     seq (if tp_schema_ref t \<noteq> None then
            bnd (on_snd (resolve_schema_metadata E (tp_schema_ref t))) (\<lambda>(sid, ver).
            set_self (\<lambda>t. t\<lparr>tp_schema_id := Some sid, tp_schema_version := Some ver\<rparr>))
          else ret ()) (
     get_self tp_producer_id)))))"

definition tp_try_create :: "'w Outside \<Rightarrow> ('w tp_state, 64 word) py" where
  "tp_try_create E =
     seq tp_connect (
     bnd tp_next_id (\<lambda>i.
     bnd (get_self (\<lambda>t. \<lparr>pr_request_id = i, pr_producer_name = tp_producer_name t,
            pr_topic_name = tp_topic t, pr_schema_ref = tp_schema_ref t,
            pr_producer_access_mode = Shared,
            pr_dispatch_strategy = to_proto (tp_dispatch_strategy t)\<rparr>)) (\<lambda>request.
     bnd tp_headers (\<lambda>md.
     bnd (get_self tp_stub) (\<lambda>stub.
     (case stub of None \<Rightarrow> throw AttributeError
      | Some ch \<Rightarrow>
          bnd (handle
                (on_snd (rpc (answer_CreateProducer E) CreateProducer
                   \<lparr>call_channel = ch, call_metadata = md\<rparr> request))
                (\<lambda>err. throw (already_exists ''producer'' err)))
              (tp_created E)))))))"

function tp_create_loop :: "'w Outside \<Rightarrow> RetryManager \<Rightarrow> int \<Rightarrow> ('w tp_state, 64 word) py" where
  "tp_create_loop E rm attempts =
     handle (tp_try_create E) (\<lambda>last_err.
       if \<not> is_retryable last_err then throw last_err
       else if attempts + 1 > max_retries rm then throw last_err
       else
         seq (tp_lookup_new_broker E) (
         bnd (on_snd (backoff_delay E rm (attempts + 1 - 1))) (\<lambda>backoff.
         seq (on_snd (asleep backoff)) (
         tp_create_loop E rm (attempts + 1)))))"
  by pat_completeness auto
termination
  by (relation "measure (\<lambda>(E, rm, attempts). nat (max_retries rm - attempts))") auto

declare tp_create_loop.simps [simp del]

definition tp_create :: "'w Outside \<Rightarrow> ('w tp_state, 64 word) py" where
  "tp_create E =
     seq (tp_lookup_new_broker E) (
     bnd (get_self tp_retry_manager) (\<lambda>rm.
     tp_create_loop E rm 0))"

definition tp_stop :: "('w tp_state, unit) py" where
  "tp_stop =
     bnd (get_self tp_stop_event) (\<lambda>event.
     seq (on_snd (set_event event)) (
     bnd (get_self tp_health_task) (\<lambda>task.
     (case task of
        Some i \<Rightarrow> seq (on_snd (cancel_task i)) (set_self (\<lambda>t. t\<lparr>tp_health_task := None\<rparr>))
      | None \<Rightarrow> ret ()))))"

definition tp_send ::
  "'w Outside \<Rightarrow> bytes \<Rightarrow> (string \<times> string) list option \<Rightarrow> string option
     \<Rightarrow> ('w tp_state, 64 word) py" where
  "tp_send E data attributes routing_key =
     bnd (get_self tp_stub) (\<lambda>stub.
     (case stub of
        None \<Rightarrow> throw (UnrecoverableError ''send: producer is not connected'')
      | Some ch \<Rightarrow>
          (let attributes = (case attributes of None \<Rightarrow> [] | Some a \<Rightarrow> a) in
          bnd (on_snd (on_outside (total_io (clock_ms E)))) (\<lambda>publish_time.
          bnd (get_self (\<lambda>t. \<lparr>mi_producer_id = tp_producer_id t, mi_topic_name = tp_topic t,
                 mi_broker_addr = tp_broker_addr t, mi_topic_offset = 0\<rparr>)) (\<lambda>msg_id.
          bnd tp_next_id (\<lambda>i.
          bnd (get_self (\<lambda>t. \<lparr>sm_request_id = i, sm_msg_id = msg_id, sm_payload = data,
                 sm_publish_time = publish_time, sm_producer_name = tp_producer_name t,
                 sm_subscription_name = '''', sm_attributes = attributes,
                 sm_schema_id = tp_schema_id t, sm_schema_version = tp_schema_version t,
                 sm_routing_key = routing_key\<rparr>)) (\<lambda>request.
          bnd tp_headers (\<lambda>md.
          bnd (on_snd (rpc (answer_SendMessage E) SendMessage
                 \<lparr>call_channel = ch, call_metadata = md\<rparr> request)) (\<lambda>resp.
          ret (mrs_request_id resp))))))))))"

section \<open>What the methods keep\<close>

lemma tp_next_id_run [run_simps]:
  "tp_next_id (t, w) = (Inr (tp_request_id t), (t\<lparr>tp_request_id := Suc (tp_request_id t)\<rparr>, w))"
  by (simp add: tp_next_id_def run_simps)

lemma tp_next_id_keeps [stays_rules]:
  "stays (on_world grows) tp_next_id" "stays (on_world (emits P)) tp_next_id"
  "stays (on_world pool_kept) tp_next_id"
  unfolding tp_next_id_def by (auto intro!: object_methods stays_rules)

lemma tp_headers_keeps [stays_rules]:
  "stays (on_world grows) tp_headers" "stays (on_world (emits P)) tp_headers"
  "stays (on_world pool_kept) tp_headers"
  unfolding tp_headers_def by (auto intro!: object_methods stays_rules)

lemma tp_connect_keeps [stays_rules]:
  "stays (on_world grows) tp_connect" "stays (on_world (emits P)) tp_connect"
  "stays (on_world pool_kept) tp_connect"
  unfolding tp_connect_def by (auto intro!: object_methods stays_rules)

lemma tp_lookup_keeps [stays_rules]:
  "stays (on_world grows) (tp_lookup_new_broker E)"
  "(\<And>ob. is_lookup ob \<Longrightarrow> P ob) \<Longrightarrow> stays (on_world (emits P)) (tp_lookup_new_broker E)"
  "stays (on_world pool_kept) (tp_lookup_new_broker E)"
  unfolding tp_lookup_new_broker_def
  by (auto intro!: object_methods stays_rules dest: is_lookup_call_is_lookup)

lemma resolve_schema_keeps [stays_rules]:
  "stays grows (resolve_schema_metadata E ref)"
  "(\<And>ob. is_registry_call ob \<Longrightarrow> P ob) \<Longrightarrow> stays (emits P) (resolve_schema_metadata E ref)"
  "stays pool_kept (resolve_schema_metadata E ref)"
  unfolding resolve_schema_metadata_def
  by (auto intro!: world_methods stays_rules split: option.split VersionRef.split)

lemma tp_created_keeps [stays_rules]:
  "stays (on_world grows) (tp_created E resp)"
  "(\<And>ob. is_registry_call ob \<Longrightarrow> P ob) \<Longrightarrow> stays (on_world (emits P)) (tp_created E resp)"
  "stays (on_world pool_kept) (tp_created E resp)"
  unfolding tp_created_def
  by (auto intro!: object_methods stays_rules split: prod.split)

lemma tp_try_create_keeps [stays_rules]:
  "stays (on_world grows) (tp_try_create E)"
  "(\<And>ob. is_create ob \<Longrightarrow> P ob) \<Longrightarrow> (\<And>ob. is_registry_call ob \<Longrightarrow> P ob)
    \<Longrightarrow> stays (on_world (emits P)) (tp_try_create E)"
  "stays (on_world pool_kept) (tp_try_create E)"
  unfolding tp_try_create_def
  by (auto intro!: object_methods stays_rules split: option.split)

lemma tp_send_keeps [stays_rules]:
  "stays (on_world grows) (tp_send E d a k)" "stays (on_world pool_kept) (tp_send E d a k)"
  unfolding tp_send_def Let_def
  by (auto intro!: object_methods stays_rules split: option.split)

lemma resolve_schema_calm [stays_rules]:
  "stays calm (resolve_schema_metadata E ref)" "stays (same events) (resolve_schema_metadata E ref)"
proof -
  show calm: "stays calm (resolve_schema_metadata E ref)"
    unfolding resolve_schema_metadata_def
    by (auto intro!: calm.steps stays_rules split: option.split VersionRef.split)
  show "stays (same events) (resolve_schema_metadata E ref)" using calm by (rule calm_events)
qed

text \<open>Nothing in the creation of a producer sets or clears an event.\<close>

lemma tp_try_create_events [stays_rules]:
  "stays (on_world (same events)) (tp_try_create E)"
  unfolding tp_try_create_def tp_connect_def tp_next_id_def tp_headers_def tp_created_def
  by (auto intro!: ow_events.steps stays_rules split: option.split prod.split)

lemma tp_lookup_events [stays_rules]:
  "stays (on_world (same events)) (tp_lookup_new_broker E)"
  unfolding tp_lookup_new_broker_def by (auto intro!: ow_events.steps stays_rules)

section \<open>Creation with retries\<close>

lemma tp_lookup_ok: "\<exists>s'. tp_lookup_new_broker E s = (Inr (), s')"
  by (cases s) (auto simp: tp_lookup_new_broker_def run_simps split: prod.split sum.split)

lemma tp_lookup_retry_manager:
  "tp_retry_manager (fst (snd (tp_lookup_new_broker E s))) = tp_retry_manager (fst s)"
  by (cases s) (auto simp: tp_lookup_new_broker_def run_simps split: prod.splits sum.splits)

interpretation tp_retry: connecting
  "tp_try_create E" "tp_lookup_new_broker E" "pause E" "tp_create_loop E"
  "\<lambda>s. tp_retry_manager (fst s)" "tp_create E" for E
proof unfold_locales
  fix rm n
  show "tp_create_loop E rm n =
    handle (tp_try_create E) (\<lambda>e.
      if \<not> is_retryable e then throw e
      else if n + 1 > max_retries rm then throw e
      else seq (tp_lookup_new_broker E) (seq (pause E rm n) (tp_create_loop E rm (n + 1))))"
    by (subst tp_create_loop.simps)
       (simp add: pause_def seq_bnd_assoc cong: if_cong)
qed (use tp_lookup_ok pause_ok tp_lookup_retry_manager in \<open>auto simp: tp_create_def get_self_def\<close>)

lemma tp_lookup_quiet:
  "(\<And>ob. is_lookup ob \<Longrightarrow> \<not> Q ob) \<Longrightarrow>
     stays (adds (\<lambda>s. seen Q (snd s)) 0) (tp_lookup_new_broker E)"
  by (rule adds_of_emits) (intro stays_rules, blast)

lemma tp_try_create_one_call:
  "stays (adds (\<lambda>s. seen is_create (snd s)) 1) (tp_try_create E)"
proof -
  let ?c = "\<lambda>s. seen is_create (snd s)"
  note zero = adds_of_emits [where Q = is_create]
  have rest: "stays (adds ?c 0) m" if "stays (on_world (emits (\<lambda>ob. \<not> is_create ob))) m"
    for m :: "('w tp_state, 64 word) py"
    using that by (rule zero)
  show ?thesis
    unfolding tp_try_create_def
    apply (rule adds_seq_right, rule zero, rule stays_rules)
    apply (rule adds_bnd_right, rule zero, rule stays_rules)
    apply (rule adds_bnd_right, rule zero, rule stays_rules)
    apply (rule adds_bnd_right, rule zero, rule stays_rules)
    apply (rule adds_bnd_right, rule zero, rule stays_rules)
    apply (split option.split, intro conjI impI allI)
     apply (rule adds_mono [where k = 0], rule rest, rule object_methods, simp)
    apply (rule adds_bnd_left)
     apply (rule adds_handle_throw, rule adds_rpc)
    apply (rule rest)
    by (intro stays_rules) simp
qed

lemma tp_create_counts:
  assumes "rm_ok (tp_retry_manager (fst s))"
  shows "seen is_create (snd (snd (tp_create E s)))
      \<le> seen is_create (snd s) + nat (max_retries (tp_retry_manager (fst s))) + 1"
    and "seen is_sleep (snd (snd (tp_create E s)))
      \<le> seen is_sleep (snd s) + nat (max_retries (tp_retry_manager (fst s)))"
proof -
  have no_sleep: "stays (adds (\<lambda>s. seen is_sleep (snd s)) 0) (tp_try_create E)"
    by (rule adds_of_emits) (intro stays_rules; simp)
  show "seen is_create (snd (snd (tp_create E s)))
      \<le> seen is_create (snd s) + nat (max_retries (tp_retry_manager (fst s))) + 1"
    using tp_retry.start_count [OF tp_try_create_one_call tp_lookup_quiet pause_counts(2) assms] by simp
  show "seen is_sleep (snd (snd (tp_create E s)))
      \<le> seen is_sleep (snd s) + nat (max_retries (tp_retry_manager (fst s)))"
    using tp_retry.start_count [OF no_sleep tp_lookup_quiet pause_counts(1) assms] by simp
qed

section \<open>One attempt, with a static token\<close>

text \<open>The request and the call of an attempt, and the state once the call is made.\<close>

definition create_request :: "TopicProducer \<Rightarrow> ProducerRequest" where
  "create_request t =
     \<lparr>pr_request_id = tp_request_id t, pr_producer_name = tp_producer_name t,
      pr_topic_name = tp_topic t, pr_schema_ref = tp_schema_ref t,
      pr_producer_access_mode = Shared,
      pr_dispatch_strategy = to_proto (tp_dispatch_strategy t)\<rparr>"

definition tp_call :: "TopicProducer \<Rightarrow> 'w World \<Rightarrow> Channel \<Rightarrow> Call" where
  "tp_call t w ch =
     \<lparr>call_channel = ch,
      call_metadata = static_headers (cm_options (conn_mgr w)) (tp_broker_addr t) (tp_proxy t)\<rparr>"

lemma tp_headers_static:
  assumes "static_token w"
  shows "tp_headers (t, w) =
    (Inr (static_headers (cm_options (conn_mgr w)) (tp_broker_addr t) (tp_proxy t)), (t, w))"
  by (simp add: tp_headers_def run_simps call_headers_static [OF assms])

lemma tp_connect_run:
  obtains conn cm' where "tp_connect (t, w) =
      (Inr (), (t\<lparr>tp_stub := Some (rc_channel conn)\<rparr>, w\<lparr>conn_mgr := cm'\<rparr>))"
    and "cm_options cm' = cm_options (conn_mgr w)"
    and "cm_connections cm' (pool_key (tp_broker_addr t, tp_connect_url t)) = Some conn"
proof -
  obtain conn cm' where
    "on_conn_mgr (get_connection (tp_broker_addr t) (tp_connect_url t)) w = (Inr conn, w\<lparr>conn_mgr := cm'\<rparr>)"
    "cm_options cm' = cm_options (conn_mgr w)"
    "cm_connections cm' (pool_key (tp_broker_addr t, tp_connect_url t)) = Some conn"
    by (rule get_connection_run)
  then show ?thesis by (intro that [of conn cm']) (simp_all add: tp_connect_def run_simps)
qed

lemma tp_try_create_run:
  assumes "static_token w"
  obtains ch cm' where "cm_options cm' = cm_options (conn_mgr w)"
    and "\<exists>conn. cm_connections cm' (pool_key (tp_broker_addr t, tp_connect_url t)) = Some conn
      \<and> rc_channel conn = ch"
    and "tp_try_create E (t, w) =
      (case answer_CreateProducer E (tp_call t w ch) (create_request t) (outside w) of (r, x) \<Rightarrow>
        (let s1 = (t\<lparr>tp_stub := Some ch, tp_request_id := Suc (tp_request_id t)\<rparr>,
                   w\<lparr>conn_mgr := cm',
                     trace := trace w @ [Rpc (tp_call t w ch) (CreateProducer (create_request t))],
                     outside := x\<rparr>)
         in case r of Inl err \<Rightarrow> (Inl (already_exists ''producer'' err), s1)
            | Inr resp \<Rightarrow> tp_created E resp s1))"
proof -
  obtain conn cm' where c: "tp_connect (t, w) =
      (Inr (), (t\<lparr>tp_stub := Some (rc_channel conn)\<rparr>, w\<lparr>conn_mgr := cm'\<rparr>))"
    and opts: "cm_options cm' = cm_options (conn_mgr w)"
    and look: "cm_connections cm' (pool_key (tp_broker_addr t, tp_connect_url t)) = Some conn"
    by (rule tp_connect_run)
  have static: "static_token (w\<lparr>conn_mgr := cm'\<rparr>)"
    using assms opts by (simp add: static_token_def)
  show ?thesis
    by (rule that [OF opts, of "rc_channel conn"])
       (use look in simp,
        simp add: tp_try_create_def run_simps c tp_headers_static [OF static] opts
          create_request_def tp_call_def Let_def split: prod.split sum.split)
qed

lemma tp_try_create_fails:
  assumes "always_retryable (answer_CreateProducer E)" and "static_token (snd s)"
  shows "\<exists>e s1. tp_try_create E s = (Inl e, s1) \<and> is_retryable e \<and> static_token (snd s1)
    \<and> seen is_create (snd s1) = seen is_create (snd s) + 1
    \<and> seen is_sleep (snd s1) = seen is_sleep (snd s)"
proof -
  obtain t w where s: "s = (t, w)" by fastforce
  with assms(2) have "static_token w" by simp
  then obtain ch cm' where opts: "cm_options cm' = cm_options (conn_mgr w)"
    and run: "tp_try_create E (t, w) =
      (case answer_CreateProducer E (tp_call t w ch) (create_request t) (outside w) of (r, x) \<Rightarrow>
        (let s1 = (t\<lparr>tp_stub := Some ch, tp_request_id := Suc (tp_request_id t)\<rparr>,
                   w\<lparr>conn_mgr := cm',
                     trace := trace w @ [Rpc (tp_call t w ch) (CreateProducer (create_request t))],
                     outside := x\<rparr>)
         in case r of Inl err \<Rightarrow> (Inl (already_exists ''producer'' err), s1)
            | Inr resp \<Rightarrow> tp_created E resp s1))"
    by (rule tp_try_create_run)
  obtain code msg x' where ans: "answer_CreateProducer E (tp_call t w ch) (create_request t) (outside w)
      = (Inl (AioRpcError code msg), x')" "is_retryable (AioRpcError code msg)"
    using assms(1) by (fastforce simp: always_retryable_def)
  then have "already_exists ''producer'' (AioRpcError code msg) = AioRpcError code msg" by auto
  with ans run opts \<open>static_token w\<close> show ?thesis
    by (auto simp: s seen_def static_token_def)
qed

lemma tp_create_exhausts:
  fixes s :: "'w tp_state"
  assumes "always_retryable (answer_CreateProducer E)" and "static_token (snd s)"
    and "rm_ok (tp_retry_manager (fst s))"
  shows "\<exists>e s'. tp_create E s = (Inl e, s') \<and> is_retryable e
    \<and> seen is_create (snd s') = seen is_create (snd s) + nat (max_retries (tp_retry_manager (fst s))) + 1
    \<and> seen is_sleep (snd s') = seen is_sleep (snd s) + nat (max_retries (tp_retry_manager (fst s)))"
proof -
  let ?I = "\<lambda>s :: 'w tp_state. static_token (snd s)"
  let ?rm = "tp_retry_manager (fst s)"
  have kept: "?I (snd (tp_lookup_new_broker E s))" "?I (snd (pause E ?rm n s))" if "?I s" for n s
    using static_token_kept [OF tp_lookup_keeps(1) that] static_token_kept [OF pause_keeps(1) that] by auto
  note quiet = seen_kept [OF tp_lookup_quiet] seen_kept [OF pause_counts(2)]
    pause_one_sleep [OF assms(3)]
  have "\<exists>e s'. tp_create E s = (Inl e, s') \<and> is_retryable e \<and> ?I s'
    \<and> seen is_create (snd s') = seen is_create (snd s) + 1 + nat (max_retries ?rm) * (1 + 0)"
  proof (rule tp_retry.start_exhaust [where I = ?I])
    show "\<exists>e s1. tp_try_create E s = (Inl e, s1) \<and> is_retryable e \<and> ?I s1
      \<and> seen is_create (snd s1) = seen is_create (snd s) + 1" if "?I s" for s
      using tp_try_create_fails [OF assms(1) that] by blast
  qed (use assms in \<open>simp_all add: kept quiet\<close>)
  moreover have "\<exists>e s'. tp_create E s = (Inl e, s') \<and> is_retryable e \<and> ?I s'
    \<and> seen is_sleep (snd s') = seen is_sleep (snd s) + 0 + nat (max_retries ?rm) * (0 + 1)"
  proof (rule tp_retry.start_exhaust [where I = ?I])
    show "\<exists>e s1. tp_try_create E s = (Inl e, s1) \<and> is_retryable e \<and> ?I s1
      \<and> seen is_sleep (snd s1) = seen is_sleep (snd s) + 0" if "?I s" for s
      using tp_try_create_fails [OF assms(1) that] by auto
  qed (use assms in \<open>simp_all add: kept quiet\<close>)
  ultimately show ?thesis by auto
qed

section \<open>A created producer\<close>

text \<open>
  The state a successful creation leaves: the stub is made on the pooled channel for the
  producer's addresses, the identifier is the broker's, a task checks this producer on this
  channel, and the schema is resolved if the producer refers to one.
\<close>

definition tp_live :: "64 word \<Rightarrow> 'w tp_state \<Rightarrow> bool" where
  "tp_live pid s \<longleftrightarrow> (case s of (t, w) \<Rightarrow>
     tp_producer_id t = pid \<and>
     (\<exists>conn i. cm_connections (conn_mgr w) (pool_key (tp_broker_addr t, tp_connect_url t)) = Some conn \<and>
        tp_stub t = Some (rc_channel conn) \<and>
        tp_health_task t = Some i \<and> i < length (tasks w) \<and>
        tasks w ! i =
          \<lparr>ht_channel = rc_channel conn, ht_connect_url = tp_connect_url t,
           ht_broker_addr = tp_broker_addr t, ht_proxy = tp_proxy t,
           ht_client_type = ClientProducer, ht_client_id = pid,
           ht_stop_event = tp_stop_event t, ht_pc = AtTop, ht_cancelled = False\<rparr>) \<and>
     (tp_schema_ref t \<noteq> None \<longrightarrow> tp_schema_id t \<noteq> None \<and> tp_schema_version t \<noteq> None))"

lemma tp_created_live:
  assumes run: "tp_created E resp (t, w) = (Inr pid, s')"
    and look: "cm_connections (conn_mgr w) (pool_key (tp_broker_addr t, tp_connect_url t)) = Some conn"
    and stub: "tp_stub t = Some (rc_channel conn)"
  shows "tp_live pid s'"
proof -
  let ?task = "\<lparr>ht_channel = rc_channel conn, ht_connect_url = tp_connect_url t,
      ht_broker_addr = tp_broker_addr t, ht_proxy = tp_proxy t, ht_client_type = ClientProducer,
      ht_client_id = prs_producer_id resp, ht_stop_event = tp_stop_event t, ht_pc = AtTop,
      ht_cancelled = False\<rparr>"
  let ?t2 = "t\<lparr>tp_producer_id := prs_producer_id resp, tp_health_task := Some (length (tasks w))\<rparr>"
  let ?w2 = "w\<lparr>tasks := tasks w @ [?task]\<rparr>"
  have live: "tp_live (prs_producer_id resp) (tt, ww)"
    if "grows ?w2 ww" and "tt = ?t2\<lparr>tp_schema_id := a, tp_schema_version := b\<rparr>"
      and "tp_schema_ref t \<noteq> None \<longrightarrow> a \<noteq> None \<and> b \<noteq> None" and "calm ?w2 ww" for tt ww a b
  proof -
    have "cm_connections (conn_mgr ww) (pool_key (tp_broker_addr t, tp_connect_url t)) = Some conn"
      using that(1) look unfolding grows_def by (simp add: map_le_def) (metis domI)
    moreover have "length (tasks w) < length (tasks ww)" and "tasks ww ! length (tasks w) = ?task"
      using that(4) by (simp_all add: calm_def)
    ultimately show ?thesis
      using stub that(2,3) by (simp add: tp_live_def)
  qed
  note step = start_health_check_hit [OF look]
  show ?thesis
  proof (cases "tp_schema_ref t")
    case None
    with run have "pid = prs_producer_id resp" "s' = (?t2, ?w2)"
      by (auto simp: tp_created_def run_simps step)
    then show ?thesis
      using live [OF grows.refl _ _ calm.refl, where tt = ?t2 and a = "tp_schema_id t" and b = "tp_schema_version t"] None
      by simp
  next
    case (Some ref)
    obtain r w3 where res: "resolve_schema_metadata E (Some ref) ?w2 = (r, w3)" by fastforce
    with Some run obtain a b where "pid = prs_producer_id resp"
      "s' = (?t2\<lparr>tp_schema_id := Some a, tp_schema_version := Some b\<rparr>, w3)"
      by (auto simp: tp_created_def run_simps step split: sum.splits)
    moreover have "grows ?w2 w3" "calm ?w2 w3"
      using staysD [OF resolve_schema_keeps(1) res] staysD [OF resolve_schema_calm(1) res] by simp_all
    ultimately show ?thesis using live by simp
  qed
qed

lemma tp_try_create_live:
  assumes "tp_try_create E s = (Inr pid, s')"
  shows "tp_live pid s'"
proof -
  obtain t w where s: "s = (t, w)" by fastforce
  obtain conn cm' where c: "tp_connect (t, w) =
      (Inr (), (t\<lparr>tp_stub := Some (rc_channel conn)\<rparr>, w\<lparr>conn_mgr := cm'\<rparr>))"
    and look: "cm_connections cm' (pool_key (tp_broker_addr t, tp_connect_url t)) = Some conn"
    by (rule tp_connect_run)
  define t1 where "t1 = t\<lparr>tp_stub := Some (rc_channel conn), tp_request_id := Suc (tp_request_id t)\<rparr>"
  obtain r w2 where h: "tp_headers (t1, w\<lparr>conn_mgr := cm'\<rparr>) = (r, (t1, w2))"
    by (cases "tp_headers (t1, w\<lparr>conn_mgr := cm'\<rparr>)")
       (auto simp: tp_headers_def run_simps split: prod.splits)
  have g2: "grows (w\<lparr>conn_mgr := cm'\<rparr>) w2"
    using staysD [OF tp_headers_keeps(1) h] by (simp add: on_world_def)
  from assms s c h obtain resp w3 where created: "tp_created E resp (t1, w3) = (Inr pid, s')"
    and "conn_mgr w3 = conn_mgr w2"
    by (auto simp: tp_try_create_def run_simps t1_def [symmetric] split: sum.splits prod.splits)
       (auto simp: t1_def run_simps split: sum.splits prod.splits)
  moreover have "cm_connections (conn_mgr w2) (pool_key (tp_broker_addr t, tp_connect_url t)) = Some conn"
    using g2 look unfolding grows_def by (simp add: map_le_def) (metis domI)
  ultimately show ?thesis
    by (intro tp_created_live [OF created, of conn]) (simp_all add: t1_def)
qed

lemma tp_create_live:
  assumes "tp_create E s = (Inr pid, s')" and "rm_ok (tp_retry_manager (fst s))"
  shows "tp_live pid s'"
  by (rule tp_retry.start_success [OF tp_try_create_live assms])

section \<open>Sending, with a static token\<close>

definition send_request ::
  "TopicProducer \<Rightarrow> nat \<Rightarrow> bytes \<Rightarrow> (string \<times> string) list option \<Rightarrow> string option \<Rightarrow> StreamMessage" where
  "send_request t now data attributes routing_key =
     \<lparr>sm_request_id = tp_request_id t,
      sm_msg_id = \<lparr>mi_producer_id = tp_producer_id t, mi_topic_name = tp_topic t,
        mi_broker_addr = tp_broker_addr t, mi_topic_offset = 0\<rparr>,
      sm_payload = data, sm_publish_time = now, sm_producer_name = tp_producer_name t,
      sm_subscription_name = '''', sm_attributes = (case attributes of None \<Rightarrow> [] | Some a \<Rightarrow> a),
      sm_schema_id = tp_schema_id t, sm_schema_version = tp_schema_version t,
      sm_routing_key = routing_key\<rparr>"

lemma tp_send_run:
  assumes "static_token w" and "tp_stub t = Some ch"
    and "clock_ms E (outside w) = (now, x1)"
    and "answer_SendMessage E (tp_call t w ch) (send_request t now d a k) x1 = (r, x2)"
  shows "tp_send E d a k (t, w) =
    (map_sum id mrs_request_id r,
     (t\<lparr>tp_request_id := Suc (tp_request_id t)\<rparr>,
      w\<lparr>trace := trace w @ [Rpc (tp_call t w ch) (SendMessage (send_request t now d a k))],
        outside := x2\<rparr>))"
proof -
  have "static_token (w\<lparr>outside := x1\<rparr>)" using assms(1) by (simp add: static_token_def)
  from tp_headers_static [OF this] assms show ?thesis
    by (cases r) (simp_all add: tp_send_def run_simps send_request_def tp_call_def Let_def)
qed

lemma tp_send_disconnected:
  "tp_stub t = None \<Longrightarrow>
     tp_send E d a k (t, w) = (Inl (UnrecoverableError ''send: producer is not connected''), (t, w))"
  by (simp add: tp_send_def run_simps)

section \<open>Request identifiers\<close>

fun tp_obs_id :: "obs \<Rightarrow> nat option" where
  "tp_obs_id (Rpc _ (CreateProducer r)) = Some (pr_request_id r)"
| "tp_obs_id (Rpc _ (SendMessage m)) = Some (sm_request_id m)"
| "tp_obs_id _ = None"

definition ids_of :: "obs list \<Rightarrow> nat list" where
  "ids_of tr = List.map_filter tp_obs_id tr"

text \<open>The identifiers a step uses are new, below the counter it leaves, and in increasing order.\<close>

definition ids_up :: "'w tp_state \<Rightarrow> 'w tp_state \<Rightarrow> bool" where
  "ids_up s s' \<longleftrightarrow> tp_request_id (fst s) \<le> tp_request_id (fst s') \<and>
     (\<exists>tr. trace (snd s') = trace (snd s) @ tr \<and> sorted_wrt (<) (ids_of tr) \<and>
        (\<forall>i \<in> set (ids_of tr). tp_request_id (fst s) \<le> i \<and> i < tp_request_id (fst s')))"

lemma ids_of_append [simp]: "ids_of (a @ b) = ids_of a @ ids_of b"
  by (simp add: ids_of_def List.map_filter_def)

lemma ids_of_Nil [simp]: "ids_of [] = []"
  by (simp add: ids_of_def List.map_filter_def)

lemma ids_of_none: "list_all (\<lambda>ob. tp_obs_id ob = None) tr \<Longrightarrow> ids_of tr = []"
  by (induction tr) (simp_all add: ids_of_def List.map_filter_def)

interpretation ids_up: evolution ids_up
proof
  show "ids_up s s" for s :: "'w tp_state" by (simp add: ids_up_def)
  show "ids_up s u" if "ids_up s t" and "ids_up t u" for s t u :: "'w tp_state"
  proof -
    from that(1) obtain a where a: "tp_request_id (fst s) \<le> tp_request_id (fst t)"
      "trace (snd t) = trace (snd s) @ a" "sorted_wrt (<) (ids_of a)"
      "\<forall>i \<in> set (ids_of a). tp_request_id (fst s) \<le> i \<and> i < tp_request_id (fst t)"
      unfolding ids_up_def by blast
    from that(2) obtain b where b: "tp_request_id (fst t) \<le> tp_request_id (fst u)"
      "trace (snd u) = trace (snd t) @ b" "sorted_wrt (<) (ids_of b)"
      "\<forall>i \<in> set (ids_of b). tp_request_id (fst t) \<le> i \<and> i < tp_request_id (fst u)"
      unfolding ids_up_def by blast
    from a b have "sorted_wrt (<) (ids_of (a @ b))"
      by (force simp: sorted_wrt_append)
    with a b show ?thesis
      unfolding ids_up_def by (intro conjI exI [of _ "a @ b"]) force+
  qed
qed

text \<open>A step that leaves the counter alone and uses no identifier.\<close>

lemma ids_up_quiet:
  assumes "emits (\<lambda>ob. tp_obs_id ob = None) w w'" and "tp_request_id t' = tp_request_id t"
  shows "ids_up (t, w) (t', w')"
  using assms ids_of_none by (fastforce simp: ids_up_def emits_def)

lemma ids_up_call:
  assumes "trace w' = trace w @ [ob]" and "tp_obs_id ob = Some (tp_request_id t)"
    and "tp_request_id t' = Suc (tp_request_id t)"
  shows "ids_up (t, w) (t', w')"
  using assms by (auto simp: ids_up_def ids_of_def List.map_filter_def)

lemma tp_headers_frame:
  obtains r w' where "tp_headers (t, w) = (r, (t, w'))" and "trace w' = trace w" and "grows w w'"
proof -
  obtain r s where h: "tp_headers (t, w) = (r, s)" by (meson surj_pair)
  then have fst: "fst s = t"
    by (auto simp: tp_headers_def run_simps split: prod.splits)
  from staysD [OF tp_headers_keeps(1) h] have "grows w (snd s)" by (simp add: on_world_def)
  moreover from staysD [OF tp_headers_keeps(2) [of "\<lambda>_. False"] h] have "trace (snd s) = trace w"
    by (auto simp: on_world_def emits_def list_all_iff)
  ultimately show ?thesis using h fst by (intro that [of r "snd s"]) auto
qed

lemma other_ids [simp]:
  "is_lookup ob \<Longrightarrow> tp_obs_id ob = None" "is_registry_call ob \<Longrightarrow> tp_obs_id ob = None"
  by (cases ob rule: tp_obs_id.cases; simp add: is_registry_call_def)+

lemma tp_created_same_id: "tp_request_id (fst (snd (tp_created E resp s))) = tp_request_id (fst s)"
  by (cases s) (auto simp: tp_created_def run_simps split: prod.splits sum.splits)

lemma tp_lookup_same_id:
  "tp_request_id (fst (snd (tp_lookup_new_broker E s))) = tp_request_id (fst s)"
  by (cases s) (auto simp: tp_lookup_new_broker_def run_simps split: prod.splits sum.splits)

lemma tp_try_create_ids:
  fixes E :: "'w Outside"
  shows "stays ids_up (tp_try_create E)"
proof (rule staysI)
  fix s :: "'w tp_state"
  obtain t w where s: "s = (t, w)" by (meson surj_pair)
  obtain conn cm' where c: "tp_connect (t, w) =
      (Inr (), (t\<lparr>tp_stub := Some (rc_channel conn)\<rparr>, w\<lparr>conn_mgr := cm'\<rparr>))"
    and "cm_options cm' = cm_options (conn_mgr w)"
    and "cm_connections cm' (pool_key (tp_broker_addr t, tp_connect_url t)) = Some conn"
    by (rule tp_connect_run)
  define t1 where "t1 = t\<lparr>tp_stub := Some (rc_channel conn), tp_request_id := Suc (tp_request_id t)\<rparr>"
  obtain r w2 where h: "tp_headers (t1, w\<lparr>conn_mgr := cm'\<rparr>) = (r, (t1, w2))"
    and tr: "trace w2 = trace w"
    by (rule tp_headers_frame [of t1 "w\<lparr>conn_mgr := cm'\<rparr>"]) (rule that, assumption, simp)
  show "ids_up s (snd (tp_try_create E s))"
  proof (cases r)
    case (Inl e)
    have "snd (tp_try_create E s) = (t1, w2)"
      using s c h Inl by (simp add: tp_try_create_def run_simps t1_def)
    with tr s show ?thesis by (simp add: ids_up_def t1_def)
  next
    case (Inr md)
    define call where "call = \<lparr>call_channel = rc_channel conn, call_metadata = md\<rparr>"
    obtain a x where ans: "answer_CreateProducer E call (create_request t) (outside w2) = (a, x)"
      by (meson surj_pair)
    define s3 where "s3 = (t1, w2\<lparr>trace := trace w2 @ [Rpc call (CreateProducer (create_request t))],
        outside := x\<rparr>)"
    have run: "snd (tp_try_create E s) = (case a of Inl e \<Rightarrow> s3 | Inr resp \<Rightarrow> snd (tp_created E resp s3))"
      using s c h Inr ans
      by (simp add: tp_try_create_def run_simps t1_def s3_def call_def create_request_def split: sum.split)
    have first: "ids_up s s3"
      unfolding s s3_def by (rule ids_up_call [where ob = "Rpc call (CreateProducer (create_request t))"])
        (simp_all add: tr t1_def create_request_def)
    have rest: "ids_up s3 (snd (tp_created E resp s3))" for resp
    proof -
      have "on_world (emits (\<lambda>ob. tp_obs_id ob = None)) s3 (snd (tp_created E resp s3))"
        by (rule stays_snd) (intro stays_rules, simp)
      then show ?thesis
        using ids_up_quiet [of "snd s3" "snd (snd (tp_created E resp s3))" "fst (snd (tp_created E resp s3))" "fst s3"]
        by (simp add: on_world_def tp_created_same_id)
    qed
    show ?thesis
      using first rest by (auto simp: run intro: ids_up.trans split: sum.split)
  qed
qed

lemma tp_quiet_ids:
  fixes m :: "('w tp_state, 'a) py"
  assumes "stays (on_world (emits (\<lambda>ob. tp_obs_id ob = None))) m"
    and "\<And>s. tp_request_id (fst (snd (m s))) = tp_request_id (fst s)"
  shows "stays ids_up m"
proof (rule staysI)
  fix s :: "'w tp_state"
  have "on_world (emits (\<lambda>ob. tp_obs_id ob = None)) s (snd (m s))"
    using assms(1) by (rule stays_snd)
  then show "ids_up s (snd (m s))"
    using ids_up_quiet [of "snd s" "snd (snd (m s))" "fst (snd (m s))" "fst s"] assms(2)
    by (simp add: on_world_def)
qed

lemma tp_lookup_ids: "stays ids_up (tp_lookup_new_broker E)"
  by (rule tp_quiet_ids) (intro stays_rules, simp, rule tp_lookup_same_id)

lemma pause_ids: "stays ids_up (pause E rm n)"
  by (rule tp_quiet_ids) (intro stays_rules, simp, simp add: pause_self)

lemma tp_create_ids:
  assumes "rm_ok (tp_retry_manager (fst s))"
  shows "ids_up s (snd (tp_create E s))"
  by (rule tp_retry.start_stays [OF ids_up.evolution_axioms tp_try_create_ids tp_lookup_ids pause_ids assms])

lemma tp_send_ids:
  fixes E :: "'w Outside"
  shows "stays ids_up (tp_send E d a k)"
proof (rule staysI)
  fix s :: "'w tp_state"
  obtain t w where s: "s = (t, w)" by (meson surj_pair)
  show "ids_up s (snd (tp_send E d a k s))"
  proof (cases "tp_stub t")
    case None
    then show ?thesis by (simp add: s tp_send_disconnected ids_up.refl)
  next
    case (Some ch)
    obtain now x where clock: "clock_ms E (outside w) = (now, x)" by (meson surj_pair)
    define t1 where "t1 = t\<lparr>tp_request_id := Suc (tp_request_id t)\<rparr>"
    obtain r w2 where h: "tp_headers (t1, w\<lparr>outside := x\<rparr>) = (r, (t1, w2))"
      and tr: "trace w2 = trace w"
      by (rule tp_headers_frame [of t1 "w\<lparr>outside := x\<rparr>"]) (rule that, assumption, simp)
    have new: "ids_up (t, w) (t1, w3)" if "trace w3 = trace w \<or>
      (\<exists>call m. trace w3 = trace w @ [Rpc call (SendMessage m)] \<and> sm_request_id m = tp_request_id t)" for w3
      using that by (auto simp: ids_up_def t1_def ids_of_def List.map_filter_def)
    show ?thesis
      using s Some clock h tr
      by (auto simp: tp_send_def run_simps t1_def [symmetric] Let_def intro!: new
          split: sum.split prod.split)
  qed
qed

section \<open>What a producer never changes of itself\<close>

definition tp_identity ::
  "TopicProducer \<Rightarrow> string \<times> string \<times> SchemaReference option \<times> DispatchStrategy \<times> RetryManager \<times> nat" where
  "tp_identity t = (tp_topic t, tp_producer_name t, tp_schema_ref t, tp_dispatch_strategy t,
     tp_retry_manager t, tp_stop_event t)"

abbreviation fixed_tp :: "'w tp_state \<Rightarrow> 'w tp_state \<Rightarrow> bool" where
  "fixed_tp \<equiv> same (\<lambda>s. tp_identity (fst s))"

lemma fixed_primitive [stays_rules]:
  "stays fixed_tp (get_self f)" "stays fixed_tp (on_snd m)"
  "(\<And>t. tp_identity (g t) = tp_identity t) \<Longrightarrow> stays fixed_tp (set_self g)"
proof -
  show "stays fixed_tp (on_snd m)"
    by (auto intro!: staysI simp: on_snd_def same_def split: prod.split)
qed (auto simp: get_self_def set_self_def same_def intro!: same.steps stays_modify)

lemma tp_identity_update [simp]:
  "tp_identity (t\<lparr>tp_producer_id := a\<rparr>) = tp_identity t"
  "tp_identity (t\<lparr>tp_request_id := b\<rparr>) = tp_identity t"
  "tp_identity (t\<lparr>tp_schema_id := c\<rparr>) = tp_identity t"
  "tp_identity (t\<lparr>tp_schema_version := d\<rparr>) = tp_identity t"
  "tp_identity (t\<lparr>tp_stub := f\<rparr>) = tp_identity t"
  "tp_identity (t\<lparr>tp_health_task := g\<rparr>) = tp_identity t"
  "tp_identity (t\<lparr>tp_broker_addr := h\<rparr>) = tp_identity t"
  "tp_identity (t\<lparr>tp_connect_url := h\<rparr>) = tp_identity t"
  "tp_identity (t\<lparr>tp_proxy := i\<rparr>) = tp_identity t"
  by (simp_all add: tp_identity_def)

lemma fixed_parts [stays_rules]:
  "stays fixed_tp tp_next_id" "stays fixed_tp tp_headers" "stays fixed_tp tp_connect"
  "stays fixed_tp (tp_lookup_new_broker E)" "stays fixed_tp (tp_created E resp)"
  unfolding tp_next_id_def tp_headers_def tp_connect_def tp_lookup_new_broker_def tp_created_def
  by (auto intro!: same.steps stays_rules split: prod.split)

lemma fixed_methods [stays_rules]:
  "stays fixed_tp (tp_try_create E)" "stays fixed_tp (pause E rm n)"
  "stays fixed_tp (tp_send E d a k)" "stays fixed_tp tp_stop"
  unfolding tp_try_create_def pause_def tp_send_def tp_stop_def Let_def
  by (auto intro!: same.steps stays_rules split: option.split)

lemma tp_create_identity:
  assumes "rm_ok (tp_retry_manager (fst s))"
  shows "tp_identity (fst (snd (tp_create E s))) = tp_identity (fst s)"
proof -
  have "fixed_tp s (snd (tp_create E s))"
    by (rule tp_retry.start_stays [OF same.evolution_axioms _ _ _ assms]) (intro stays_rules)+
  then show ?thesis by (simp add: same_def)
qed

section \<open>A creation that succeeds\<close>

definition always_creates :: "'w Outside \<Rightarrow> bool" where
  "always_creates E \<longleftrightarrow>
     (\<forall>call q x. \<exists>resp x'. answer_CreateProducer E call q x = (Inr resp, x'))"

lemma tp_create_succeeds:
  assumes "always_creates E" and "static_token (snd s)" and "tp_schema_ref (fst s) = None"
  obtains pid s' where "tp_create E s = (Inr pid, s')"
proof -
  obtain t w where s1: "snd (tp_lookup_new_broker E s) = (t, w)" by (meson surj_pair)
  have static: "static_token w"
    using static_token_kept [OF tp_lookup_keeps(1) assms(2), of E] s1 by simp
  have "tp_identity t = tp_identity (fst s)"
    using stays_snd [OF fixed_parts(4), of s E] s1 by (simp add: same_def)
  then have ref: "tp_schema_ref t = None" using assms(3) by (simp add: tp_identity_def)
  have "\<exists>pid s'. tp_try_create E (t, w) = (Inr pid, s')"
  proof (rule tp_try_create_run [OF static, of t E])
    fix ch cm'
    assume look: "\<exists>conn. cm_connections cm' (pool_key (tp_broker_addr t, tp_connect_url t)) = Some conn
        \<and> rc_channel conn = ch"
      and run: "tp_try_create E (t, w) =
        (case answer_CreateProducer E (tp_call t w ch) (create_request t) (outside w) of (r, x) \<Rightarrow>
        (let s1 = (t\<lparr>tp_stub := Some ch, tp_request_id := Suc (tp_request_id t)\<rparr>,
                   w\<lparr>conn_mgr := cm',
                     trace := trace w @ [Rpc (tp_call t w ch) (CreateProducer (create_request t))],
                     outside := x\<rparr>)
         in case r of Inl err \<Rightarrow> (Inl (already_exists ''producer'' err), s1)
            | Inr resp \<Rightarrow> tp_created E resp s1))"
    obtain resp x where ans: "answer_CreateProducer E (tp_call t w ch) (create_request t) (outside w)
        = (Inr resp, x)" using assms(1) unfolding always_creates_def by blast
    from look obtain conn where "cm_connections cm' (pool_key (tp_broker_addr t, tp_connect_url t)) = Some conn"
      by blast
    then have hit: "cm_connections (conn_mgr (w\<lparr>conn_mgr := cm', trace := tr, outside := x\<rparr>))
        (pool_key (tp_broker_addr t, tp_connect_url t)) = Some conn" for tr x
      by simp
    show ?thesis
      unfolding run by (simp add: ans tp_created_def run_simps ref start_health_check_hit [OF hit])
  qed
  then show ?thesis
    using that tp_retry.start_first [of E s] s1 by metis
qed

text \<open>What stays of a created producer while the rest of the client goes on.\<close>

definition tp_ready :: "TopicProducer \<Rightarrow> 'w World \<Rightarrow> bool" where
  "tp_ready t w \<longleftrightarrow>
     (\<exists>conn i. cm_connections (conn_mgr w) (pool_key (tp_broker_addr t, tp_connect_url t)) = Some conn \<and>
        tp_stub t = Some (rc_channel conn) \<and> tp_health_task t = Some i \<and> i < length (tasks w) \<and>
        frozen (tasks w ! i) = frozen
          \<lparr>ht_channel = rc_channel conn, ht_connect_url = tp_connect_url t,
           ht_broker_addr = tp_broker_addr t, ht_proxy = tp_proxy t,
           ht_client_type = ClientProducer, ht_client_id = tp_producer_id t,
           ht_stop_event = tp_stop_event t, ht_pc = AtTop, ht_cancelled = False\<rparr>) \<and>
     (tp_schema_ref t \<noteq> None \<longrightarrow> tp_schema_id t \<noteq> None \<and> tp_schema_version t \<noteq> None)"

lemma tp_live_ready: "tp_live pid (t, w) \<Longrightarrow> tp_ready t w"
  by (auto simp: tp_live_def tp_ready_def)

lemma tp_ready_grows: "tp_ready t v \<Longrightarrow> grows v w \<Longrightarrow> tp_ready t w"
proof -
  assume ready: "tp_ready t v" and g: "grows v w"
  have conn: "cm_connections (conn_mgr v) k = Some c \<Longrightarrow> cm_connections (conn_mgr w) k = Some c" for k c
    using g unfolding grows_def map_le_def by (metis domI)
  have "i < length (tasks v) \<Longrightarrow> i < length (tasks w)" for i
    using grows_tasks(1) [OF g] by simp
  with ready conn grows_tasks(2) [OF g] show "tp_ready t w"
    unfolding tp_ready_def by (metis (no_types, lifting))
qed

lemma tp_create_grows:
  "rm_ok (tp_retry_manager (fst s)) \<Longrightarrow> on_world grows s (snd (tp_create E s))"
  by (rule tp_retry.start_stays [OF ow_grows.evolution_axioms]) (intro stays_rules | assumption)+

text \<open>A creation calls the lookup, the broker's \<open>CreateProducer\<close> and the registry, and sleeps.\<close>

lemma tp_create_emits:
  assumes "rm_ok (tp_retry_manager (fst s))"
    and "\<And>ob. is_lookup ob \<or> is_create ob \<or> is_registry_call ob \<or> is_sleep ob \<Longrightarrow> P ob"
  shows "on_world (emits P) s (snd (tp_create E s))"
proof (rule tp_retry.start_stays [OF ow_emits.evolution_axioms _ _ _ assms(1)])
  show "stays (on_world (emits P)) (tp_try_create E)"
    by (rule tp_try_create_keeps(2)) (simp_all add: assms(2))
  show "stays (on_world (emits P)) (tp_lookup_new_broker E)"
    by (rule tp_lookup_keeps(2)) (simp add: assms(2))
  show "stays (on_world (emits P)) (pause E (tp_retry_manager (fst s)) n)" for n
    by (rule pause_keeps(2)) (simp add: assms(2))
qed

end
