(* ===== verification/Gather.thy ===== *)
theory Gather
  imports World
begin

text \<open>
  \<open>asyncio.gather\<close>, as \<open>Producer.create\<close> and \<open>Consumer.subscribe\<close> use it: every coroutine runs to
  its end, the first exception to occur is raised, and without one the results come in the order
  of the arguments. The event loop decides in which order they finish: \<open>order\<close> is that order, any
  permutation of the indices. Coroutines are run one after the other in this order; that two of
  them take turns at their awaits is not modelled.
\<close>

fun gather_run ::
  "nat list \<Rightarrow> (nat \<Rightarrow> ('s, 'a) py) \<Rightarrow> 's \<Rightarrow> (exn option \<times> (nat \<rightharpoonup> 'a)) \<times> 's" where
  "gather_run [] f s = ((None, \<lambda>_. None), s)"
| "gather_run (i # order) f s =
     (case f i s of (r, s1) \<Rightarrow>
       (case gather_run order f s1 of ((e, xs), s2) \<Rightarrow>
         (case r of
            Inl err \<Rightarrow> ((Some err, xs), s2)
          | Inr x \<Rightarrow> ((e, xs(i \<mapsto> x)), s2))))"

definition gather :: "nat list \<Rightarrow> ('s, 'a) py list \<Rightarrow> ('s, 'a list) py" where
  "gather order ms = (\<lambda>s.
     (case gather_run order (\<lambda>i. ms ! i) s of ((e, xs), s') \<Rightarrow>
       (case e of
          Some err \<Rightarrow> (Inl err, s')
        | None \<Rightarrow> (Inr (map (\<lambda>i. the (xs i)) [0..<length ms]), s'))))"

definition schedule :: "nat list \<Rightarrow> nat \<Rightarrow> bool" where
  "schedule order n \<longleftrightarrow> distinct order \<and> set order = {..<n}"

lemma schedule_upt [simp, intro]: "schedule [0..<n] n"
  by (auto simp: schedule_def)

lemma schedule_Nil_iff [simp]: "schedule order 0 \<longleftrightarrow> order = []"
  by (auto simp: schedule_def)

text \<open>An invariant of the state and the results so far.\<close>

lemma gather_run_invar:
  assumes "gather_run order f s = ((e, xs), s')" and "distinct order" and "P m s"
    and "dom m \<inter> set order = {}" and "set order \<subseteq> I"
    and ok: "\<And>i m s x s1. i \<in> I \<Longrightarrow> i \<notin> dom m \<Longrightarrow> P m s \<Longrightarrow> f i s = (Inr x, s1)
      \<Longrightarrow> P (m(i \<mapsto> x)) s1"
    and fail: "\<And>i m s err s1. i \<in> I \<Longrightarrow> i \<notin> dom m \<Longrightarrow> P m s \<Longrightarrow> f i s = (Inl err, s1)
      \<Longrightarrow> P m s1"
  shows "P (m ++ xs) s' \<and> dom xs \<subseteq> set order \<and> (e = None \<longrightarrow> dom xs = set order)"
  using assms(1-5)
proof (induction order arbitrary: s m e xs s')
  case Nil
  then show ?case by auto
next
  case (Cons i order)
  obtain r s1 where r: "f i s = (r, s1)" by (meson surj_pair)
  obtain e1 xs1 s2 where rest: "gather_run order f s1 = ((e1, xs1), s2)"
    by (metis surj_pair)
  have i: "i \<in> I" "i \<notin> dom m" using Cons.prems(4,5) by auto
  show ?case
  proof (cases r)
    case (Inl err)
    have "P m s1" using fail [OF i Cons.prems(3)] r Inl by simp
    then have "P (m ++ xs1) s2 \<and> dom xs1 \<subseteq> set order \<and> (e1 = None \<longrightarrow> dom xs1 = set order)"
      using Cons.prems(2,4,5) by (intro Cons.IH [OF rest]) auto
    with Cons.prems(1) r rest Inl show ?thesis by (simp, blast)
  next
    case (Inr x)
    have "P (m(i \<mapsto> x)) s1" using ok [OF i Cons.prems(3)] r Inr by simp
    moreover have "dom (m(i \<mapsto> x)) \<inter> set order = {}" using Cons.prems(2,4) by auto
    ultimately have IH: "P (m(i \<mapsto> x) ++ xs1) s2 \<and> dom xs1 \<subseteq> set order
        \<and> (e1 = None \<longrightarrow> dom xs1 = set order)"
      using Cons.IH [OF rest] Cons.prems(2,5) by (simp del: dom_fun_upd fun_upd_apply)
    moreover have "m(i \<mapsto> x) ++ xs1 = m ++ xs1(i \<mapsto> x)"
    proof -
      have "xs1 i = None" using IH Cons.prems(2) by (simp add: domIff) blast
      then show ?thesis by (auto simp: map_add_def fun_eq_iff split: option.split)
    qed
    moreover have "xs = xs1(i \<mapsto> x)" "e = e1" "s' = s2"
      using Cons.prems(1) r rest Inr by simp_all
    ultimately show ?thesis
      by (simp del: fun_upd_apply map_add_upd) auto
  qed
qed

lemma gather_stays:
  assumes "evolution R" and "\<And>i. i \<in> set order \<Longrightarrow> stays R (ms ! i)"
  shows "stays R (gather order ms)"
proof (rule staysI)
  fix s
  have "R s (snd (gather_run order (\<lambda>i. ms ! i) s))"
    using assms(2)
  proof (induction order arbitrary: s)
    case Nil
    show ?case by (simp add: evolution.refl [OF assms(1)])
  next
    case (Cons i order)
    obtain r s1 where r: "(ms ! i) s = (r, s1)" by (meson surj_pair)
    then have "R s s1" using Cons.prems by (auto dest: staysD)
    moreover obtain e xs s2 where rest: "gather_run order (\<lambda>i. ms ! i) s1 = ((e, xs), s2)"
      by (metis surj_pair)
    moreover have "R s1 s2" using Cons.IH [of s1] Cons.prems rest by simp
    ultimately have "R s s2" by (blast intro: evolution.trans [OF assms(1)])
    with r rest show ?case by (simp split: sum.split)
  qed
  then show "R s (snd (gather order ms s))"
    by (auto simp: gather_def split: prod.splits option.split)
qed

lemma gather_cases:
  assumes "gather order ms s = (r, s')"
  obtains e xs where "gather_run order (\<lambda>i. ms ! i) s = ((e, xs), s')"
    and "r = (case e of Some err \<Rightarrow> Inl err | None \<Rightarrow> Inr (map (\<lambda>i. the (xs i)) [0..<length ms]))"
proof -
  obtain e xs s2 where run: "gather_run order (\<lambda>i. ms ! i) s = ((e, xs), s2)" by (metis surj_pair)
  with assms show ?thesis
    by (intro that [of e xs]) (auto simp: gather_def split: option.splits)
qed

text \<open>Without a failure there is a result.\<close>

lemma gather_succeeds:
  assumes "\<And>i s. i \<in> set order \<Longrightarrow> I s \<Longrightarrow> \<exists>x s1. (ms ! i) s = (Inr x, s1) \<and> I s1" and "I s"
  shows "\<exists>xs s'. gather order ms s = (Inr xs, s')"
proof -
  have "\<exists>xs s'. gather_run order (\<lambda>i. ms ! i) s = ((None, xs), s')"
    using assms
  proof (induction order arbitrary: s)
    case (Cons i order)
    obtain x s1 where "(ms ! i) s = (Inr x, s1)" "I s1" using Cons.prems by force
    moreover from this obtain xs s' where "gather_run order (\<lambda>i. ms ! i) s1 = ((None, xs), s')"
      using Cons.IH [of s1] Cons.prems(1) by force
    ultimately show ?case by simp
  qed simp
  then show ?thesis by (auto simp: gather_def)
qed

end
