(* ===== verification/Producer.thy ===== *)
theory Producer
  imports MessageRouter TopicProducer Gather
begin

text \<open>
  \<open>danube/producer.py\<close>: the producer of an application, over one topic producer or one for each
  partition, and its builder. Its methods work on the pair of the object and the world of its
  client. \<open>_producers\<close> holds the only references to its topic producers, so they are stored in
  the list itself. The lock makes creation and the choice of a partition atomic; the sending loop
  runs outside it and may not end, which is the value \<open>None\<close> of \<open>send_loop\<close>.
\<close>

record ProducerOptions =
  po_max_retries :: int
  po_base_backoff_ms :: int
  po_max_backoff_ms :: int

definition default_ProducerOptions :: ProducerOptions where
  "default_ProducerOptions = \<lparr>po_max_retries = 0, po_base_backoff_ms = 0, po_max_backoff_ms = 0\<rparr>"

record Producer =
  p_topic_name :: string
  p_producer_name :: string
  p_partitions :: int
  p_schema_ref :: "SchemaReference option"
  p_dispatch_strategy :: DispatchStrategy
  p_options :: ProducerOptions
  p_producers :: "TopicProducer option list"
  p_message_router :: "MessageRouter option"

definition new_Producer ::
  "string \<Rightarrow> string \<Rightarrow> int \<Rightarrow> SchemaReference option \<Rightarrow> DispatchStrategy \<Rightarrow> ProducerOptions \<Rightarrow> Producer" where
  "new_Producer topic name partitions schema_ref strategy options =
     \<lparr>p_topic_name = topic, p_producer_name = name, p_partitions = partitions,
      p_schema_ref = schema_ref, p_dispatch_strategy = strategy, p_options = options,
      p_producers = [], p_message_router = None\<rparr>"

type_synonym 'w p_state = "Producer \<times> 'w World"

text \<open>\<open>RetryManager(options.max_retries, options.base_backoff_ms, options.max_backoff_ms)\<close>\<close>

definition retry_of :: "ProducerOptions \<Rightarrow> RetryManager" where
  "retry_of opts = new_RetryManager (po_max_retries opts) (po_base_backoff_ms opts) (po_max_backoff_ms opts)"

section \<open>Creation\<close>

text \<open>\<open>TopicProducer(client=..., topic=topic, producer_name=name, ...)\<close>\<close>

definition p_topic_producer :: "string \<Rightarrow> string \<Rightarrow> ('w p_state, TopicProducer) py" where
  "p_topic_producer topic name =
     bnd (get_self id) (\<lambda>p.
     on_snd (new_TopicProducer topic name (p_schema_ref p) (p_dispatch_strategy p)
       (po_max_retries (p_options p)) (po_base_backoff_ms (p_options p))
       (po_max_backoff_ms (p_options p))))"

text \<open>\<open>await tp.create()\<close> on an object that only the caller holds: the object afterwards.\<close>

definition created :: "'w Outside \<Rightarrow> TopicProducer \<Rightarrow> ('w World, TopicProducer) py" where
  "created E tp = (\<lambda>w. case tp_create E (tp, w) of (r, (tp', w')) \<Rightarrow>
     (case r of Inl e \<Rightarrow> (Inl e, w') | Inr pid \<Rightarrow> (Inr tp', w')))"

text \<open>\<open>_create_one\<close>, on the local list \<open>producers\<close> and the world.\<close>

definition create_one ::
  "'w Outside \<Rightarrow> nat \<Rightarrow> TopicProducer \<Rightarrow> (TopicProducer option list \<times> 'w World, unit) py" where
  "create_one E idx tp =
     bnd (on_snd (created E tp)) (\<lambda>tp.
     modify (\<lambda>(producers, w). (producers[idx := Some tp], w)))"

definition part_topic :: "string \<Rightarrow> int \<Rightarrow> string" where
  "part_topic topic pid = topic @ ''-part-'' @ str_int pid"

definition part_name :: "string \<Rightarrow> int \<Rightarrow> string" where
  "part_name name pid = name @ ''-'' @ str_int pid"

text \<open>The gathered creation of the partitions: the filled list.\<close>

definition create_parts ::
  "'w Outside \<Rightarrow> nat list \<Rightarrow> TopicProducer list \<Rightarrow> ('w World, TopicProducer option list) py" where
  "create_parts E order tps = (\<lambda>w.
     (case gather order (map2 (create_one E) [0..<length tps] tps) (replicate (length tps) None, w) of
        (r, (producers, w')) \<Rightarrow>
          (case r of Inl e \<Rightarrow> (Inl e, w') | Inr _ \<Rightarrow> (Inr producers, w'))))"

definition p_create :: "'w Outside \<Rightarrow> nat list \<Rightarrow> ('w p_state, unit) py" where
  "p_create E order =
     bnd (get_self id) (\<lambda>p.
     if p_partitions p = 0 then
       bnd (p_topic_producer (p_topic_name p) (p_producer_name p)) (\<lambda>tp.
       bnd (on_snd (created E tp)) (\<lambda>tp.
       set_self (\<lambda>p. p\<lparr>p_producers := [Some tp]\<rparr>)))
     else
       seq (set_self (\<lambda>p. p\<lparr>p_message_router := Some (new_MessageRouter (p_partitions p))\<rparr>)) (
       bnd (for_each (\<lambda>pid. p_topic_producer (part_topic (p_topic_name p) pid)
                               (part_name (p_producer_name p) pid))
             (map int [0..<nat (p_partitions p)])) (\<lambda>tasks.
       bnd (on_snd (create_parts E order tasks)) (\<lambda>producers.
       set_self (\<lambda>p. p\<lparr>p_producers := producers\<rparr>)))))"

section \<open>The choice of a partition\<close>

text \<open>A method of \<open>self._message_router\<close>.\<close>

definition on_router :: "(MessageRouter, int) py \<Rightarrow> ('w p_state, int) py" where
  "on_router m = (\<lambda>(p, w).
     (case p_message_router p of
        None \<Rightarrow> (Inl AttributeError, (p, w))
      | Some r \<Rightarrow> (case m r of (x, r') \<Rightarrow> (x, (p\<lparr>p_message_router := Some r'\<rparr>, w)))))"

definition select_partition :: "('w p_state, int) py" where
  "select_partition =
     bnd (get_self id) (\<lambda>p.
     if p_partitions p > 0 \<and> p_message_router p \<noteq> None then on_router round_robin
     else ret 0)"

definition select_partition_for_key :: "string \<Rightarrow> ('w p_state, int) py" where
  "select_partition_for_key routing_key =
     bnd (get_self id) (\<lambda>p.
     if p_partitions p > 0 \<and> p_message_router p \<noteq> None
     then on_router (\<lambda>r. (key_route r routing_key, r))
     else ret 0)"

section \<open>Sending\<close>

text \<open>\<open>self._producers[i]\<close>: a negative index counts from the end.\<close>

definition py_index :: "nat \<Rightarrow> int \<Rightarrow> exn + nat" where
  "py_index n i =
     (if 0 \<le> i \<and> i < int n then Inr (nat i)
      else if - int n \<le> i \<and> i < 0 then Inr (nat (int n + i))
      else Inl IndexError)"

text \<open>A method of \<open>self._producers[i]\<close>.\<close>

definition on_producer :: "int \<Rightarrow> ('w tp_state, 'a) py \<Rightarrow> ('w p_state, 'a) py" where
  "on_producer i m = (\<lambda>(p, w).
     (case py_index (length (p_producers p)) i of
        Inl e \<Rightarrow> (Inl e, (p, w))
      | Inr j \<Rightarrow>
          (case p_producers p ! j of
             None \<Rightarrow> (Inl AttributeError, (p, w))
           | Some tp \<Rightarrow>
               (case m (tp, w) of (r, (tp', w')) \<Rightarrow>
                 (r, (p\<lparr>p_producers := (p_producers p)[j := Some tp']\<rparr>, w'))))))"

definition recreate_producer :: "'w Outside \<Rightarrow> int \<Rightarrow> ('w p_state, unit) py" where
  "recreate_producer E pid = bnd (on_producer pid (tp_create E)) (\<lambda>_. ret ())"

definition tp_lookup_and_create :: "'w Outside \<Rightarrow> exn \<Rightarrow> ('w tp_state, unit) py" where
  "tp_lookup_and_create E original_error =
     bnd (get_self id) (\<lambda>t.
     bnd (handle (on_snd (handle_lookup E (tp_connect_url t) (tp_topic t)))
            (\<lambda>exc. throw original_error)) (\<lambda>addr.
     seq (set_self (\<lambda>t. t\<lparr>tp_broker_addr := broker_url addr, tp_connect_url := connect_url addr,
                        tp_proxy := proxy addr\<rparr>)) (
     bnd (tp_create E) (\<lambda>_. ret ()))))"

definition lookup_and_recreate :: "'w Outside \<Rightarrow> int \<Rightarrow> exn \<Rightarrow> ('w p_state, unit) py" where
  "lookup_and_recreate E pid original_error = on_producer pid (tp_lookup_and_create E original_error)"

text \<open>What the two \<open>except\<close> clauses do with an error: the new number of attempts, or a raise.\<close>

definition recover :: "'w Outside \<Rightarrow> int \<Rightarrow> RetryManager \<Rightarrow> int \<Rightarrow> exn \<Rightarrow> ('w p_state, int) py" where
  "recover E pid rm attempts err =
     (if is_UnrecoverableError err then seq (recreate_producer E pid) (ret 0)
      else if is_retryable err then
        (if attempts + 1 > max_retries rm then seq (lookup_and_recreate E pid err) (ret 0)
         else bnd (on_snd (backoff_delay E rm (attempts + 1 - 1))) (\<lambda>backoff.
              seq (on_snd (asleep backoff)) (ret (attempts + 1))))
      else throw err)"

text \<open>The loop, from a number of attempts on.\<close>

definition send_loop ::
  "'w Outside \<Rightarrow> int \<Rightarrow> RetryManager \<Rightarrow> bytes \<Rightarrow> (string \<times> string) list option \<Rightarrow> string option
     \<Rightarrow> int \<Rightarrow> 'w p_state \<Rightarrow> ((exn + 64 word) \<times> 'w p_state) option" where
  "send_loop E pid rm data attributes routing_key =
     until_done (on_producer pid (tp_send E data attributes routing_key)) (recover E pid rm)"

text \<open>The block under the lock: the partition, its check, the retry manager.\<close>

definition prepare_send :: "('w p_state, int) py \<Rightarrow> ('w p_state, int \<times> RetryManager) py" where
  "prepare_send select =
     bnd select (\<lambda>partition_id.
     bnd (get_self id) (\<lambda>p.
     if partition_id \<ge> int (length (p_producers p))
     then throw (DanubeError ''partition ID out of range'')
     else ret (partition_id, retry_of (p_options p))))"

definition p_send ::
  "'w Outside \<Rightarrow> bytes \<Rightarrow> (string \<times> string) list option \<Rightarrow> 'w p_state
     \<Rightarrow> ((exn + 64 word) \<times> 'w p_state) option" where
  "p_send E data attributes s =
     (case prepare_send select_partition s of
        (Inl e, s1) \<Rightarrow> Some (Inl e, s1)
      | (Inr (pid, rm), s1) \<Rightarrow> send_loop E pid rm data attributes None 0 s1)"

definition p_send_with_key ::
  "'w Outside \<Rightarrow> bytes \<Rightarrow> (string \<times> string) list option \<Rightarrow> string \<Rightarrow> 'w p_state
     \<Rightarrow> ((exn + 64 word) \<times> 'w p_state) option" where
  "p_send_with_key E data attributes routing_key s =
     (case prepare_send (select_partition_for_key routing_key) s of
        (Inl e, s1) \<Rightarrow> Some (Inl e, s1)
      | (Inr (pid, rm), s1) \<Rightarrow> send_loop E pid rm data attributes (Some routing_key) 0 s1)"

definition p_close :: "('w p_state, unit) py" where
  "p_close =
     bnd (get_self (\<lambda>p. length (p_producers p))) (\<lambda>n.
     bnd (for_each (\<lambda>i. on_producer (int i) tp_stop) [0..<n]) (\<lambda>_. ret ()))"

section \<open>The builder\<close>

record ProducerBuilder =
  pb_topic :: string
  pb_producer_name :: string
  pb_partitions :: int
  pb_schema_ref :: "SchemaReference option"
  pb_dispatch_strategy :: DispatchStrategy
  pb_options :: ProducerOptions

definition new_ProducerBuilder :: ProducerBuilder where
  "new_ProducerBuilder =
     \<lparr>pb_topic = '''', pb_producer_name = '''', pb_partitions = 0, pb_schema_ref = None,
      pb_dispatch_strategy = NON_RELIABLE, pb_options = default_ProducerOptions\<rparr>"

definition pb_with_topic :: "string \<Rightarrow> (ProducerBuilder, unit) py" where
  "pb_with_topic topic = modify (\<lambda>b. b\<lparr>pb_topic := topic\<rparr>)"

definition pb_with_name :: "string \<Rightarrow> (ProducerBuilder, unit) py" where
  "pb_with_name name = modify (\<lambda>b. b\<lparr>pb_producer_name := name\<rparr>)"

definition pb_with_schema_subject :: "string \<Rightarrow> (ProducerBuilder, unit) py" where
  "pb_with_schema_subject subject = modify (\<lambda>b. b\<lparr>pb_schema_ref :=
     Some \<lparr>sr_subject = subject, sr_version_ref = Some (UseLatest True)\<rparr>\<rparr>)"

definition pb_with_schema_version :: "string \<Rightarrow> int \<Rightarrow> (ProducerBuilder, unit) py" where
  "pb_with_schema_version subject version =
     bnd (of_result (u32_field version)) (\<lambda>v.
     modify (\<lambda>b. b\<lparr>pb_schema_ref :=
       Some \<lparr>sr_subject = subject, sr_version_ref = Some (PinnedVersion v)\<rparr>\<rparr>))"

definition pb_with_schema_min_version :: "string \<Rightarrow> int \<Rightarrow> (ProducerBuilder, unit) py" where
  "pb_with_schema_min_version subject min_version =
     bnd (of_result (u32_field min_version)) (\<lambda>v.
     modify (\<lambda>b. b\<lparr>pb_schema_ref :=
       Some \<lparr>sr_subject = subject, sr_version_ref = Some (MinVersion v)\<rparr>\<rparr>))"

definition pb_with_dispatch_strategy :: "DispatchStrategy \<Rightarrow> (ProducerBuilder, unit) py" where
  "pb_with_dispatch_strategy strategy = modify (\<lambda>b. b\<lparr>pb_dispatch_strategy := strategy\<rparr>)"

definition pb_with_partitions :: "int \<Rightarrow> (ProducerBuilder, unit) py" where
  "pb_with_partitions partitions = modify (\<lambda>b. b\<lparr>pb_partitions := partitions\<rparr>)"

definition pb_with_options :: "ProducerOptions \<Rightarrow> (ProducerBuilder, unit) py" where
  "pb_with_options options = modify (\<lambda>b. b\<lparr>pb_options := options\<rparr>)"

definition pb_build :: "(ProducerBuilder, Producer) py" where
  "pb_build =
     bnd (gets id) (\<lambda>b.
     if pb_topic b = '''' then throw (ValueError ''topic must be set'')
     else if pb_producer_name b = '''' then throw (ValueError ''producer name must be set'')
     else ret (new_Producer (pb_topic b) (pb_producer_name b) (pb_partitions b) (pb_schema_ref b)
                 (pb_dispatch_strategy b) (pb_options b)))"

section \<open>The topic producers of a creation\<close>

definition fresh_tp :: "Producer \<Rightarrow> string \<Rightarrow> string \<Rightarrow> nat \<Rightarrow> string \<Rightarrow> TopicProducer" where
  "fresh_tp p topic name event u =
     \<lparr>tp_topic = topic, tp_producer_name = name, tp_producer_id = 0, tp_request_id = 1,
      tp_schema_ref = p_schema_ref p, tp_schema_id = None, tp_schema_version = None,
      tp_dispatch_strategy = p_dispatch_strategy p, tp_retry_manager = retry_of (p_options p),
      tp_stub = None, tp_stop_event = event, tp_health_task = None,
      tp_broker_addr = u, tp_connect_url = u, tp_proxy = False\<rparr>"

lemma fresh_tp_simps [simp]:
  "tp_topic (fresh_tp p t n e u) = t" "tp_producer_name (fresh_tp p t n e u) = n"
  "tp_retry_manager (fresh_tp p t n e u) = retry_of (p_options p)"
  "tp_schema_ref (fresh_tp p t n e u) = p_schema_ref p"
  "tp_stop_event (fresh_tp p t n e u) = e"
  by (simp_all add: fresh_tp_def)

lemma retry_of_ok [simp, intro]: "rm_ok (retry_of opts)"
  by (simp add: retry_of_def)

lemma p_topic_producer_run [run_simps]:
  "p_topic_producer topic name (p, w) =
     (Inr (fresh_tp p topic name (length (events w)) (uri w)), (p, w\<lparr>events := events w @ [False]\<rparr>))"
  by (simp add: p_topic_producer_def new_TopicProducer_def fresh_tp_def retry_of_def run_simps)

lemma p_topic_producers_run:
  "for_each (\<lambda>pid. p_topic_producer (f pid) (g pid)) pids (p, w) =
     (Inr (map (\<lambda>i. fresh_tp p (f (pids ! i)) (g (pids ! i)) (length (events w) + i) (uri w)) [0..<length pids]),
      (p, w\<lparr>events := events w @ replicate (length pids) False\<rparr>))"
proof (induction pids arbitrary: w)
  case (Cons pid pids)
  have shift: "map h [0..<Suc k] = h 0 # map (\<lambda>i. h (Suc i)) [0..<k]" for h :: "nat \<Rightarrow> TopicProducer" and k
    by (simp add: upt_conv_Cons map_Suc_upt [symmetric] del: upt_Suc)
  show ?case
    by (simp add: run_simps Cons.IH shift del: upt_Suc)
qed (simp add: run_simps)

lemma created_run:
  assumes "rm_ok (tp_retry_manager tp)" and "created E tp w = (r, w')"
  shows "grows w w'"
    and "r = Inr tp' \<Longrightarrow> tp_identity tp' = tp_identity tp \<and> tp_ready tp' w'"
proof -
  obtain r1 t1 w1 where run: "tp_create E (tp, w) = (r1, (t1, w1))" by (metis surj_pair)
  have "grows w w1" using tp_create_grows [of "(tp, w)" E] assms(1) run by (simp add: on_world_def)
  then show "grows w w'" using assms(2) run by (auto simp: created_def split: sum.splits)
  assume "r = Inr tp'"
  then obtain pid where "r1 = Inr pid" "t1 = tp'" "w1 = w'"
    using assms(2) run by (auto simp: created_def split: sum.splits)
  with run tp_create_live [of E "(tp, w)" pid "(tp', w')"] tp_create_identity [of "(tp, w)" E] assms(1)
  show "tp_identity tp' = tp_identity tp \<and> tp_ready tp' w'"
    by (simp add: tp_live_ready)
qed

text \<open>While partitions are created: slots of the list that are filled hold a ready producer with the
  identity it was made with, the others are empty.\<close>

definition filled :: "TopicProducer list \<Rightarrow> (nat \<rightharpoonup> unit) \<Rightarrow> TopicProducer option list \<times> 'w World \<Rightarrow> bool" where
  "filled tps m s \<longleftrightarrow> (case s of (l, w) \<Rightarrow>
     length l = length tps \<and>
     (\<forall>i < length tps. if i \<in> dom m
        then \<exists>t. l ! i = Some t \<and> tp_identity t = tp_identity (tps ! i) \<and> tp_ready t w
        else l ! i = None))"

lemma filled_grows: "filled tps m (l, v) \<Longrightarrow> grows v w \<Longrightarrow> filled tps m (l, w)"
  unfolding filled_def using tp_ready_grows by (auto split: if_splits) blast

lemma create_one_filled:
  assumes "filled tps m s" and "i < length tps" and "rm_ok (tp_retry_manager (tps ! i))"
    and "create_one E i (tps ! i) s = (r, s')"
  shows "case r of Inr x \<Rightarrow> filled tps (m(i \<mapsto> x)) s' | Inl e \<Rightarrow> filled tps m s'"
proof -
  obtain l w where s: "s = (l, w)" by (meson surj_pair)
  obtain r1 w1 where run: "created E (tps ! i) w = (r1, w1)" by (meson surj_pair)
  note g = created_run(1) [OF assms(3) run]
  have old: "filled tps m (l, w1)" using filled_grows assms(1) g s by blast
  show ?thesis
  proof (cases r1)
    case (Inl e)
    with assms(4) s run old show ?thesis by (auto simp: create_one_def run_simps)
  next
    case (Inr t)
    have "r = Inr ()" "s' = (l[i := Some t], w1)"
      using assms(4) s run Inr by (simp_all add: create_one_def run_simps)
    moreover have "tp_identity t = tp_identity (tps ! i) \<and> tp_ready t w1"
      using created_run(2) [OF assms(3) run Inr] .
    ultimately show ?thesis
      using old assms(2) by (auto simp: filled_def nth_list_update)
  qed
qed

lemma create_parts_ok:
  assumes "schedule order (length tps)" and "\<forall>t \<in> set tps. rm_ok (tp_retry_manager t)"
    and "create_parts E order tps w = (Inr ps, w')"
  shows "length ps = length tps
    \<and> (\<forall>i < length tps. \<exists>t. ps ! i = Some t \<and> tp_identity t = tp_identity (tps ! i) \<and> tp_ready t w')"
proof -
  let ?n = "length tps"
  let ?ms = "map2 (create_one E) [0..<?n] tps"
  obtain r s' where g: "gather order ?ms (replicate ?n None, w) = (r, s')" by (meson surj_pair)
  then obtain e xs where run: "gather_run order (\<lambda>i. ?ms ! i) (replicate ?n None, w) = ((e, xs), s')"
    and r: "r = (case e of Some err \<Rightarrow> Inl err | None \<Rightarrow> Inr (map (\<lambda>i. the (xs i)) [0..<length ?ms]))"
    by (rule gather_cases)
  have nth: "?ms ! i = create_one E i (tps ! i)" if "i < ?n" for i using that by simp
  have "filled tps (Map.empty ++ xs) s' \<and> dom xs \<subseteq> set order \<and> (e = None \<longrightarrow> dom xs = set order)"
  proof (rule gather_run_invar [OF run, where I = "{..<?n}"])
    show "distinct order" "set order \<subseteq> {..<?n}" using assms(1) by (auto simp: schedule_def)
    show "filled tps Map.empty (replicate ?n None, w)" by (simp add: filled_def)
  next
    fix i m s x s1
    assume "i \<in> {..<?n}" "filled tps m s" "(?ms ! i) s = (Inr x, s1)"
    then show "filled tps (m(i \<mapsto> x)) s1"
      using create_one_filled [of tps m s i E "Inr x" s1] assms(2) nth by simp
  next
    fix i m s err s1
    assume "i \<in> {..<?n}" "filled tps m s" "(?ms ! i) s = (Inl err, s1)"
    then show "filled tps m s1"
      using create_one_filled [of tps m s i E "Inl err" s1] assms(2) nth by simp
  qed simp_all
  moreover have "e = None" "s' = (ps, w')"
    using assms(3) g r by (auto simp: create_parts_def split: sum.splits prod.splits option.splits)
  moreover have "set order = {..<?n}" using assms(1) by (simp add: schedule_def)
  ultimately show ?thesis
    by (simp add: filled_def)
qed

section \<open>Choosing and checking the partition\<close>

lemma prepare_send_key:
  assumes "p_message_router p = Some r" and "mr_partitions r = p_partitions p"
    and "p_partitions p = int (length (p_producers p))" and "0 < p_partitions p"
  shows "prepare_send (select_partition_for_key key) (p, w) =
    (Inr (fnv1a_hash key mod p_partitions p, retry_of (p_options p)), (p, w))"
proof -
  have "p\<lparr>p_message_router := Some r\<rparr> = p" using assms(1) by simp
  then show ?thesis
    using assms by (simp add: prepare_send_def select_partition_for_key_def on_router_def run_simps
        key_route_def py_mod_def Let_def not_le)
qed

lemma prepare_send_next:
  assumes "p_message_router p = Some r" and "mr_partitions r = p_partitions p"
    and "p_partitions p = int (length (p_producers p))" and "0 < p_partitions p"
  shows "prepare_send select_partition (p, w) =
    (Inr ((mr_last r + 1) mod p_partitions p, retry_of (p_options p)),
     (p\<lparr>p_message_router := Some (r\<lparr>mr_last := (mr_last r + 1) mod p_partitions p\<rparr>)\<rparr>, w))"
  using assms by (simp add: prepare_send_def select_partition_def on_router_def run_simps
      round_robin_run not_le)

section \<open>The sending loop of one partition\<close>

text \<open>The loop as it acts on the topic producer of its partition alone.\<close>

definition tp_recover :: "'w Outside \<Rightarrow> RetryManager \<Rightarrow> int \<Rightarrow> exn \<Rightarrow> ('w tp_state, int) py" where
  "tp_recover E rm attempts err =
     (if is_UnrecoverableError err then seq (tp_create E) (ret 0)
      else if is_retryable err then
        (if attempts + 1 > max_retries rm then seq (tp_lookup_and_create E err) (ret 0)
         else seq (pause E rm attempts) (ret (attempts + 1)))
      else throw err)"

definition tp_send_loop ::
  "'w Outside \<Rightarrow> RetryManager \<Rightarrow> bytes \<Rightarrow> (string \<times> string) list option \<Rightarrow> string option
     \<Rightarrow> int \<Rightarrow> 'w tp_state \<Rightarrow> ((exn + 64 word) \<times> 'w tp_state) option" where
  "tp_send_loop E rm data attributes routing_key =
     until_done (tp_send E data attributes routing_key) (tp_recover E rm)"

definition put_tp :: "nat \<Rightarrow> Producer \<Rightarrow> TopicProducer \<Rightarrow> Producer" where
  "put_tp j p t = p\<lparr>p_producers := (p_producers p)[j := Some t]\<rparr>"

lemma put_tp_same: "p_producers p ! j = Some t \<Longrightarrow> put_tp j p t = p"
  using list_update_id [of "p_producers p" j] by (simp add: put_tp_def)

text \<open>A method of the producer that acts on partition \<open>j\<close> as \<open>m\<close> does on its topic producer.\<close>

definition at_part :: "nat \<Rightarrow> Producer \<Rightarrow> 'w tp_state \<Rightarrow> 'w p_state" where
  "at_part j p s = (put_tp j p (fst s), snd s)"

definition lifts :: "nat \<Rightarrow> Producer \<Rightarrow> ('w p_state, 'a) py \<Rightarrow> ('w tp_state, 'a) py \<Rightarrow> bool" where
  "lifts j p M m \<longleftrightarrow> (\<forall>s. M (at_part j p s) = map_prod id (at_part j p) (m s))"

lemma liftsI: "(\<And>s. M (at_part j p s) = map_prod id (at_part j p) (m s)) \<Longrightarrow> lifts j p M m"
  by (simp only: lifts_def) blast

lemma liftsD: "lifts j p M m \<Longrightarrow> M (at_part j p s) = map_prod id (at_part j p) (m s)"
  by (simp only: lifts_def)

lemma lifts_ret: "lifts j p (ret x) (ret x)"
  by (simp add: lifts_def run_simps)

lemma lifts_throw: "lifts j p (throw e) (throw e)"
  by (simp add: lifts_def run_simps)

lemma lifts_on_snd: "lifts j p (on_snd m) (on_snd m)"
  by (simp add: lifts_def at_part_def on_snd_def split: prod.split)

lemma lifts_bnd: "lifts j p M m \<Longrightarrow> (\<And>x. lifts j p (F x) (f x)) \<Longrightarrow> lifts j p (bnd M F) (bnd m f)"
proof (rule liftsI)
  fix s
  assume *: "lifts j p M m" "\<And>x. lifts j p (F x) (f x)"
  obtain r s1 where m: "m s = (r, s1)" by (meson surj_pair)
  show "bnd M F (at_part j p s) = map_prod id (at_part j p) (bnd m f s)"
    using liftsD [OF *(1), of s] liftsD [OF *(2), of _ s1] m
    by (simp add: bnd_run split: sum.split)
qed

lemma lifts_seq: "lifts j p M m \<Longrightarrow> lifts j p K k \<Longrightarrow> lifts j p (seq M K) (seq m k)"
  by (simp add: seq_def lifts_bnd)

lemma lifts_on_producer: "j < length (p_producers p) \<Longrightarrow> lifts j p (on_producer (int j) m) m"
  by (simp add: lifts_def at_part_def on_producer_def py_index_def put_tp_def split: prod.split)

lemma seq_then_ret: "seq (bnd m (\<lambda>_. ret ())) k = seq m k"
  by (simp add: seq_def bnd_assoc) (simp add: bnd_def ret_def)

lemma lifts_recover:
  assumes "j < length (p_producers p)"
  shows "lifts j p (recover E (int j) rm n err) (tp_recover E rm n err)"
  using assms unfolding recover_def tp_recover_def recreate_producer_def lookup_and_recreate_def
    pause_def seq_then_ret seq_bnd_assoc
  by (auto intro!: lifts_ret lifts_throw lifts_on_snd lifts_bnd lifts_seq lifts_on_producer)

text \<open>The sending loop of a producer is the loop of its partition; it leaves the other partitions
  and the router alone.\<close>

lemma send_loop_part:
  assumes "j < length (p_producers p)"
  shows "send_loop E (int j) rm d a k n (at_part j p s) =
    map_option (map_prod id (at_part j p)) (tp_send_loop E rm d a k n s)"
  unfolding send_loop_def tp_send_loop_def
  by (intro until_done_simulates liftsD lifts_on_producer lifts_recover assms)

section \<open>The turns of the sending loop\<close>

text \<open>What the loop keeps of the topic producer, whatever the answers: its identity; and what it may
  send: only messages with the given payload, key and topic.\<close>

lemma tp_lookup_and_create_run:
  "tp_lookup_and_create E err (t, w) =
     (case handle_lookup E (tp_connect_url t) (tp_topic t) w of
        (Inl e, w1) \<Rightarrow> (Inl err, (t, w1))
      | (Inr addr, w1) \<Rightarrow>
          (case tp_create E (t\<lparr>tp_broker_addr := broker_url addr, tp_connect_url := connect_url addr,
                               tp_proxy := proxy addr\<rparr>, w1) of
             (Inl e, s2) \<Rightarrow> (Inl e, s2) | (Inr x, s2) \<Rightarrow> (Inr (), s2)))"
  by (simp add: tp_lookup_and_create_def run_simps split: prod.split sum.split)

text \<open>A turn of the loop keeps what a lookup, a creation and a wait keep.\<close>

lemma tp_recover_keeps:
  assumes "evolution R" and rm: "rm_ok (tp_retry_manager (fst s))"
    and create: "\<And>s. rm_ok (tp_retry_manager (fst s)) \<Longrightarrow> R s (snd (tp_create E s))"
    and look: "\<And>a topic t t' w. tp_identity t' = tp_identity t \<Longrightarrow> tp_request_id t' = tp_request_id t
      \<Longrightarrow> R (t, w) (t', snd (handle_lookup E a topic w))"
    and wait: "\<And>n s. R s (snd (pause E rm n s))"
  shows "R s (snd (tp_recover E rm n err s))"
proof -
  obtain t w where s: "s = (t, w)" by (meson surj_pair)
  have "R (t, w) (snd (tp_lookup_and_create E err (t, w)))"
  proof -
    obtain r w1 where l: "handle_lookup E (tp_connect_url t) (tp_topic t) w = (r, w1)" by (meson surj_pair)
    have step: "R (t, w) (t', w1)"
      if "tp_identity t' = tp_identity t" "tp_request_id t' = tp_request_id t" for t'
      using look [OF that, of w "tp_connect_url t" "tp_topic t"] l by simp
    show ?thesis
    proof (cases r)
      case (Inl e)
      with l step [of t] show ?thesis by (simp add: tp_lookup_and_create_run)
    next
      case (Inr addr)
      let ?t = "t\<lparr>tp_broker_addr := broker_url addr, tp_connect_url := connect_url addr, tp_proxy := proxy addr\<rparr>"
      have "tp_identity ?t = tp_identity t" by simp
      then have "R (t, w) (?t, w1)" and "rm_ok (tp_retry_manager ?t)"
        using step [of ?t] rm s by simp_all
      moreover from this have "R (?t, w1) (snd (tp_create E (?t, w1)))" using create [of "(?t, w1)"] by simp
      ultimately have "R (t, w) (snd (tp_create E (?t, w1)))" by (blast intro: evolution.trans [OF assms(1)])
      with l Inr show ?thesis
        by (auto simp: tp_lookup_and_create_run split: prod.splits sum.splits)
    qed
  qed
  moreover have "R s (snd (tp_create E s))" using rm by (rule create)
  moreover have "R s (snd (pause E rm n s))" by (rule wait)
  moreover have "R s s" by (rule evolution.refl [OF assms(1)])
  ultimately show ?thesis
    using s by (auto simp: tp_recover_def run_simps split: prod.splits sum.splits)
qed

end
