(* ===== verification/Traffic.thy ===== *)
theory Traffic
  imports Endpoint
begin

text \<open>
  The messages and the acknowledgements that a client has sent, read off the history of its calls,
  and the observations that are neither.
\<close>

fun sent_in :: "obs \<Rightarrow> StreamMessage option" where
  "sent_in (Rpc _ (SendMessage m)) = Some m"
| "sent_in _ = None"

fun ack_in :: "obs \<Rightarrow> AckRequest option" where
  "ack_in (Rpc _ (Ack q)) = Some q"
| "ack_in _ = None"

definition sent :: "'w World \<Rightarrow> StreamMessage list" where
  "sent w = List.map_filter sent_in (trace w)"

definition acks :: "'w World \<Rightarrow> AckRequest list" where
  "acks w = List.map_filter ack_in (trace w)"

definition quiet :: "obs \<Rightarrow> bool" where
  "quiet ob \<longleftrightarrow> sent_in ob = None \<and> ack_in ob = None"

text \<open>The client sent \<open>ms\<close>, and acknowledged nothing.\<close>

definition sends :: "StreamMessage list \<Rightarrow> 'w World \<Rightarrow> 'w World \<Rightarrow> bool" where
  "sends ms v w \<longleftrightarrow> sent w = sent v @ ms \<and> acks w = acks v"

lemma quiet_kinds [simp]:
  "is_lookup ob \<Longrightarrow> quiet ob" "is_create ob \<Longrightarrow> quiet ob" "is_subscribe ob \<Longrightarrow> quiet ob"
  "is_registry_call ob \<Longrightarrow> quiet ob" "checks_for t ob \<Longrightarrow> quiet ob" "is_sleep ob \<Longrightarrow> quiet ob"
  by (cases ob rule: ack_in.cases; simp add: quiet_def is_registry_call_def checks_for_def)+

lemma quiet_sleep [simp]: "quiet (Sleep d)"
  by (simp add: quiet_def)

lemma quiet_sends: "emits quiet v w \<Longrightarrow> sends [] v w"
  by (auto simp: emits_def sends_def sent_def acks_def quiet_def map_filter_def list_all_iff filter_empty_conv)

lemma quiet_acks: "emits quiet v w \<Longrightarrow> acks w = acks v"
  by (drule quiet_sends) (simp add: sends_def)

lemma sends_nothing: "trace w = trace v \<Longrightarrow> sends [] v w"
  by (simp add: sends_def sent_def acks_def)

lemma sends_refl [simp]: "sends [] w w"
  by (simp add: sends_nothing)

lemma sends_trans: "sends ms u v \<Longrightarrow> sends ns v w \<Longrightarrow> sends (ms @ ns) u w"
  by (simp add: sends_def)

lemma sends_sleep: "sends [] w (w\<lparr>trace := trace w @ [Sleep d]\<rparr>)"
  by (simp add: sends_def sent_def acks_def map_filter_def)

interpretation sends_none: evolution "sends []"
  by unfold_locales (simp_all add: sends_def)

end
