(* ===== verification/Scenario.thy ===== *)
theory Scenario
  imports World
begin

text \<open>
  A concrete outside for the witnesses. \<open>refusing\<close> answers every call with the status
  UNIMPLEMENTED, its clock stands still and its random source gives 0; a witness replaces the
  answers it needs. Its state is a number that no answer here reads.
\<close>

definition refuse :: "('q, 'r, 'w) stub_method" where
  "refuse call q x = (Inl (AioRpcError UNIMPLEMENTED ''''), x)"

definition refusing :: "'w Outside" where
  "refusing =
     \<lparr>answer_CreateProducer = refuse, answer_SendMessage = refuse, answer_Subscribe = refuse,
      answer_ReceiveMessages = refuse, answer_Ack = refuse, answer_Nack = refuse,
      answer_TopicLookup = refuse, answer_TopicPartitions = refuse, answer_HealthCheck = refuse,
      answer_RegisterSchema = refuse, answer_GetSchema = refuse, answer_GetLatestSchema = refuse,
      answer_ListVersions = refuse, answer_CheckCompatibility = refuse,
      answer_DeleteSchemaVersion = refuse, answer_SetCompatibilityMode = refuse,
      answer_ConfigureTopicSchema = refuse, answer_UpdateTopicValidationPolicy = refuse,
      answer_GetTopicSchemaConfig = refuse,
      next_message = (\<lambda>stream x. (Inr None, x)), clock_ms = (\<lambda>x. (1700000000000, x)), random_source = (\<lambda>x. (0, x)),
      read_file = (\<lambda>path x. (Inl (OSError path), x))\<rparr>"

text \<open>A stub method that always gives the same answer.\<close>

definition always :: "exn + 'r \<Rightarrow> ('q, 'r, 'w) stub_method" where
  "always r call q x = (r, x)"

definition demo_uri :: string where
  "demo_uri = ''http://127.0.0.1:6650''"

definition demo_world :: "nat World" where
  "demo_world = new_World demo_uri default_ConnectionOptions 0"

lemma demo_static [simp]: "static_token demo_world"
  by (simp add: demo_world_def new_World_def static_token_def new_ConnectionManager_def
      default_ConnectionOptions_def)

lemma demo_fields [simp]:
  "uri demo_world = demo_uri" "tasks demo_world = []" "events demo_world = []"
  "trace demo_world = []" "outside demo_world = 0"
  "cm_options (conn_mgr demo_world) = default_ConnectionOptions"
  "cm_connections (conn_mgr demo_world) = (\<lambda>_. None)"
  by (simp_all add: demo_world_def new_World_def new_ConnectionManager_def)

end
