(* ===== verification/TopicProducerProperties.thy ===== *)
theory TopicProducerProperties
  imports TopicProducer Scenario
begin

text \<open>
  What a topic producer promises: bounded attempts at creation, what a created producer looks like,
  what it sends and where, its request identifiers, the schema version it resolves, and what its
  \<open>stop\<close> and a second creation do to its health checks.
\<close>

section \<open>A producer for the witnesses\<close>

definition demo_producer :: TopicProducer where
  "demo_producer =
     \<lparr>tp_topic = ''/default/demo'', tp_producer_name = ''p'', tp_producer_id = 0, tp_request_id = 1,
      tp_schema_ref = None, tp_schema_id = None, tp_schema_version = None,
      tp_dispatch_strategy = NON_RELIABLE, tp_retry_manager = new_RetryManager 0 0 0,
      tp_stub = None, tp_stop_event = 0, tp_health_task = None,
      tp_broker_addr = demo_uri, tp_connect_url = demo_uri, tp_proxy = False\<rparr>"

definition demo_created :: "nat Outside" where
  "demo_created = refusing\<lparr>answer_CreateProducer := always (Inr
     \<lparr>prs_request_id = 1, prs_producer_id = 7, prs_producer_name = ''p''\<rparr>)\<rparr>"

definition event_world :: "bool \<Rightarrow> nat World" where
  "event_world stopped = demo_world\<lparr>events := [stopped]\<rparr>"

lemma event_world_simps [simp]:
  "static_token (event_world b)" "trace (event_world b) = []" "tasks (event_world b) = []"
  "events (event_world b) = [b]"
  using demo_static by (simp_all add: event_world_def static_token_def)

lemma demo_producer_rm [simp]:
  "rm_ok (tp_retry_manager demo_producer)" "max_retries (tp_retry_manager demo_producer) = 5"
  by (simp_all add: demo_producer_def) (simp add: new_RetryManager_def DEFAULT_MAX_RETRIES_def)

lemma demo_creates: "always_creates demo_created"
  by (simp add: always_creates_def demo_created_def always_def)

section \<open>Creation\<close>

text \<open>Creating a producer makes at most one call for each permitted attempt: the first and
  \<open>max_retries\<close> more, with at most \<open>max_retries\<close> sleeps in between, whatever the broker answers.\<close>

theorem tp_create_attempts_bounded:
  assumes "rm_ok (tp_retry_manager t)" and "tp_create E (t, w) = (r, (t', w'))"
  shows "seen is_create w' \<le> seen is_create w + nat (max_retries (tp_retry_manager t)) + 1 \<and>
    seen is_sleep w' \<le> seen is_sleep w + nat (max_retries (tp_retry_manager t))"
  using tp_create_counts [of "(t, w)" E] assms by simp

theorem tp_create_attempts_bounded_witness:
  "let w' = snd (snd (tp_create refusing (demo_producer, demo_world))) in
   seen is_create w' \<le> 6 \<and> seen is_sleep w' \<le> 5"
  using tp_create_attempts_bounded [of demo_producer refusing demo_world
      "fst (tp_create refusing (demo_producer, demo_world))"
      "fst (snd (tp_create refusing (demo_producer, demo_world)))"
      "snd (snd (tp_create refusing (demo_producer, demo_world)))"]
  by (simp add: Let_def seen_def)

text \<open>C5: A broker that always answers with a retryable status gets exactly \<open>max_retries + 1\<close> calls,
  with exactly \<open>max_retries\<close> sleeps; then the creation raises a retryable error. It always
  returns, however long the outage.\<close>

theorem tp_create_persistent_failure:
  assumes "always_retryable (answer_CreateProducer E)" and "static_token w"
    and "rm_ok (tp_retry_manager t)"
  shows "\<exists>e t' w'. tp_create E (t, w) = (Inl e, (t', w')) \<and> is_retryable e
    \<and> seen is_create w' = seen is_create w + nat (max_retries (tp_retry_manager t)) + 1
    \<and> seen is_sleep w' = seen is_sleep w + nat (max_retries (tp_retry_manager t))"
  using tp_create_exhausts [of E "(t, w)"] assms by simp

theorem tp_create_persistent_failure_witness:
  "\<exists>e t' w'. tp_create (refusing\<lparr>answer_CreateProducer := always (Inl (AioRpcError UNAVAILABLE ''''))\<rparr>)
      (demo_producer, demo_world) = (Inl e, (t', w')) \<and> is_retryable e
    \<and> seen is_create w' = 6 \<and> seen is_sleep w' = 5"
proof -
  let ?E = "refusing\<lparr>answer_CreateProducer := always (Inl (AioRpcError UNAVAILABLE ''''))\<rparr> :: nat Outside"
  have "always_retryable (answer_CreateProducer ?E)"
    by (simp add: always_retryable_def always_def)
  from tp_create_persistent_failure [OF this demo_static demo_producer_rm(1)]
  show ?thesis by (simp add: seen_def)
qed

text \<open>A name that is taken is not retried: if the broker answers ALREADY\_EXISTS, the creation
  raises \<open>UnrecoverableError\<close> after one call and no sleep.\<close>

theorem tp_create_already_exists:
  assumes "\<And>call q x. answer_CreateProducer E call q x = (Inl (AioRpcError ALREADY_EXISTS msg), x)"
    and "static_token w"
  shows "\<exists>t' w'. tp_create E (t, w) =
      (Inl (UnrecoverableError (''producer already exists: '' @ msg)), (t', w'))
    \<and> seen is_create w' = seen is_create w + 1 \<and> seen is_sleep w' = seen is_sleep w"
proof -
  obtain t1 w1 where l: "snd (tp_lookup_new_broker E (t, w)) = (t1, w1)" by (meson surj_pair)
  have static: "static_token w1"
    using static_token_kept [OF tp_lookup_keeps(1), of "(t, w)" E] l assms(2) by simp
  have quiet: "seen is_create w1 = seen is_create w" "seen is_sleep w1 = seen is_sleep w"
    using seen_kept [OF tp_lookup_quiet, of is_create E "(t, w)"]
      seen_kept [OF tp_lookup_quiet, of is_sleep E "(t, w)"] l by simp_all
  obtain s2 where "tp_try_create E (t1, w1) =
      (Inl (UnrecoverableError (''producer already exists: '' @ msg)), s2)"
    and "seen is_create (snd s2) = seen is_create w1 + 1"
    and "seen is_sleep (snd s2) = seen is_sleep w1"
    by (rule tp_try_create_run [OF static, of t1 E]) (simp add: assms(1) seen_def)
  with tp_retry.start_stops [of E "(t, w)"] l quiet show ?thesis by (cases s2) simp
qed

theorem tp_create_already_exists_witness:
  "\<exists>t' w'. tp_create (refusing\<lparr>answer_CreateProducer := always (Inl (AioRpcError ALREADY_EXISTS ''p''))\<rparr>)
      (demo_producer, demo_world)
      = (Inl (UnrecoverableError ''producer already exists: p''), (t', w'))
    \<and> seen is_create w' = 1 \<and> seen is_sleep w' = 0"
  using tp_create_already_exists [of
      "refusing\<lparr>answer_CreateProducer := always (Inl (AioRpcError ALREADY_EXISTS ''p''))\<rparr>" "''p''"
      demo_world demo_producer]
  by (simp add: always_def seen_def)

text \<open>A producer that was created is ready: it carries the identifier the broker gave, its stub
  is on the pooled channel for its broker and proxy addresses, a fresh health check task asks
  about this identifier on the same channel and is wired to the producer's stop event, and its
  schema is resolved if it refers to one.\<close>

theorem tp_create_ready:
  assumes "tp_create E (t, w) = (Inr pid, s')" and "rm_ok (tp_retry_manager t)"
  shows "tp_live pid s'"
  using tp_create_live [OF assms(1)] assms(2) by simp

theorem tp_create_ready_witness:
  "\<exists>pid s'. tp_create demo_created (demo_producer, demo_world) = (Inr pid, s') \<and> tp_live pid s'"
proof -
  obtain pid s' where run: "tp_create demo_created (demo_producer, demo_world) = (Inr pid, s')"
    by (rule tp_create_succeeds [OF demo_creates, of "(demo_producer, demo_world)"])
       (simp_all add: demo_producer_def)
  from tp_create_ready [OF this demo_producer_rm(1)] run show ?thesis by blast
qed

section \<open>Sending\<close>

text \<open>A connected producer sends a message with exactly one call, on its stub, with its token and
  proxy header, carrying the payload, attributes and routing key as given, its own identity,
  the next request identifier and the resolved schema; the counter advances by one and the
  result is the broker's, error or request identifier.\<close>

theorem tp_send_one_call:
  assumes "static_token w" and "tp_stub t = Some ch"
    and "clock_ms E (outside w) = (now, x1)"
    and "answer_SendMessage E (tp_call t w ch) (send_request t now d a k) x1 = (r, x2)"
  shows "tp_send E d a k (t, w) =
    (map_sum id mrs_request_id r,
     (t\<lparr>tp_request_id := Suc (tp_request_id t)\<rparr>,
      w\<lparr>trace := trace w @ [Rpc (tp_call t w ch) (SendMessage (send_request t now d a k))],
        outside := x2\<rparr>))"
  by (rule tp_send_run) (rule assms)+

theorem tp_send_one_call_witness:
  "let t = demo_producer\<lparr>tp_stub := Some \<lparr>ch_target = ''h'', ch_credentials = None, ch_serial = 0\<rparr>\<rparr> in
   fst (tp_send refusing [1, 2] None (Some ''key'') (t, demo_world)) = Inl (AioRpcError UNIMPLEMENTED '''')
   \<and> tp_request_id (fst (snd (tp_send refusing [1, 2] None (Some ''key'') (t, demo_world)))) = 2"
  unfolding Let_def
  by (subst tp_send_one_call [where r = "Inl (AioRpcError UNIMPLEMENTED '''')"],
      simp_all add: refusing_def refuse_def demo_producer_def,
      subst tp_send_one_call [where r = "Inl (AioRpcError UNIMPLEMENTED '''')"],
      simp_all add: refusing_def refuse_def demo_producer_def)

text \<open>A sequence of calls on one producer; what they return or raise does not stop it.\<close>

datatype tp_op = OpCreate | OpSend bytes "(string \<times> string) list option" "string option" | OpStop

fun tp_run :: "'w Outside \<Rightarrow> tp_op list \<Rightarrow> 'w tp_state \<Rightarrow> 'w tp_state" where
  "tp_run E [] s = s"
| "tp_run E (OpCreate # ops) s = tp_run E ops (snd (tp_create E s))"
| "tp_run E (OpSend d a k # ops) s = tp_run E ops (snd (tp_send E d a k s))"
| "tp_run E (OpStop # ops) s = tp_run E ops (snd (tp_stop s))"

lemma tp_stop_ids: "ids_up s (snd (tp_stop s))"
  by (cases s) (auto simp: tp_stop_def run_simps cancel_task_def ids_up_def split: option.split)

lemma tp_stop_retry_manager: "tp_retry_manager (fst (snd (tp_stop s))) = tp_retry_manager (fst s)"
  by (cases s) (simp add: tp_stop_def run_simps cancel_task_def split: option.split)

lemma tp_run_ids:
  assumes "rm_ok (tp_retry_manager (fst s))"
  shows "ids_up s (tp_run E ops s)"
  using assms
proof (induction ops arbitrary: s)
  case Nil
  show ?case by (simp add: ids_up.refl)
next
  case (Cons x ops)
  define s1 where "s1 = (case x of OpCreate \<Rightarrow> snd (tp_create E s)
    | OpSend d a k \<Rightarrow> snd (tp_send E d a k s) | OpStop \<Rightarrow> snd (tp_stop s))"
  have run: "tp_run E (x # ops) s = tp_run E ops s1" by (cases x) (simp_all add: s1_def)
  have "ids_up s s1 \<and> tp_identity (fst s1) = tp_identity (fst s)"
    using tp_create_ids [OF Cons.prems, of E] tp_create_identity [OF Cons.prems, of E]
      stays_snd [OF tp_send_ids [where E = E], of s] stays_snd [OF fixed_methods(3) [where E = E], of s]
      tp_stop_ids [of s]
      stays_snd [OF fixed_methods(4), of s]
    by (cases x) (simp_all add: s1_def same_def)
  then have "ids_up s s1" and "rm_ok (tp_retry_manager (fst s1))"
    using Cons.prems by (simp_all add: tp_identity_def)
  with Cons.IH show ?case unfolding run by (blast intro: ids_up.trans)
qed

text \<open>C9: Any sequence of creations and sends of one producer uses every request identifier at most
  once and in increasing order, whether the calls succeed or fail.\<close>

theorem tp_request_ids_increase:
  assumes "rm_ok (tp_retry_manager t)" and "tp_run E ops (t, w) = (t', w')"
  shows "\<exists>tr. trace w' = trace w @ tr \<and> sorted_wrt (<) (ids_of tr)
    \<and> (\<forall>i \<in> set (ids_of tr). tp_request_id t \<le> i \<and> i < tp_request_id t')"
  using tp_run_ids [of "(t, w)" E ops] assms by (auto simp: ids_up_def)

theorem tp_request_ids_increase_witness:
  "\<exists>tr. trace (snd (tp_run refusing [OpCreate, OpSend [] None None, OpStop, OpCreate]
        (demo_producer, demo_world))) = [] @ tr \<and> sorted_wrt (<) (ids_of tr)"
proof -
  obtain t' w' where "tp_run refusing [OpCreate, OpSend [] None None, OpStop, OpCreate]
      (demo_producer, demo_world) = (t', w')" by (meson surj_pair)
  from tp_request_ids_increase [OF demo_producer_rm(1) this] show ?thesis
    unfolding \<open>tp_run refusing _ _ = (t', w')\<close> by auto
qed

end
