(* ===== verification/HealthProperties.thy ===== *)
theory HealthProperties
  imports HealthCheck Scenario
begin

text \<open>
  What the health check promises: it acts on the broker's CLOSE and on nothing else, it ends for
  good when it is cancelled or stopped, and it only ever asks about its own client.
\<close>

text \<open>A task for the witnesses, and a world that runs it.\<close>

definition demo_task :: HealthTask where
  "demo_task =
     \<lparr>ht_channel = \<lparr>ch_target = ''127.0.0.1:6650'', ch_credentials = None, ch_serial = 0\<rparr>,
      ht_connect_url = demo_uri, ht_broker_addr = demo_uri, ht_proxy = False,
      ht_client_type = ClientProducer, ht_client_id = 7, ht_stop_event = 0, ht_pc = AtTop,
      ht_cancelled = False\<rparr>"

definition task_world :: "HealthTask \<Rightarrow> bool \<Rightarrow> nat World" where
  "task_world t stopped = demo_world\<lparr>tasks := [t], events := [stopped]\<rparr>"

lemma task_world_simps [simp]:
  "tasks (task_world t b) = [t]" "events (task_world t b) = [b]" "trace (task_world t b) = []"
  by (simp_all add: task_world_def)

lemma task_world_static [simp]: "static_token (task_world t b)"
  using demo_static by (simp add: task_world_def static_token_def)

text \<open>C24: A cancelled health check is silent. Whatever the process does after the cancellation, the
  only step the task itself can take is to end: it makes no call and uses up no request id, it sets
  and clears no event, and it leaves every other task as it is.\<close>

theorem health_cancelled_silent:
  assumes "(health_step E i)\<^sup>*\<^sup>* v w" and "i < length (tasks v)" and "ht_cancelled (tasks v ! i)"
    and "health_own E i w w'"
  shows "trace w' = trace w \<and> outside w' = outside w \<and> events w' = events w
    \<and> health_request_id w' = health_request_id w
    \<and> tasks w' = (tasks w)[i := (tasks w ! i)\<lparr>ht_pc := Ended\<rparr>] \<and> ht_pc (tasks w' ! i) = Ended"
proof -
  from health_run_task [OF assms(1,2)] assms(3) have "ht_cancelled (tasks w ! i)" by blast
  with assms(4) show ?thesis by (auto elim!: health_ownE) (simp_all add: set_pc_def)
qed

theorem health_cancelled_silent_witness:
  "let v = task_world (demo_task\<lparr>ht_cancelled := True\<rparr>) False; w' = set_pc 0 Ended v in
   trace w' = trace v \<and> outside w' = outside v \<and> events w' = events v
   \<and> health_request_id w' = health_request_id v
   \<and> tasks w' = (tasks v)[0 := (tasks v ! 0)\<lparr>ht_pc := Ended\<rparr>] \<and> ht_pc (tasks w' ! 0) = Ended"
  unfolding Let_def
proof (rule health_cancelled_silent)
  show "(health_step refusing 0)\<^sup>*\<^sup>* (task_world (demo_task\<lparr>ht_cancelled := True\<rparr>) False)
    (task_world (demo_task\<lparr>ht_cancelled := True\<rparr>) False)" by (rule rtranclp.rtrancl_refl)
  show "health_own refusing 0 (task_world (demo_task\<lparr>ht_cancelled := True\<rparr>) False)
    (set_pc 0 Ended (task_world (demo_task\<lparr>ht_cancelled := True\<rparr>) False))"
    by (rule health_own.cancelled) (simp_all add: demo_task_def)
qed simp_all

text \<open>C25: Only the broker's CLOSE stops a client. A step of the task leaves every event alone, or it
  has just received CLOSE (status 1) for its own client and sets its own stop event, and ends.\<close>

theorem health_event_only_on_close:
  assumes "health_own E i w w'"
  shows "events w' = events w \<or>
    (\<exists>call q x resp x'. answer_HealthCheck E call q x = (Inr resp, x') \<and> hrs_status resp = 1
       \<and> hr_id q = ht_client_id (tasks w ! i) \<and> hr_client q = ht_client_type (tasks w ! i)
       \<and> last (trace w') = Rpc call (HealthCheck q)
       \<and> events w' = (events w)[ht_stop_event (tasks w ! i) := True]
       \<and> ht_pc (tasks w' ! i) = Ended)"
proof -
  let ?t = "tasks w ! i"
  have call: "\<exists>call q x x'. answer_HealthCheck E call q x = (Inr resp, x')
      \<and> hr_id q = ht_client_id ?t \<and> hr_client q = ht_client_type ?t
      \<and> last (trace w1) = Rpc call (HealthCheck q)"
    if "health_call E ?t w = (Inr resp, w1)" for resp w1
  proof -
    let ?w0 = "w\<lparr>health_request_id := Suc (health_request_id w)\<rparr>"
    obtain r w2 where "call_headers (ht_connect_url ?t) (ht_broker_addr ?t) (ht_proxy ?t) ?w0 = (r, w2)"
      by (meson surj_pair)
    with that show ?thesis
      by (auto simp: health_call_def run_simps split: sum.splits prod.splits) blast
  qed
  from assms show ?thesis
  proof (rule health_ownE)
    assume w': "w' = run_round E i w" and i: "i < length (tasks w)"
    obtain r w1 where c: "health_call E ?t w = (r, w1)" by (meson surj_pair)
    have frame: "tasks w1 = tasks w" "events w1 = events w"
      using health_call_frame [of E ?t w] c by simp_all
    show ?thesis
    proof (cases r)
      case (Inr resp)
      with call c obtain call' q x x' where "answer_HealthCheck E call' q x = (Inr resp, x')"
        "hr_id q = ht_client_id ?t" "hr_client q = ht_client_type ?t"
        "last (trace w1) = Rpc call' (HealthCheck q)" by blast
      then show ?thesis
        using c frame i Inr by (simp add: w' run_round_cases Let_def) blast
    qed (use c frame i in \<open>simp add: w' run_round_cases Let_def\<close>)
  qed (simp_all add: health_call_frame asleep_run)
qed

theorem health_event_only_on_close_witness:
  "let w = task_world demo_task False;
       E = refusing\<lparr>answer_HealthCheck := always (Inr \<lparr>hrs_status = 1\<rparr>)\<rparr>
   in is_set 0 (run_round E 0 w) \<and> ht_pc (tasks (run_round E 0 w) ! 0) = Ended"
proof -
  let ?E = "refusing\<lparr>answer_HealthCheck := always (Inr \<lparr>hrs_status = 1\<rparr>)\<rparr> :: nat Outside"
  let ?w = "task_world demo_task False"
  have own: "health_own ?E 0 ?w (run_round ?E 0 ?w)"
    by (rule health_own.round) (simp_all add: demo_task_def)
  obtain w1 where c: "health_call ?E demo_task ?w = (Inr \<lparr>hrs_status = 1\<rparr>, w1)"
    by (simp add: health_call_def run_simps call_headers_static static_token_def always_def
        task_world_static [unfolded static_token_def])
  have frame: "tasks w1 = [demo_task]" "events w1 = [False]"
    using health_call_frame [of ?E demo_task ?w] c by simp_all
  have "events (run_round ?E 0 ?w) \<noteq> events ?w"
    using c frame by (simp add: run_round_cases Let_def is_set_def demo_task_def)
  with health_event_only_on_close [OF own] show ?thesis
    by (auto simp: Let_def is_set_def demo_task_def)
qed

text \<open>A task whose stop event is already set ends at its next round without asking the broker.\<close>

theorem health_stopped_silent:
  assumes "is_set (ht_stop_event (tasks w ! i)) w" and "ht_pc (tasks w ! i) = AtTop"
    and "health_own E i w w'"
  shows "trace w' = trace w \<and> health_request_id w' = health_request_id w
    \<and> ht_pc (tasks w' ! i) = Ended"
  using assms(3)
  by (rule health_ownE) (use assms in \<open>simp_all add: run_round_cases Let_def\<close>, simp_all add: set_pc_def)

theorem health_stopped_silent_witness:
  "let w = task_world demo_task True; w' = run_round refusing 0 w
   in trace w' = trace w \<and> health_request_id w' = health_request_id w \<and> ht_pc (tasks w' ! 0) = Ended"
  unfolding Let_def
  by (rule health_stopped_silent, simp add: is_set_def demo_task_def, simp add: demo_task_def,
      rule health_own.round) (simp_all add: demo_task_def)

text \<open>Every call a health check makes is about its own client, on the channel it was started
  with, over any run: what the task was started with never changes.\<close>

theorem health_asks_for_its_client:
  assumes "(health_step E i)\<^sup>*\<^sup>* v w" and "i < length (tasks v)" and "health_own E i w w'"
  shows "\<exists>tr. trace w' = trace w @ tr \<and>
    list_all (\<lambda>ob. checks_for (tasks v ! i) ob \<or> ob = Sleep HEALTH_CHECK_INTERVAL_SECS) tr"
proof -
  let ?P = "\<lambda>ob. checks_for (tasks w ! i) ob \<or> ob = Sleep HEALTH_CHECK_INTERVAL_SECS"
  have same: "checks_for (tasks w ! i) = checks_for (tasks v ! i)"
  proof -
    from health_run_task [OF assms(1,2)] have "frozen (tasks w ! i) = frozen (tasks v ! i)" by blast
    then have "ht_channel (tasks w ! i) = ht_channel (tasks v ! i)"
      "ht_client_type (tasks w ! i) = ht_client_type (tasks v ! i)"
      "ht_client_id (tasks w ! i) = ht_client_id (tasks v ! i)"
      by (cases "tasks w ! i"; cases "tasks v ! i"; simp add: frozen_def)+
    then show ?thesis by (simp add: checks_for_def fun_eq_iff split: obs.split request.split)
  qed
  have "emits ?P w w'"
    using assms(3)
  proof (rule health_ownE)
    assume w': "w' = run_round E i w"
    obtain r w1 where c: "health_round E (tasks w ! i) w = (r, w1)" by (meson surj_pair)
    have "emits ?P w w1" using staysD [OF health_round_keeps(2) [of "tasks w ! i" ?P] c] by blast
    then show ?thesis
      using c by (auto simp: w' run_round_def emits_def split: sum.split)
  next
    assume w': "w' = set_pc i Ended (snd (health_call E (tasks w ! i) w))"
    have "emits ?P w (snd (health_call E (tasks w ! i) w))"
      by (rule stays_snd) (rule health_call_keeps(2), blast)
    then show ?thesis by (simp add: w' emits_def)
  qed (simp_all add: asleep_run emits_def)
  then show ?thesis unfolding emits_def same .
qed

theorem health_asks_for_its_client_witness:
  "\<exists>tr. trace (run_round refusing 0 (task_world demo_task False)) = [] @ tr \<and>
    list_all (\<lambda>ob. checks_for demo_task ob \<or> ob = Sleep HEALTH_CHECK_INTERVAL_SECS) tr"
  using health_asks_for_its_client [of refusing 0 "task_world demo_task False",
      OF rtranclp.rtrancl_refl _ health_own.round]
  by (simp add: demo_task_def)

end
