(* ===== verification/ProducerProperties.thy ===== *)
theory ProducerProperties
  imports Producer Traffic TopicProducerProperties HealthProperties
begin

text \<open>
  What a producer promises: its partitions after creation, which partition a message goes to, what
  the sending loop may do and when it ends, and what closing does.
\<close>

section \<open>Facts about the sending loop\<close>

fun sends_only :: "string \<Rightarrow> bytes \<Rightarrow> string option \<Rightarrow> obs \<Rightarrow> bool" where
  "sends_only topic d k (Rpc _ (SendMessage m)) \<longleftrightarrow>
     mi_topic_name (sm_msg_id m) = topic \<and> sm_payload m = d \<and> sm_routing_key m = k"
| "sends_only topic d k (Rpc _ (Ack _)) \<longleftrightarrow> False"
| "sends_only topic d k _ \<longleftrightarrow> True"

fun is_send :: "obs \<Rightarrow> bool" where
  "is_send (Rpc _ (SendMessage _)) \<longleftrightarrow> True"
| "is_send _ \<longleftrightarrow> False"

lemma quiet_sends_only: "quiet ob \<Longrightarrow> sends_only topic d k ob"
  by (cases ob rule: ack_in.cases) (simp_all add: quiet_def)

lemma other_sends [simp]:
  "is_lookup ob \<Longrightarrow> \<not> is_send ob" "is_create ob \<Longrightarrow> \<not> is_send ob"
  "is_registry_call ob \<Longrightarrow> \<not> is_send ob" "is_sleep ob \<Longrightarrow> \<not> is_send ob"
  by (cases ob rule: is_send.cases; simp)+

lemma tp_send_emits:
  "on_world (emits (sends_only (tp_topic (fst s)) d k)) s (snd (tp_send E d a k s))"
proof -
  obtain t w where s: "s = (t, w)" by (meson surj_pair)
  show ?thesis
  proof (cases "tp_stub t")
    case None
    then show ?thesis by (simp add: s tp_send_disconnected ow_emits.refl)
  next
    case (Some ch)
    obtain now x where clock: "clock_ms E (outside w) = (now, x)" by (meson surj_pair)
    define t1 where "t1 = t\<lparr>tp_request_id := Suc (tp_request_id t)\<rparr>"
    obtain r w2 where h: "tp_headers (t1, w\<lparr>outside := x\<rparr>) = (r, (t1, w2))"
      and tr: "trace w2 = trace w"
      by (rule tp_headers_frame [of t1 "w\<lparr>outside := x\<rparr>"]) (rule that, assumption, simp)
    show ?thesis
      using s Some clock h tr
      by (auto simp: tp_send_def run_simps t1_def [symmetric] Let_def on_world_def emits_def
          split: sum.split prod.split)
  qed
qed

lemma tp_recover_identity:
  assumes "rm_ok (tp_retry_manager (fst s))"
  shows "fixed_tp s (snd (tp_recover E rm n err s))"
proof (rule tp_recover_keeps [OF same.evolution_axioms assms])
  show "fixed_tp s (snd (tp_create E s))" if "rm_ok (tp_retry_manager (fst s))" for s
    using tp_create_identity [OF that] by (simp add: same_def)
qed (simp_all add: same_def pause_self)

lemma tp_recover_emits:
  assumes "rm_ok (tp_retry_manager (fst s))"
  shows "on_world (emits quiet) s (snd (tp_recover E rm n err s))"
proof (rule tp_recover_keeps [OF ow_emits.evolution_axioms assms])
  show "on_world (emits quiet) s (snd (tp_create E s))"
    if "rm_ok (tp_retry_manager (fst s))" for s
    using that by (rule tp_create_emits) auto
  have "stays (emits quiet) (handle_lookup E a topic)" for a topic
    by (rule handle_lookup_keeps(2)) (auto dest: is_lookup_call_is_lookup)
  then show "on_world (emits quiet) (t, w) (t', snd (handle_lookup E a topic w))"
    for a topic t t' w by (simp add: on_world_def stays_def)
  have "stays (on_world (emits quiet)) (pause E rm n)" for n
    by (rule pause_keeps(2)) simp
  then show "on_world (emits quiet) s (snd (pause E rm n s))" for n s
    by (rule stays_snd)
qed

lemma emits_mono: "emits P v w \<Longrightarrow> (\<And>ob. P ob \<Longrightarrow> Q ob) \<Longrightarrow> emits Q v w"
  by (auto simp: emits_def list_all_iff)

text \<open>A whole run of the loop: the topic producer stays the same one, and every message sent is the
  given one for its topic.\<close>

lemma tp_send_loop_safe:
  assumes "tp_send_loop E rm d a k n s = Some y" and "rm_ok (tp_retry_manager (fst s))"
  shows "tp_identity (fst (snd y)) = tp_identity (fst s)
    \<and> on_world (emits (sends_only (tp_topic (fst s)) d k)) s (snd y)"
proof -
  let ?P = "sends_only (tp_topic (fst s)) d k"
  let ?I = "\<lambda>u. tp_identity (fst u) = tp_identity (fst s)"
  have id: "rm_ok (tp_retry_manager (fst u))" "tp_topic (fst u) = tp_topic (fst s)"
    if "?I u" for u :: "'a tp_state"
    using that assms(2) by (simp_all add: tp_identity_def)
  have "?I (snd y) \<and> on_world (emits ?P) s (snd y)"
    using assms(1) unfolding tp_send_loop_def
  proof (rule until_done_invar [OF _ ow_emits.evolution_axioms])
    fix u :: "'a tp_state"
    assume u: "?I u"
    show "?I (snd (tp_send E d a k u)) \<and> on_world (emits ?P) u (snd (tp_send E d a k u))"
      using u stays_snd [OF fixed_methods(3) [where E = E and d = d and a = a and k = k], of u]
        tp_send_emits [of u d k E a] id(2) [OF u]
      by (simp add: same_def)
    show "?I (snd (tp_recover E rm n e u)) \<and> on_world (emits ?P) u (snd (tp_recover E rm n e u))" for n e
      using u tp_recover_identity [OF id(1) [OF u], of E rm n e]
        tp_recover_emits [OF id(1) [OF u], of E rm n e]
      by (auto simp: same_def on_world_def intro: emits_mono quiet_sends_only)
  qed simp
  then show ?thesis by simp
qed
section \<open>Creation\<close>

lemma p_topic_producers_upt:
  "for_each (\<lambda>pid. p_topic_producer (f pid) (g pid)) (map int [0..<n]) (p, w) =
     (Inr (map (\<lambda>i. fresh_tp p (f (int i)) (g (int i)) (length (events w) + i) (uri w)) [0..<n]),
      (p, w\<lparr>events := events w @ replicate n False\<rparr>))"
proof -
  have "map (\<lambda>i. fresh_tp p (f (map int [0..<n] ! i)) (g (map int [0..<n] ! i)) (length (events w) + i) (uri w)) [0..<n]
      = map (\<lambda>i. fresh_tp p (f (int i)) (g (int i)) (length (events w) + i) (uri w)) [0..<n]"
    by (rule map_cong) simp_all
  then show ?thesis by (simp add: p_topic_producers_run)
qed

lemma p_create_parts_run:
  assumes "p_partitions p = int n" and "0 < n"
  shows "p_create E order (p, w) =
    (let p1 = p\<lparr>p_message_router := Some (new_MessageRouter (int n))\<rparr>;
         tps = map (\<lambda>i. fresh_tp p1 (part_topic (p_topic_name p) (int i)) (part_name (p_producer_name p) (int i))
                          (length (events w) + i) (uri w)) [0..<n]
     in case create_parts E order tps (w\<lparr>events := events w @ replicate n False\<rparr>) of
          (Inl e, w') \<Rightarrow> (Inl e, (p1, w'))
        | (Inr ps, w') \<Rightarrow> (Inr (), (p1\<lparr>p_producers := ps\<rparr>, w')))"
  using assms
  by (simp add: p_create_def run_simps p_topic_producers_upt Let_def split: prod.split sum.split)

text \<open>C6: A producer over \<open>n\<close> partitions that was created has them all, in order, whatever the order
  in which the brokers answer: entry \<open>i\<close> is a ready topic producer for the topic and name with
  suffix \<open>i\<close>, on its own stop event; the \<open>n\<close> topics are different, and the router starts at the
  first partition of \<open>n\<close>.\<close>

theorem p_create_all_partitions:
  assumes "p_partitions p = int n" and "0 < n" and "schedule order n"
    and "p_create E order (p, w) = (Inr (), (p', w'))"
  shows "length (p_producers p') = n
    \<and> (\<forall>i < n. \<exists>t. p_producers p' ! i = Some t
        \<and> tp_topic t = part_topic (p_topic_name p) (int i)
        \<and> tp_producer_name t = part_name (p_producer_name p) (int i)
        \<and> tp_stop_event t = length (events w) + i \<and> tp_ready t w')
    \<and> distinct (map (\<lambda>i. part_topic (p_topic_name p) (int i)) [0..<n])
    \<and> p_message_router p' = Some (new_MessageRouter (int n))"
proof -
  define p1 where "p1 = p\<lparr>p_message_router := Some (new_MessageRouter (int n))\<rparr>"
  define tps where "tps = map (\<lambda>i. fresh_tp p1 (part_topic (p_topic_name p) (int i))
    (part_name (p_producer_name p) (int i)) (length (events w) + i) (uri w)) [0..<n]"
  obtain ps where parts: "create_parts E order tps (w\<lparr>events := events w @ replicate n False\<rparr>) = (Inr ps, w')"
    and p': "p' = p1\<lparr>p_producers := ps\<rparr>"
    using assms(4) unfolding p_create_parts_run [OF assms(1,2)] Let_def p1_def [symmetric] tps_def [symmetric]
    by (auto split: prod.splits sum.splits)
  have "length ps = n \<and> (\<forall>i < n. \<exists>t. ps ! i = Some t \<and> tp_identity t = tp_identity (tps ! i) \<and> tp_ready t w')"
    using create_parts_ok [OF _ _ parts] assms(3) by (simp add: tps_def)
  moreover have "distinct (map (\<lambda>i. part_topic (p_topic_name p) (int i)) [0..<n])"
    by (auto simp: distinct_map inj_on_def part_topic_def str_int_inj)
  ultimately show ?thesis
    by (fastforce simp: p' p1_def tps_def tp_identity_def)
qed

definition demo_partitioned :: Producer where
  "demo_partitioned = new_Producer ''/default/t'' ''p'' 2 None NON_RELIABLE default_ProducerOptions"

lemma created_succeeds:
  assumes "always_creates E" and "static_token w" and "tp_schema_ref tp = None"
    and "rm_ok (tp_retry_manager tp)"
  obtains tp' w' where "created E tp w = (Inr tp', w')" and "static_token w'"
proof -
  obtain pid s' where run: "tp_create E (tp, w) = (Inr pid, s')"
    using tp_create_succeeds [OF assms(1), of "(tp, w)"] assms(2,3) by auto
  have "grows w (snd s')" using tp_create_grows [of "(tp, w)" E] assms(4) run by (simp add: on_world_def)
  then have "static_token (snd s')" using assms(2) by (rule static_token_grows)
  with run show ?thesis by (intro that [of "fst s'" "snd s'"]) (simp_all add: created_def split: prod.split)
qed

lemma demo_partitioned_creates:
  obtains p' w' where "p_create demo_created [1, 0] (demo_partitioned, demo_world) = (Inr (), (p', w'))"
proof -
  define tp where "tp i = fresh_tp (demo_partitioned\<lparr>p_message_router := Some (new_MessageRouter 2)\<rparr>)
    (part_topic ''/default/t'' (int i)) (part_name ''p'' (int i)) i demo_uri" for i
  have tp: "tp_schema_ref (tp i) = None" "rm_ok (tp_retry_manager (tp i))" for i
    by (simp_all add: tp_def demo_partitioned_def new_Producer_def)
  have "static_token (demo_world\<lparr>events := [False, False]\<rparr>)" using demo_static by (simp add: static_token_def)
  with tp obtain t1 w1 where c1: "created demo_created (tp 1) (demo_world\<lparr>events := [False, False]\<rparr>) = (Inr t1, w1)"
    and "static_token w1" using created_succeeds [OF demo_creates] by metis
  with tp obtain t0 w0 where c0: "created demo_created (tp 0) w1 = (Inr t0, w0)"
    using created_succeeds [OF demo_creates] by metis
  have "create_parts demo_created [1, 0] [tp 0, tp 1] (demo_world\<lparr>events := [False, False]\<rparr>)
      = (Inr [Some t0, Some t1], w0)"
    using c1 c0
    by (simp add: create_parts_def gather_def create_one_def run_simps upt_rec)
  moreover have "p_partitions demo_partitioned = int 2"
    by (simp add: demo_partitioned_def new_Producer_def)
  ultimately show ?thesis
    using p_create_parts_run [of demo_partitioned 2 demo_created "[1, 0]" demo_world] that
    by (simp add: tp_def upt_rec numeral_2_eq_2 demo_partitioned_def new_Producer_def Let_def)
qed

theorem p_create_all_partitions_witness:
  "\<exists>p' w'. p_create demo_created [1, 0] (demo_partitioned, demo_world) = (Inr (), (p', w'))
    \<and> length (p_producers p') = 2 \<and> (\<exists>t. p_producers p' ! 1 = Some t \<and> tp_topic t = ''/default/t-part-1'')"
proof -
  obtain p' w' where run: "p_create demo_created [1, 0] (demo_partitioned, demo_world) = (Inr (), (p', w'))"
    by (rule demo_partitioned_creates)
  have "schedule [1, 0] 2" by (auto simp: schedule_def)
  from p_create_all_partitions [OF _ _ this run]
  have "length (p_producers p') = 2 \<and> (\<exists>t. p_producers p' ! 1 = Some t
      \<and> tp_topic t = part_topic (p_topic_name demo_partitioned) 1)"
    by (auto simp: demo_partitioned_def new_Producer_def dest!: spec [of _ "1 :: nat"])
  with run show ?thesis
    by (simp add: demo_partitioned_def new_Producer_def part_topic_def str_int_def dec.simps digit_def)
qed

text \<open>C17: A creation that fails for one partition leaves the producer unusable, whatever its other
  partitions did: if it held no topic producer before, it holds none, and a send raises
  \<open>DanubeError\<close> at once without a call, keyed or not.\<close>

theorem p_create_failure_blocks_sends:
  assumes "p_producers p = []" and "p_create E order (p, w) = (Inl e, (p', w'))"
  shows "p_producers p' = []
    \<and> (\<exists>p''. p_send E2 d a (p', v) = Some (Inl (DanubeError ''partition ID out of range''), (p'', v)))
    \<and> p_send_with_key E2 d a key (p', v) = Some (Inl (DanubeError ''partition ID out of range''), (p', v))"
proof -
  have shape: "p_producers p' = [] \<and> p_partitions p' = p_partitions p
    \<and> (p_partitions p > 0 \<longrightarrow> p_message_router p' = Some (new_MessageRouter (p_partitions p)))"
    using assms
    by (auto simp: p_create_def run_simps p_topic_producers_run split: if_splits prod.splits sum.splits)
  have "\<exists>p''. prepare_send select_partition (p', v) = (Inl (DanubeError ''partition ID out of range''), (p'', v))"
    using shape
    by (cases "p_partitions p > 0")
       (auto simp: prepare_send_def select_partition_def on_router_def run_simps round_robin_run
          new_MessageRouter_def)
  moreover have "prepare_send (select_partition_for_key key) (p', v)
      = (Inl (DanubeError ''partition ID out of range''), (p', v))"
  proof (cases "p_partitions p > 0")
    case True
    with shape have "p'\<lparr>p_message_router := Some (new_MessageRouter (p_partitions p))\<rparr> = p'" by simp
    with shape True show ?thesis
      by (simp add: prepare_send_def select_partition_for_key_def on_router_def run_simps
          key_route_def py_mod_def new_MessageRouter_def Let_def)
  qed (use shape in \<open>simp add: prepare_send_def select_partition_for_key_def run_simps\<close>)
  ultimately show ?thesis
    using shape by (auto simp: p_send_def p_send_with_key_def)
qed

definition demo_outage :: "nat Outside" where
  "demo_outage = refusing\<lparr>answer_CreateProducer := always (Inl (AioRpcError UNAVAILABLE '''')),
     answer_SendMessage := always (Inl (AioRpcError UNAVAILABLE ''''))\<rparr>"

lemma demo_outage_retryable:
  "always_retryable (answer_CreateProducer demo_outage)" "always_retryable (answer_SendMessage demo_outage)"
  by (simp_all add: demo_outage_def always_retryable_def always_def)

definition demo_single :: Producer where
  "demo_single = new_Producer ''/default/t'' ''p'' 0 None NON_RELIABLE default_ProducerOptions"

theorem p_create_failure_blocks_sends_witness:
  "\<exists>e p' w'. p_create demo_outage [] (demo_single, demo_world) = (Inl e, (p', w')) \<and> p_producers p' = []
    \<and> p_send_with_key refusing [1] None ''k'' (p', w')
        = Some (Inl (DanubeError ''partition ID out of range''), (p', w'))"
proof -
  let ?tp = "fresh_tp demo_single ''/default/t'' ''p'' 0 demo_uri"
  have "static_token (demo_world\<lparr>events := [False]\<rparr>)" using demo_static by (simp add: static_token_def)
  then obtain e s' where "tp_create demo_outage (?tp, demo_world\<lparr>events := [False]\<rparr>) = (Inl e, s')"
    using tp_create_exhausts [OF demo_outage_retryable(1), of "(?tp, demo_world\<lparr>events := [False]\<rparr>)"] by auto
  then have run: "p_create demo_outage [] (demo_single, demo_world) = (Inl e, (demo_single, snd s'))"
    by (simp add: p_create_def run_simps created_def demo_single_def new_Producer_def split: prod.split)
  have "p_producers demo_single = []" by (simp add: demo_single_def new_Producer_def)
  from p_create_failure_blocks_sends [OF this run] run show ?thesis by blast
qed

section \<open>The partition of a message\<close>

text \<open>A producer as its creation leaves it, with \<open>n\<close> partitions.\<close>

definition p_created :: "nat \<Rightarrow> Producer \<Rightarrow> bool" where
  "p_created n p \<longleftrightarrow> 0 < n \<and> p_partitions p = int n \<and> length (p_producers p) = n
     \<and> (\<exists>r. p_message_router p = Some r \<and> mr_partitions r = int n)
     \<and> (\<forall>i < n. \<exists>t. p_producers p ! i = Some t \<and> rm_ok (tp_retry_manager t))"

definition demo_connected :: "string \<Rightarrow> TopicProducer" where
  "demo_connected topic = demo_producer\<lparr>tp_topic := topic,
     tp_stub := Some \<lparr>ch_target = ''h'', ch_credentials = None, ch_serial = 0\<rparr>\<rparr>"

lemma demo_connected_simps [simp]:
  "rm_ok (tp_retry_manager (demo_connected topic))" "tp_schema_ref (demo_connected topic) = None"
  "max_retries (tp_retry_manager (demo_connected topic)) = 5"
  "tp_stub (demo_connected topic) = Some \<lparr>ch_target = ''h'', ch_credentials = None, ch_serial = 0\<rparr>"
  using demo_producer_rm by (simp_all add: demo_connected_def) (simp add: demo_producer_def)

definition demo_partitions :: Producer where
  "demo_partitions = demo_partitioned\<lparr>p_producers :=
       [Some (demo_connected ''/default/t-part-0''), Some (demo_connected ''/default/t-part-1'')],
     p_message_router := Some (new_MessageRouter 2)\<rparr>"

lemma demo_partitions_created: "p_created 2 demo_partitions"
proof -
  have "\<exists>t. p_producers demo_partitions ! i = Some t \<and> rm_ok (tp_retry_manager t)" if "i < 2" for i
    using that by (auto simp: demo_partitions_def less_2_cases_iff)
  then show ?thesis
    by (simp add: p_created_def demo_partitions_def demo_partitioned_def new_Producer_def new_MessageRouter_def)
qed

text \<open>A run of the loop at partition \<open>j\<close>: the messages go to its topic, and the producer changes in
  this partition's topic producer only, which stays the same one.\<close>

lemma send_loop_at:
  assumes "j < length (p_producers p)" and "p_producers p ! j = Some t" and "rm_ok (tp_retry_manager t)"
    and "send_loop E (int j) rm d a k n (p, w) = Some (r, (p', w'))"
  shows "emits (sends_only (tp_topic t) d k) w w'"
    and "\<exists>t'. p' = put_tp j p t' \<and> tp_identity t' = tp_identity t"
proof -
  have "(p, w) = at_part j p (t, w)" using put_tp_same [OF assms(2)] by (simp add: at_part_def)
  with assms(1,4) obtain y where run: "tp_send_loop E rm d a k n (t, w) = Some y"
    and y: "map_prod id (at_part j p) y = (r, (p', w'))"
    by (auto simp: send_loop_part)
  obtain t' where y': "y = (r, (t', w'))" and p': "p' = put_tp j p t'"
    using y by (cases y) (auto simp: at_part_def)
  from tp_send_loop_safe [OF run] assms(3) y' p'
  show "emits (sends_only (tp_topic t) d k) w w'" "\<exists>t'. p' = put_tp j p t' \<and> tp_identity t' = tp_identity t"
    by (auto simp: on_world_def)
qed

lemma p_created_put:
  assumes "p_created n p" and "p_producers p ! j = Some t" and "tp_identity t' = tp_identity t" and "j < n"
  shows "p_created n (put_tp j p t')"
proof -
  have "tp_retry_manager t' = tp_retry_manager t" using assms(3) by (simp add: tp_identity_def)
  moreover have "rm_ok (tp_retry_manager t)" using assms(1,2,4) by (auto simp: p_created_def)
  ultimately show ?thesis
    using assms(1,4) by (auto simp: p_created_def put_tp_def nth_list_update)
qed

text \<open>C1: A keyed send goes to the partition that the key names and nowhere else. Whatever the brokers
  answer, if the call returns or raises, every message it sent carries the data and the key and
  the topic of partition \<open>fnv1a_hash key mod n\<close>, and it acknowledged nothing; no other partition's topic producer and not the
  router has changed, and this partition still has the same topic, name and stop event.\<close>

theorem key_goes_to_its_partition:
  assumes "p_created n p" and "j = nat (fnv1a_hash key mod int n)" and "p_producers p ! j = Some t"
    and "p_send_with_key E d a key (p, w) = Some (r, (p', w'))"
  shows "emits (sends_only (tp_topic t) d (Some key)) w w'
    \<and> p_message_router p' = p_message_router p
    \<and> (\<forall>i. i \<noteq> j \<longrightarrow> p_producers p' ! i = p_producers p ! i)
    \<and> (\<exists>t'. p_producers p' ! j = Some t' \<and> tp_identity t' = tp_identity t)"
proof -
  have "j < n" using assms(1,2) by (simp add: p_created_def nat_less_iff)
  then obtain router where created: "0 < n" "p_partitions p = int n" "length (p_producers p) = n"
    "p_message_router p = Some router" "mr_partitions router = int n" "rm_ok (tp_retry_manager t)" "j < n"
    using assms(1,3) by (auto simp: p_created_def)
  have j: "fnv1a_hash key mod p_partitions p = int j" using assms(2) created(1,2) by simp
  have "prepare_send (select_partition_for_key key) (p, w) = (Inr (int j, retry_of (p_options p)), (p, w))"
    using prepare_send_key [of p router key w] created j by simp
  then have "send_loop E (int j) (retry_of (p_options p)) d a (Some key) 0 (p, w) = Some (r, (p', w'))"
    using assms(4) by (simp add: p_send_with_key_def)
  from send_loop_at [OF _ assms(3) created(6) this] created(3,7) show ?thesis
    by (auto simp: put_tp_def)
qed

text \<open>A send that is refused for good raises at once.\<close>

lemma refused_send:
  assumes "tp_stub t = Some ch"
  obtains w' where "tp_send_loop refusing rm d a k n (t, demo_world)
    = Some (Inl (AioRpcError UNIMPLEMENTED ''''), (t\<lparr>tp_request_id := Suc (tp_request_id t)\<rparr>, w'))"
proof -
  have clock: "clock_ms refusing (outside demo_world) = (1700000000000, 0)" by (simp add: refusing_def)
  have answer: "answer_SendMessage refusing (tp_call t demo_world ch)
      (send_request t 1700000000000 d a k) 0 = (Inl (AioRpcError UNIMPLEMENTED ''''), 0 :: nat)"
    by (simp add: refusing_def refuse_def)
  note tp_send_run [OF demo_static assms clock answer]
  then show ?thesis
    by (intro that) (simp add: tp_send_loop_def until_done.simps tp_recover_def run_simps)
qed

theorem key_goes_to_its_partition_witness:
  "\<exists>(t :: TopicProducer) r p' w'. p_send_with_key refusing [7] None ''order-1'' (demo_partitions, demo_world) = Some (r, (p', w'))
    \<and> emits (sends_only (tp_topic t) [7] (Some ''order-1'')) demo_world w'"
proof -
  define j where "j = nat (fnv1a_hash ''order-1'' mod int 2)"
  have j: "j < 2" "fnv1a_hash ''order-1'' mod int 2 = int j" by (simp_all add: j_def nat_less_iff)
  then obtain t where t: "p_producers demo_partitions ! j = Some t" "tp_stub t \<noteq> None"
    by (auto simp: demo_partitions_def less_2_cases_iff)
  then obtain ch where "tp_stub t = Some ch" by blast
  then obtain w' where run: "tp_send_loop refusing (retry_of (p_options demo_partitions)) [7] None (Some ''order-1'') 0
      (t, demo_world) = Some (Inl (AioRpcError UNIMPLEMENTED ''''), (t\<lparr>tp_request_id := Suc (tp_request_id t)\<rparr>, w'))"
    by (rule refused_send)
  have parts: "length (p_producers demo_partitions) = 2" by (simp add: demo_partitions_def)
  have "prepare_send (select_partition_for_key ''order-1'') (demo_partitions, demo_world)
      = (Inr (int j, retry_of (p_options demo_partitions)), (demo_partitions, demo_world))"
    using prepare_send_key [of demo_partitions "new_MessageRouter 2" "''order-1''" demo_world] j(2)
    by (simp add: demo_partitions_def demo_partitioned_def new_Producer_def new_MessageRouter_def)
  then obtain p' where sent: "p_send_with_key refusing [7] None ''order-1'' (demo_partitions, demo_world)
      = Some (Inl (AioRpcError UNIMPLEMENTED ''''), (p', w'))"
    using send_loop_part [of j demo_partitions refusing "retry_of (p_options demo_partitions)" "[7]" None
        "Some ''order-1''" 0 "(t, demo_world)"] run j(1) parts put_tp_same [OF t(1)]
    by (simp add: p_send_with_key_def at_part_def)
  from sent key_goes_to_its_partition [OF demo_partitions_created j_def t(1) sent] show ?thesis
    by blast
qed

text \<open>C3: Sends without a key rotate. If the call returns or raises, every message it sent carries the
  data and no key and goes to the partition after the previous one, modulo \<open>n\<close>; the router
  has advanced to it, no other partition has changed, and the producer is as ready for the next
  send as before.\<close>

theorem sends_rotate:
  assumes "p_created n p" and "p_message_router p = Some router"
    and "j = nat ((mr_last router + 1) mod int n)" and "p_producers p ! j = Some t"
    and "p_send E d a (p, w) = Some (r, (p', w'))"
  shows "emits (sends_only (tp_topic t) d None) w w'
    \<and> p_message_router p' = Some (router\<lparr>mr_last := int j\<rparr>)
    \<and> (\<forall>i. i \<noteq> j \<longrightarrow> p_producers p' ! i = p_producers p ! i)
    \<and> p_created n p'"
proof -
  have created: "0 < n" "p_partitions p = int n" "length (p_producers p) = n" "mr_partitions router = int n"
    using assms(1,2) by (auto simp: p_created_def)
  have j: "(mr_last router + 1) mod int n = int j" "j < n"
    using assms(3) created(1) by (simp_all add: nat_less_iff)
  have rm: "rm_ok (tp_retry_manager t)" using assms(1,4) j(2) by (auto simp: p_created_def)
  define p1 where "p1 = p\<lparr>p_message_router := Some (router\<lparr>mr_last := int j\<rparr>)\<rparr>"
  have p1: "p_created n p1" "p_producers p1 = p_producers p"
    using assms(1,2) by (auto simp: p_created_def p1_def)
  have "prepare_send select_partition (p, w) = (Inr (int j, retry_of (p_options p)), (p1, w))"
    using prepare_send_next [of p router w] assms(2) created j by (simp add: p1_def)
  then have "send_loop E (int j) (retry_of (p_options p)) d a None 0 (p1, w) = Some (r, (p', w'))"
    using assms(5) by (simp add: p_send_def)
  from send_loop_at [OF _ _ rm this] p1(2) assms(4) created(3) j(2)
  have "emits (sends_only (tp_topic t) d None) w w'"
    and "\<exists>t'. p' = put_tp j p1 t' \<and> tp_identity t' = tp_identity t" by auto
  moreover from this(2) p_created_put [OF p1(1) _ _ j(2)] assms(4) p1(2) have "p_created n p'" by auto
  ultimately show ?thesis
    by (auto simp: put_tp_def p1_def)
qed

theorem sends_rotate_witness:
  "\<exists>r p' w'. p_send refusing [7] None (demo_partitions, demo_world) = Some (r, (p', w'))
    \<and> emits (sends_only ''/default/t-part-0'' [7] None) demo_world w' \<and> p_created 2 p'"
proof -
  let ?p1 = "demo_partitions\<lparr>p_message_router := Some ((new_MessageRouter 2)\<lparr>mr_last := 0\<rparr>)\<rparr>"
  let ?t = "demo_connected ''/default/t-part-0''"
  have t: "p_producers demo_partitions ! 0 = Some ?t" and len: "0 < length (p_producers ?p1)"
    by (simp_all add: demo_partitions_def)
  obtain w' where run: "tp_send_loop refusing (retry_of (p_options demo_partitions)) [7] None None 0
      (?t, demo_world) = Some (Inl (AioRpcError UNIMPLEMENTED ''''), (?t\<lparr>tp_request_id := Suc (tp_request_id ?t)\<rparr>, w'))"
    by (rule refused_send [OF demo_connected_simps(4)])
  have "prepare_send select_partition (demo_partitions, demo_world)
      = (Inr (int 0, retry_of (p_options demo_partitions)), (?p1, demo_world))"
    using prepare_send_next [of demo_partitions "new_MessageRouter 2" demo_world]
    by (simp add: demo_partitions_def demo_partitioned_def new_Producer_def new_MessageRouter_def)
  moreover have "at_part 0 ?p1 (?t, demo_world) = (?p1, demo_world)"
    using put_tp_same [of ?p1 0 ?t] t by (simp add: at_part_def)
  ultimately obtain p' where sent: "p_send refusing [7] None (demo_partitions, demo_world)
      = Some (Inl (AioRpcError UNIMPLEMENTED ''''), (p', w'))"
    using send_loop_part [OF len, of refusing "retry_of (p_options demo_partitions)" "[7]" None None 0
        "(?t, demo_world)"] run
    by (simp add: p_send_def at_part_def)
  have "p_message_router demo_partitions = Some (new_MessageRouter 2)" by (simp add: demo_partitions_def)
  from sends_rotate [OF demo_partitions_created this _ t sent] sent show ?thesis
    by (simp add: new_MessageRouter_def demo_connected_def)
qed

section \<open>When the sending loop ends\<close>

text \<open>One send to a broker that is down.\<close>

lemma tp_send_outage:
  assumes "always_retryable (answer_SendMessage E)" and "static_token (snd s)" and "tp_stub (fst s) \<noteq> None"
  shows "\<exists>e s1. tp_send E d a k s = (Inl e, s1) \<and> is_retryable e \<and> static_token (snd s1)
    \<and> tp_stub (fst s1) = tp_stub (fst s) \<and> tp_identity (fst s1) = tp_identity (fst s)
    \<and> seen is_send (snd s1) = seen is_send (snd s) + 1
    \<and> seen is_sleep (snd s1) = seen is_sleep (snd s)"
proof -
  obtain t w where s: "s = (t, w)" by (meson surj_pair)
  with assms obtain ch where st: "static_token w" "tp_stub t = Some ch" by auto
  obtain now x1 where clock: "clock_ms E (outside w) = (now, x1)" by (meson surj_pair)
  obtain code msg x2 where ans: "answer_SendMessage E (tp_call t w ch) (send_request t now d a k) x1
      = (Inl (AioRpcError code msg), x2)" and "is_retryable (AioRpcError code msg)"
    using assms(1) unfolding always_retryable_def by metis
  with tp_send_run [OF st clock ans] st(1) show ?thesis
    by (simp add: s seen_def static_token_def)
qed

lemma retryable_not_unrecoverable: "is_retryable e \<Longrightarrow> \<not> is_UnrecoverableError e"
  by (cases e) simp_all

lemma tp_recover_waits:
  assumes "is_retryable err" and "n + 1 \<le> max_retries rm" and "0 \<le> n" and "rm_ok rm"
  shows "\<exists>s'. tp_recover E rm n err s = (Inr (n + 1), s') \<and> fst s' = fst s
    \<and> on_world grows s s' \<and> seen is_send (snd s') = seen is_send (snd s)
    \<and> seen is_sleep (snd s') = seen is_sleep (snd s) + 1"
proof -
  obtain s' where p: "pause E rm n s = (Inr (), s')" using pause_ok [OF assms(4,3), of E s] by blast
  have "fst s' = fst s" using pause_self [of E rm n s] p by simp
  moreover have "on_world grows s s'" using staysD [OF pause_keeps(1) p] .
  moreover have "seen is_send (snd s') = seen is_send (snd s)"
    using seen_kept [OF pause_counts(2), of is_send E rm n s] p by simp
  moreover have "seen is_sleep (snd s') = seen is_sleep (snd s) + 1"
    using pause_one_sleep [OF assms(4,3), of E s] p by simp
  ultimately show ?thesis
    using assms(1,2) retryable_not_unrecoverable [OF assms(1)] p
    by (simp add: tp_recover_def run_simps)
qed

definition lookup_fails :: "'w Outside \<Rightarrow> bool" where
  "lookup_fails E \<longleftrightarrow> (\<forall>call q x. \<exists>e x'. answer_TopicLookup E call q x = (Inl e, x'))"

lemma handle_lookup_fails:
  assumes "lookup_fails E" and "static_token w"
  shows "\<exists>e w'. handle_lookup E a topic w = (Inl e, w') \<and> seen is_send w' = seen is_send w
    \<and> seen is_sleep w' = seen is_sleep w"
proof -
  obtain r w' where run: "handle_lookup E a topic w = (r, w')" by (meson surj_pair)
  have "emits is_lookup w w'"
    using staysD [OF handle_lookup_keeps(2) run] is_lookup_call_is_lookup by blast
  then have "seen is_send w' = seen is_send w" "seen is_sleep w' = seen is_sleep w"
    by (auto intro!: emits_seen elim: emits_mono)
  moreover have "\<exists>e. r = Inl e"
  proof -
    obtain conn cm' where c: "on_conn_mgr (get_connection a a) w = (Inr conn, w\<lparr>conn_mgr := cm'\<rparr>)"
      and opts: "cm_options cm' = cm_options (conn_mgr w)" by (rule get_connection_run)
    have static: "static_token (w\<lparr>conn_mgr := cm'\<rparr>)" using assms(2) opts by (simp add: static_token_def)
    show ?thesis
      using run c attach_token_static [OF static] assms(1)
      by (auto simp: lookup_fails_def handle_lookup_result lookup_topic_def run_simps
          split: prod.splits sum.splits) (metis prod.inject sum.distinct(1))+
  qed
  ultimately show ?thesis using run by blast
qed

lemma tp_send_loop_outage:
  assumes "always_retryable (answer_SendMessage E)" and "lookup_fails E" and "rm_ok rm"
    and "0 \<le> n" and "n \<le> max_retries rm" and "static_token (snd s)" and "tp_stub (fst s) \<noteq> None"
  shows "\<exists>e s'. tp_send_loop E rm d a k n s = Some (Inl e, s') \<and> is_retryable e
    \<and> seen is_send (snd s') = seen is_send (snd s) + nat (max_retries rm - n) + 1
    \<and> seen is_sleep (snd s') = seen is_sleep (snd s) + nat (max_retries rm - n)"
  using assms(4-7)
proof (induction "nat (max_retries rm - n)" arbitrary: n s)
  case 0
  obtain e s1 where send: "tp_send E d a k s = (Inl e, s1)" "is_retryable e" "static_token (snd s1)"
    "seen is_send (snd s1) = seen is_send (snd s) + 1" "seen is_sleep (snd s1) = seen is_sleep (snd s)"
    using tp_send_outage [OF assms(1) 0(4,5), of d a k] by blast
  obtain t1 w1 where s1: "s1 = (t1, w1)" by (meson surj_pair)
  with send(3) obtain e2 w2 where look: "handle_lookup E (tp_connect_url t1) (tp_topic t1) w1 = (Inl e2, w2)"
    "seen is_send w2 = seen is_send w1" "seen is_sleep w2 = seen is_sleep w1"
    using handle_lookup_fails [OF assms(2)] by (metis snd_conv)
  have last: "n + 1 > max_retries rm" "nat (max_retries rm - n) = 0" using 0(1) by simp_all
  have "tp_recover E rm n e s1 = (Inl e, (t1, w2))"
    using send(2) retryable_not_unrecoverable [OF send(2)] last(1) look(1)
    by (simp add: tp_recover_def s1 run_simps tp_lookup_and_create_run)
  then show ?case
    using send s1 look last(2) by (simp add: tp_send_loop_def until_done.simps)
next
  case (Suc m)
  obtain e s1 where send: "tp_send E d a k s = (Inl e, s1)" "is_retryable e" "static_token (snd s1)"
    "tp_stub (fst s1) = tp_stub (fst s)"
    "seen is_send (snd s1) = seen is_send (snd s) + 1" "seen is_sleep (snd s1) = seen is_sleep (snd s)"
    using tp_send_outage [OF assms(1) Suc.prems(3,4), of d a k] by blast
  have more: "n + 1 \<le> max_retries rm" "m = nat (max_retries rm - (n + 1))" using Suc.hyps(2) by linarith+
  obtain s2 where rec: "tp_recover E rm n e s1 = (Inr (n + 1), s2)" "fst s2 = fst s1" "on_world grows s1 s2"
    "seen is_send (snd s2) = seen is_send (snd s1)" "seen is_sleep (snd s2) = seen is_sleep (snd s1) + 1"
    using tp_recover_waits [OF send(2) more(1) Suc.prems(1) assms(3), of E s1] by blast
  have "static_token (snd s2)" using rec(3) send(3) static_token_grows by (auto simp: on_world_def)
  then obtain e' s' where IH: "tp_send_loop E rm d a k (n + 1) s2 = Some (Inl e', s')" "is_retryable e'"
    "seen is_send (snd s') = seen is_send (snd s2) + nat (max_retries rm - (n + 1)) + 1"
    "seen is_sleep (snd s') = seen is_sleep (snd s2) + nat (max_retries rm - (n + 1))"
    using Suc.hyps(1) [OF more(2), of s2] Suc.prems more(1) rec(2) send(4) by auto
  have "tp_send_loop E rm d a k n s = Some (Inl e', s')"
    using IH(1) send(1) rec(1) unfolding tp_send_loop_def by (subst until_done.simps) simp
  moreover have "nat (max_retries rm - n) = Suc (nat (max_retries rm - (n + 1)))"
    using more(1) by linarith
  ultimately show ?case using IH(2-4) rec(4,5) send(5,6) by simp
qed

text \<open>C16: In an outage a send gives up. If the broker answers every send with a retryable status and the
  lookup of another broker fails, a keyed send on a connected partition raises a retryable error
  after exactly \<open>max_retries + 1\<close> sends and \<open>max_retries\<close> waits.\<close>

theorem send_gives_up_in_outage:
  assumes "always_retryable (answer_SendMessage E)" and "lookup_fails E" and "static_token w"
    and "p_created n p" and "j = nat (fnv1a_hash key mod int n)" and "p_producers p ! j = Some t"
    and "tp_stub t \<noteq> None"
  shows "\<exists>e p' w'. p_send_with_key E d a key (p, w) = Some (Inl e, (p', w')) \<and> is_retryable e
    \<and> seen is_send w' = seen is_send w + nat (max_retries (retry_of (p_options p))) + 1
    \<and> seen is_sleep w' = seen is_sleep w + nat (max_retries (retry_of (p_options p)))"
proof -
  let ?rm = "retry_of (p_options p)"
  have "j < n" using assms(4,5) by (simp add: p_created_def nat_less_iff)
  then obtain router where created: "0 < n" "p_partitions p = int n" "length (p_producers p) = n"
    "p_message_router p = Some router" "mr_partitions router = int n" "j < n"
    using assms(4) by (auto simp: p_created_def)
  have j: "fnv1a_hash key mod p_partitions p = int j" using assms(5) created(1,2) by simp
  have prep: "prepare_send (select_partition_for_key key) (p, w) = (Inr (int j, ?rm), (p, w))"
    using prepare_send_key [of p router key w] created j by simp
  have "0 \<le> max_retries ?rm" using retry_of_ok [of "p_options p"] by (simp add: rm_ok_def)
  then obtain e s' where run: "tp_send_loop E ?rm d a (Some key) 0 (t, w) = Some (Inl e, s')" "is_retryable e"
    "seen is_send (snd s') = seen is_send w + nat (max_retries ?rm) + 1"
    "seen is_sleep (snd s') = seen is_sleep w + nat (max_retries ?rm)"
    using tp_send_loop_outage [OF assms(1,2) retry_of_ok order_refl, of "p_options p" "(t, w)" d a "Some key"]
      assms(3,7) by auto
  have "at_part j p (t, w) = (p, w)" using put_tp_same [OF assms(6)] by (simp add: at_part_def)
  with send_loop_part [of j p E ?rm d a "Some key" 0 "(t, w)"] run(1) created(3,6)
  have "p_send_with_key E d a key (p, w) = Some (Inl e, at_part j p s')"
    by (simp add: p_send_with_key_def prep)
  with run show ?thesis by (simp add: at_part_def)
qed

theorem send_gives_up_in_outage_witness:
  "\<exists>e p' w'. p_send_with_key demo_outage [1] None ''k'' (demo_partitions, demo_world) = Some (Inl e, (p', w'))
    \<and> seen is_send w' = 6 \<and> seen is_sleep w' = 5"
proof -
  have fails: "lookup_fails demo_outage" by (simp add: lookup_fails_def demo_outage_def refusing_def refuse_def)
  have "nat (fnv1a_hash ''k'' mod int 2) < 2" by (simp add: nat_less_iff)
  then obtain t where t: "p_producers demo_partitions ! nat (fnv1a_hash ''k'' mod int 2) = Some t" "tp_stub t \<noteq> None"
    by (auto simp: demo_partitions_def less_2_cases_iff)
  have "max_retries (retry_of (p_options demo_partitions)) = 5"
    by (simp add: demo_partitions_def demo_partitioned_def new_Producer_def default_ProducerOptions_def
        retry_of_def new_RetryManager_def DEFAULT_MAX_RETRIES_def)
  with send_gives_up_in_outage [OF demo_outage_retryable(2) fails demo_static demo_partitions_created refl t,
      of "[1]" None]
  show ?thesis by (auto simp: seen_def)
qed

definition lookup_works :: "'w Outside \<Rightarrow> bool" where
  "lookup_works E \<longleftrightarrow> (\<forall>call q x. \<exists>r x'. answer_TopicLookup E call q x = (Inr r, x')
     \<and> tls_response_type r \<in> {0, 1})"

lemma handle_lookup_works:
  assumes "lookup_works E" and "static_token w"
  shows "\<exists>addr w'. handle_lookup E a topic w = (Inr addr, w') \<and> static_token w'"
proof -
  obtain r w' where run: "handle_lookup E a topic w = (r, w')" by (meson surj_pair)
  have "static_token w'"
    using staysD [OF handle_lookup_keeps(1) run] assms(2) by (rule static_token_grows)
  moreover have "\<exists>addr. r = Inr addr"
  proof -
    obtain conn cm' where c: "on_conn_mgr (get_connection a a) w = (Inr conn, w\<lparr>conn_mgr := cm'\<rparr>)"
      and opts: "cm_options cm' = cm_options (conn_mgr w)" by (rule get_connection_run)
    have static: "static_token (w\<lparr>conn_mgr := cm'\<rparr>)" using assms(2) opts by (simp add: static_token_def)
    define call where "call = \<lparr>call_channel = rc_channel conn, call_metadata =
      (let md = auth_metadata (token (cm_options cm')) (internal_broker (cm_options cm'))
       in if md \<noteq> [] then Some md else None)\<rparr>"
    obtain resp x where "answer_TopicLookup E call \<lparr>tlr_request_id = lookup_request_id w, tlr_topic = topic\<rparr>
        (outside w) = (Inr resp, x)" "tls_response_type resp \<in> {0, 1}"
      using assms(1) unfolding lookup_works_def by blast
    then show ?thesis
      using run c attach_token_static [OF static]
      by (auto simp: call_def handle_lookup_result lookup_topic_def run_simps split: if_splits)
  qed
  ultimately show ?thesis using run by blast
qed

text \<open>A topic producer that can be sent to and created again.\<close>

definition sendable :: "'w tp_state \<Rightarrow> bool" where
  "sendable s \<longleftrightarrow> static_token (snd s) \<and> tp_stub (fst s) \<noteq> None \<and> tp_schema_ref (fst s) = None
     \<and> rm_ok (tp_retry_manager (fst s))"

lemma tp_create_sendable:
  assumes "always_creates E" and "static_token (snd s)" and "tp_schema_ref (fst s) = None"
    and "rm_ok (tp_retry_manager (fst s))"
  shows "\<exists>pid s'. tp_create E s = (Inr pid, s') \<and> sendable s'"
proof -
  obtain pid s' where run: "tp_create E s = (Inr pid, s')" by (rule tp_create_succeeds [OF assms(1-3)])
  have "tp_identity (fst s') = tp_identity (fst s)" using tp_create_identity [OF assms(4), of E] run by simp
  moreover have "tp_stub (fst s') \<noteq> None"
    using tp_create_live [OF run assms(4)] by (auto simp: tp_live_def split: prod.splits)
  moreover have "static_token (snd s')"
    using tp_create_grows [OF assms(4), of E] run assms(2) static_token_grows by (auto simp: on_world_def)
  ultimately show ?thesis using run assms(3,4) by (auto simp: sendable_def tp_identity_def)
qed

lemma tp_recover_sendable:
  assumes "always_creates E" and "lookup_works E" and "sendable s" and "is_retryable err"
    and "rm_ok rm" and "0 \<le> n"
  shows "\<exists>n' s'. tp_recover E rm n err s = (Inr n', s') \<and> sendable s' \<and> 0 \<le> n'"
proof (cases "n + 1 \<le> max_retries rm")
  case True
  obtain s' where "tp_recover E rm n err s = (Inr (n + 1), s')" "fst s' = fst s" "on_world grows s s'"
    using tp_recover_waits [OF assms(4) True assms(6,5), of E s] by blast
  with assms(3,6) show ?thesis
    using static_token_grows [of "snd s" "snd s'"] by (auto simp: sendable_def on_world_def)
next
  case False
  obtain t w where s: "s = (t, w)" by (meson surj_pair)
  obtain addr w1 where look: "handle_lookup E (tp_connect_url t) (tp_topic t) w = (Inr addr, w1)" "static_token w1"
    using handle_lookup_works [OF assms(2), of w "tp_connect_url t" "tp_topic t"] assms(3) s by (auto simp: sendable_def)
  let ?s1 = "(t\<lparr>tp_broker_addr := broker_url addr, tp_connect_url := connect_url addr, tp_proxy := proxy addr\<rparr>, w1)"
  obtain pid s' where "tp_create E ?s1 = (Inr pid, s')" "sendable s'"
    using tp_create_sendable [OF assms(1), of ?s1] assms(3) s look(2) by (auto simp: sendable_def)
  with False look(1) s retryable_not_unrecoverable [OF assms(4)] assms(4) show ?thesis
    by (simp add: tp_recover_def run_simps tp_lookup_and_create_run)
qed

text \<open>C11: There is no limit on a send that the broker keeps refusing while it keeps accepting the
  producer. If every send is answered with a retryable status but lookups and creations succeed,
  a keyed send never returns: after every \<open>max_retries\<close> waits it creates the producer again and
  starts counting from zero.\<close>

theorem send_may_never_return:
  assumes "always_retryable (answer_SendMessage E)" and "lookup_works E" and "always_creates E"
    and "static_token w" and "p_created n p" and "j = nat (fnv1a_hash key mod int n)"
    and "p_producers p ! j = Some t" and "tp_stub t \<noteq> None" and "tp_schema_ref t = None"
  shows "p_send_with_key E d a key (p, w) = None"
proof -
  let ?rm = "retry_of (p_options p)"
  have jn: "j < n" using assms(5,6) by (simp add: p_created_def nat_less_iff)
  with assms(5,7) obtain router where created: "0 < n" "p_partitions p = int n" "length (p_producers p) = n"
    "p_message_router p = Some router" "mr_partitions router = int n" "rm_ok (tp_retry_manager t)"
    by (auto simp: p_created_def)
  have j: "fnv1a_hash key mod p_partitions p = int j" using assms(6) created(1,2) by simp
  have prep: "prepare_send (select_partition_for_key key) (p, w) = (Inr (int j, ?rm), (p, w))"
    using prepare_send_key [of p router key w] created j by simp
  have "tp_send_loop E ?rm d a (Some key) 0 (t, w) = None"
    unfolding tp_send_loop_def
  proof (rule until_done_diverges [where I = "\<lambda>n s. sendable s \<and> 0 \<le> n"])
    show "sendable (t, w) \<and> 0 \<le> (0 :: int)" using assms(4,8,9) created(6) by (simp add: sendable_def)
    fix n :: int and s :: "'a tp_state"
    assume I: "sendable s \<and> 0 \<le> n"
    then obtain e s1 where send: "tp_send E d a (Some key) s = (Inl e, s1)" "is_retryable e" "sendable s1"
      using tp_send_outage [OF assms(1), of s d a "Some key"] by (auto simp: sendable_def tp_identity_def)
    with tp_recover_sendable [OF assms(3,2) send(3,2) retry_of_ok, of n "p_options p"] I
    show "\<exists>err s1 n' s2. tp_send E d a (Some key) s = (Inl err, s1)
        \<and> tp_recover E ?rm n err s1 = (Inr n', s2) \<and> sendable s2 \<and> 0 \<le> n'"
      by blast
  qed
  moreover have "at_part j p (t, w) = (p, w)" using put_tp_same [OF assms(7)] by (simp add: at_part_def)
  ultimately show ?thesis
    using send_loop_part [of j p E ?rm d a "Some key" 0 "(t, w)"] created(3) jn
    by (simp add: p_send_with_key_def prep)
qed

definition demo_stuck :: "nat Outside" where
  "demo_stuck = demo_created\<lparr>answer_SendMessage := always (Inl (AioRpcError UNAVAILABLE '''')),
     answer_TopicLookup := always (Inr \<lparr>tls_request_id = 1, tls_response_type = 1, tls_connect_url = demo_uri,
       tls_broker_url = demo_uri, tls_proxy = False\<rparr>)\<rparr>"

theorem send_may_never_return_witness:
  "p_send_with_key demo_stuck [1] None ''k'' (demo_partitions, demo_world) = None"
proof -
  have "always_retryable (answer_SendMessage demo_stuck)" "lookup_works demo_stuck" "always_creates demo_stuck"
    by (simp_all add: demo_stuck_def demo_created_def always_retryable_def lookup_works_def
        always_creates_def always_def)
  moreover have "nat (fnv1a_hash ''k'' mod int 2) < 2" by (simp add: nat_less_iff)
  then obtain t where "p_producers demo_partitions ! nat (fnv1a_hash ''k'' mod int 2) = Some t"
    "tp_stub t \<noteq> None" "tp_schema_ref t = None"
    by (auto simp: demo_partitions_def less_2_cases_iff)
  ultimately show ?thesis
    using send_may_never_return [OF _ _ _ demo_static demo_partitions_created refl] by blast
qed

section \<open>Closing\<close>

text \<open>What closing one topic producer does, and what later steps keep of it.\<close>

definition stopped_if_held :: "TopicProducer \<Rightarrow> 'w World \<Rightarrow> bool" where
  "stopped_if_held t w \<longleftrightarrow> (tp_stop_event t < length (events w) \<longrightarrow> is_set (tp_stop_event t) w)
     \<and> (\<forall>i. tp_health_task t = Some i \<and> i < length (tasks w) \<longrightarrow> ht_cancelled (tasks w ! i))"

lemma stopped_winds_down: "stopped_if_held t v \<Longrightarrow> winds_down v w \<Longrightarrow> stopped_if_held t w"
  by (auto simp: stopped_if_held_def winds_down_def)

lemma tp_stop_run:
  "\<exists>w'. tp_stop (t, w) = (Inr (), (t\<lparr>tp_health_task := None\<rparr>, w')) \<and> winds_down w w' \<and> stopped_if_held t w'"
proof (cases "tp_health_task t")
  case None
  then have "t\<lparr>tp_health_task := None\<rparr> = t" by simp
  with None show ?thesis
    by (auto simp: tp_stop_def run_simps winds_down_def stopped_if_held_def is_set_def set_stays)
next
  case (Some i)
  moreover have "ht_cancelled ((tasks w)[i := (tasks w ! i)\<lparr>ht_cancelled := True\<rparr>] ! j)"
    if "j < length (tasks w)" "ht_cancelled (tasks w ! j)" for j
    using that by (cases "i = j") simp_all
  ultimately show ?thesis
    by (auto simp: tp_stop_def run_simps cancel_task_def winds_down_def stopped_if_held_def is_set_def set_stays nth_list_update)
qed

lemma stop_parts:
  assumes "i \<le> length (p_producers p)" and "\<forall>k < length (p_producers p). p_producers p ! k \<noteq> None"
  shows "\<exists>ys w'. for_each (\<lambda>i. on_producer (int i) tp_stop) [i..<length (p_producers p)] (p, w) =
       (Inr ys, (p\<lparr>p_producers := take i (p_producers p)
           @ map (map_option (\<lambda>t. t\<lparr>tp_health_task := None\<rparr>)) (drop i (p_producers p))\<rparr>, w'))
     \<and> winds_down w w' \<and> (\<forall>t. Some t \<in> set (drop i (p_producers p)) \<longrightarrow> stopped_if_held t w')"
  using assms
proof (induction "length (p_producers p) - i" arbitrary: i p w)
  case 0
  then show ?case by (simp add: run_simps winds_down.refl)
next
  case (Suc m)
  let ?off = "map_option (\<lambda>t. t\<lparr>tp_health_task := None\<rparr>)"
  let ?ps = "p_producers p" and ?n = "length (p_producers p)"
  have i: "i < ?n" using Suc.hyps(2) by simp
  then obtain t where t: "?ps ! i = Some t" using Suc.prems(2) by fastforce
  obtain w1 where stop: "tp_stop (t, w) = (Inr (), (t\<lparr>tp_health_task := None\<rparr>, w1))" "winds_down w w1" "stopped_if_held t w1"
    using tp_stop_run by blast
  define p1 where "p1 = p\<lparr>p_producers := ?ps[i := ?off (?ps ! i)]\<rparr>"
  have first: "on_producer (int i) tp_stop (p, w) = (Inr (), (p1, w1))"
    using i t stop(1) by (simp add: on_producer_def py_index_def p1_def)
  have p1: "length (p_producers p1) = ?n" "drop (Suc i) (p_producers p1) = drop (Suc i) ?ps"
    "take (Suc i) (p_producers p1) = take i ?ps @ [?off (?ps ! i)]"
    using i by (simp_all add: p1_def take_Suc_conv_app_nth)
  have "\<forall>k < length (p_producers p1). p_producers p1 ! k \<noteq> None"
    using Suc.prems(2) t i by (auto simp: p1_def nth_list_update)
  moreover have "m = length (p_producers p1) - Suc i" "Suc i \<le> length (p_producers p1)"
    using Suc.hyps(2) i p1(1) by simp_all
  ultimately obtain ys w2 where rest: "for_each (\<lambda>i. on_producer (int i) tp_stop) [Suc i..<?n] (p1, w1) =
       (Inr ys, (p1\<lparr>p_producers := take (Suc i) (p_producers p1)
           @ map ?off (drop (Suc i) (p_producers p1))\<rparr>, w2))"
    "winds_down w1 w2" "\<forall>t. Some t \<in> set (drop (Suc i) (p_producers p1)) \<longrightarrow> stopped_if_held t w2"
    using Suc.hyps(1) [of p1 "Suc i" w1] unfolding p1(1) by blast
  have "p1\<lparr>p_producers := take (Suc i) (p_producers p1) @ map ?off (drop (Suc i) (p_producers p1))\<rparr>
      = p\<lparr>p_producers := take i ?ps @ map ?off (drop i ?ps)\<rparr>"
    unfolding p1(2,3) Cons_nth_drop_Suc [OF i, symmetric] by (simp add: p1_def)
  moreover have "\<forall>u. Some u \<in> set (drop i ?ps) \<longrightarrow> stopped_if_held u w2"
    using rest(3) t stopped_winds_down [OF stop(3) rest(2)]
    unfolding p1(2) Cons_nth_drop_Suc [OF i, symmetric] by simp
  ultimately show ?case
    using first rest(1) winds_down.trans [OF stop(2) rest(2)] i
    by (simp add: upt_conv_Cons run_simps)
qed

definition stopped :: "TopicProducer \<Rightarrow> 'w World \<Rightarrow> bool" where
  "stopped t w \<longleftrightarrow> is_set (tp_stop_event t) w
     \<and> (\<forall>i. tp_health_task t = Some i \<longrightarrow> i < length (tasks w) \<and> ht_cancelled (tasks w ! i))"

definition in_place :: "TopicProducer \<Rightarrow> 'w World \<Rightarrow> bool" where
  "in_place t w \<longleftrightarrow> tp_stop_event t < length (events w)
     \<and> (\<forall>i. tp_health_task t = Some i \<longrightarrow> i < length (tasks w))"

text \<open>C22: Closing a producer stops all of its partitions: without a call or a failure, the stop event
  of every topic producer is set and its current health check is cancelled and forgotten.\<close>

theorem close_stops_every_partition:
  assumes "\<forall>x \<in> set (p_producers p). \<exists>t. x = Some t \<and> in_place t w"
  shows "\<exists>p' w'. p_close (p, w) = (Inr (), (p', w')) \<and> trace w' = trace w
    \<and> (\<forall>t. Some t \<in> set (p_producers p) \<longrightarrow> stopped t w')
    \<and> p_producers p' = map (map_option (\<lambda>t. t\<lparr>tp_health_task := None\<rparr>)) (p_producers p)"
proof -
  have "\<forall>k < length (p_producers p). p_producers p ! k \<noteq> None"
    using assms nth_mem by (metis option.distinct(1))
  then obtain ys w' where run: "for_each (\<lambda>i. on_producer (int i) tp_stop) [0..<length (p_producers p)] (p, w) =
       (Inr ys, (p\<lparr>p_producers := take 0 (p_producers p)
           @ map (map_option (\<lambda>t. t\<lparr>tp_health_task := None\<rparr>)) (drop 0 (p_producers p))\<rparr>, w'))"
    "winds_down w w'" and held: "\<forall>t. Some t \<in> set (drop 0 (p_producers p)) \<longrightarrow> stopped_if_held t w'"
    using stop_parts [of 0 p w] by blast
  have "stopped t w'" if "Some t \<in> set (p_producers p)" for t
  proof -
    have "stopped_if_held t w'" using held that by simp
    moreover have "in_place t w" using assms that by auto
    ultimately show ?thesis using run(2) by (simp add: stopped_def in_place_def stopped_if_held_def winds_down_def)
  qed
  with run show ?thesis by (simp add: p_close_def run_simps winds_down_def)
qed

definition demo_open :: Producer where
  "demo_open = demo_partitions\<lparr>p_producers :=
     [Some ((demo_connected ''/default/t-part-0'')\<lparr>tp_stop_event := 0, tp_health_task := Some 0\<rparr>),
      Some ((demo_connected ''/default/t-part-1'')\<lparr>tp_stop_event := 1, tp_health_task := None\<rparr>)]\<rparr>"

theorem close_stops_every_partition_witness:
  "\<exists>p' w'. p_close (demo_open, demo_world\<lparr>events := [False, False], tasks := [demo_task]\<rparr>) = (Inr (), (p', w'))
    \<and> is_set 0 w' \<and> is_set 1 w' \<and> ht_cancelled (tasks w' ! 0)"
  using close_stops_every_partition [of demo_open "demo_world\<lparr>events := [False, False], tasks := [demo_task]\<rparr>"]
  by (simp add: demo_open_def in_place_def stopped_def) blast

section \<open>After the broker's CLOSE\<close>

text \<open>C33: A producer that is created again after the broker's CLOSE is not watched any more. Its stop
  event is still set, creation succeeds all the same and starts a health check, and whatever
  first step this task takes, it ends without asking the broker.\<close>

theorem recreated_producer_unwatched:
  assumes "is_set (tp_stop_event t) w" and "rm_ok (tp_retry_manager t)"
    and "tp_create E (t, w) = (Inr pid, (t', w'))"
  shows "\<exists>i. tp_health_task t' = Some i \<and> i < length (tasks w') \<and> ht_client_id (tasks w' ! i) = pid
    \<and> is_set (ht_stop_event (tasks w' ! i)) w'
    \<and> (\<forall>E2 w2. health_own E2 i w' w2 \<longrightarrow> trace w2 = trace w' \<and> ht_pc (tasks w2 ! i) = Ended)"
proof -
  have "tp_live pid (t', w')" using tp_create_live [OF assms(3)] assms(2) by simp
  then obtain i where i: "tp_health_task t' = Some i" "i < length (tasks w')" "ht_client_id (tasks w' ! i) = pid"
    "ht_stop_event (tasks w' ! i) = tp_stop_event t'" "ht_pc (tasks w' ! i) = AtTop"
    by (auto simp: tp_live_def)
  have "on_world (same events) (t, w) (snd (tp_create E (t, w)))"
    by (rule tp_retry.start_stays [OF ow_events.evolution_axioms]) (intro stays_rules | simp add: assms(2))+
  then have "events w' = events w" using assms(3) by (simp add: on_world_def same_def)
  moreover have "tp_identity t' = tp_identity t" using tp_create_identity [of "(t, w)" E] assms(2,3) by simp
  then have "tp_stop_event t' = tp_stop_event t" by (simp add: tp_identity_def)
  ultimately have set: "is_set (ht_stop_event (tasks w' ! i)) w'" using assms(1) i(4) by (simp add: is_set_def)
  with i health_stopped_silent [OF set i(5)] show ?thesis by blast
qed

theorem recreated_producer_unwatched_witness:
  "\<exists>pid t' w' i. tp_create demo_created (demo_producer, event_world True) = (Inr pid, (t', w'))
    \<and> tp_health_task t' = Some i \<and> is_set (ht_stop_event (tasks w' ! i)) w'"
proof -
  obtain pid s' where "tp_create demo_created (demo_producer, event_world True) = (Inr pid, s')"
    by (rule tp_create_succeeds [OF demo_creates, of "(demo_producer, event_world True)"])
       (simp_all add: demo_producer_def)
  then obtain t' w' where run: "tp_create demo_created (demo_producer, event_world True) = (Inr pid, (t', w'))"
    by (metis surj_pair)
  have "is_set (tp_stop_event demo_producer) (event_world True)"
    by (simp add: is_set_def demo_producer_def)
  from recreated_producer_unwatched [OF this demo_producer_rm(1) run] run show ?thesis by blast
qed

end
