(* ===== verification/TopicConsumer.thy ===== *)
theory TopicConsumer
  imports Endpoint
begin

text \<open>
  \<open>danube/topic_consumer.py\<close>: the consumer of one topic or partition. Its methods work on the pair
  of the object and the world. \<open>key_filters\<close> is a list object that the caller may share, an
  index into the lists of the world; its contents are read when a request is built.
\<close>

record TopicConsumer =
  tc_topic_name :: string
  tc_consumer_name :: string
  tc_consumer_id :: "64 word"
  tc_subscription :: string
  tc_subscription_type :: int
  tc_key_filters :: nat
  tc_request_id :: nat
  tc_retry_manager :: RetryManager
  tc_stub :: "Channel option"
  tc_stop_event :: nat
  tc_health_task :: "nat option"
  tc_broker_addr :: string
  tc_connect_url :: string
  tc_proxy :: bool

definition new_TopicConsumer ::
  "string \<Rightarrow> string \<Rightarrow> string \<Rightarrow> int \<Rightarrow> nat option \<Rightarrow> int \<Rightarrow> int \<Rightarrow> int
     \<Rightarrow> ('w World, TopicConsumer) py" where
  "new_TopicConsumer topic name subscription sub_type filters retries base cap =
     bnd (list_or_new filters) (\<lambda>fl.
     bnd new_event (\<lambda>event.
     bnd (gets uri) (\<lambda>u.
     ret \<lparr>tc_topic_name = topic, tc_consumer_name = name, tc_consumer_id = 0,
          tc_subscription = subscription, tc_subscription_type = sub_type, tc_key_filters = fl,
          tc_request_id = 1, tc_retry_manager = new_RetryManager retries base cap,
          tc_stub = None, tc_stop_event = event, tc_health_task = None,
          tc_broker_addr = u, tc_connect_url = u, tc_proxy = False\<rparr>)))"

type_synonym 'w tc_state = "TopicConsumer \<times> 'w World"

definition tc_stop :: "('w tc_state, unit) py" where
  "tc_stop =
     bnd (get_self tc_stop_event) (\<lambda>event.
     seq (on_snd (set_event event)) (
     bnd (get_self tc_health_task) (\<lambda>task.
     (case task of
        Some i \<Rightarrow> seq (on_snd (cancel_task i)) (set_self (\<lambda>t. t\<lparr>tc_health_task := None\<rparr>))
      | None \<Rightarrow> ret ()))))"

text \<open>\<open>next(self._request_id)\<close>\<close>

definition tc_next_id :: "('w tc_state, nat) py" where
  "tc_next_id = bnd (get_self tc_request_id) (\<lambda>i.
     seq (set_self (\<lambda>t. t\<lparr>tc_request_id := Suc i\<rparr>)) (ret i))"

definition tc_lookup_new_broker :: "'w Outside \<Rightarrow> ('w tc_state, unit) py" where
  "tc_lookup_new_broker E =
     handle
       (bnd (get_self id) (\<lambda>t.
        bnd (on_snd (handle_lookup E (tc_connect_url t) (tc_topic_name t))) (\<lambda>addr.
        set_self (\<lambda>t. t\<lparr>tc_broker_addr := broker_url addr, tc_connect_url := connect_url addr,
                      tc_proxy := proxy addr\<rparr>))))
       (\<lambda>err. ret ())"

definition tc_connect :: "('w tc_state, unit) py" where
  "tc_connect =
     bnd (get_self id) (\<lambda>t.
     bnd (on_snd (on_conn_mgr (get_connection (tc_broker_addr t) (tc_connect_url t)))) (\<lambda>conn.
     set_self (\<lambda>t. t\<lparr>tc_stub := Some (rc_channel conn)\<rparr>)))"

text \<open>Token and proxy header for a call of this consumer.\<close>

definition tc_headers :: "('w tc_state, metadata option) py" where
  "tc_headers = bnd (get_self id) (\<lambda>t.
     on_snd (call_headers (tc_connect_url t) (tc_broker_addr t) (tc_proxy t)))"

section \<open>Subscription\<close>

text \<open>What follows a reply: the identifier and the health check.\<close>

definition tc_subscribed :: "ConsumerResponse \<Rightarrow> ('w tc_state, 64 word) py" where
  "tc_subscribed resp =
     seq (set_self (\<lambda>t. t\<lparr>tc_consumer_id := crs_consumer_id resp\<rparr>)) (
     bnd (get_self id) (\<lambda>t.
     bnd (on_snd (start_health_check (tc_connect_url t) (tc_broker_addr t) (tc_proxy t)
            ClientConsumer (tc_consumer_id t) (tc_stop_event t))) (\<lambda>task.
     seq (set_self (\<lambda>t. t\<lparr>tc_health_task := Some task\<rparr>)) (
     get_self tc_consumer_id))))"

definition tc_try_subscribe :: "'w Outside \<Rightarrow> ('w tc_state, 64 word) py" where
  "tc_try_subscribe E =
     seq tc_connect (
     bnd tc_next_id (\<lambda>i.
     bnd (gets (\<lambda>(t, w). \<lparr>cr_request_id = i, cr_topic_name = tc_topic_name t,
            cr_consumer_name = tc_consumer_name t, cr_subscription = tc_subscription t,
            cr_subscription_type = tc_subscription_type t,
            cr_key_filters = list_at (tc_key_filters t) w\<rparr>)) (\<lambda>request.
     bnd tc_headers (\<lambda>md.
     bnd (get_self tc_stub) (\<lambda>stub.
     (case stub of None \<Rightarrow> throw AttributeError
      | Some ch \<Rightarrow>
          bnd (handle
                (on_snd (rpc (answer_Subscribe E) Subscribe
                   \<lparr>call_channel = ch, call_metadata = md\<rparr> request))
                (\<lambda>err. throw (already_exists ''consumer'' err)))
              tc_subscribed))))))"

function tc_subscribe_loop :: "'w Outside \<Rightarrow> RetryManager \<Rightarrow> int \<Rightarrow> ('w tc_state, 64 word) py" where
  "tc_subscribe_loop E rm attempts =
     handle (tc_try_subscribe E) (\<lambda>last_err.
       if \<not> is_retryable last_err then throw last_err
       else if attempts + 1 > max_retries rm then throw last_err
       else
         seq (tc_lookup_new_broker E) (
         bnd (on_snd (backoff_delay E rm (attempts + 1 - 1))) (\<lambda>backoff.
         seq (on_snd (asleep backoff)) (
         tc_subscribe_loop E rm (attempts + 1)))))"
  by pat_completeness auto
termination
  by (relation "measure (\<lambda>(E, rm, attempts). nat (max_retries rm - attempts))") auto

declare tc_subscribe_loop.simps [simp del]

definition tc_subscribe :: "'w Outside \<Rightarrow> ('w tc_state, 64 word) py" where
  "tc_subscribe E =
     seq (tc_lookup_new_broker E) (
     bnd (get_self tc_retry_manager) (\<lambda>rm.
     tc_subscribe_loop E rm 0))"

section \<open>Receiving and acknowledging\<close>

definition connected_stub :: "string \<Rightarrow> ('w tc_state, Channel) py" where
  "connected_stub what =
     bnd (get_self tc_stub) (\<lambda>stub.
     (case stub of
        None \<Rightarrow> throw (UnrecoverableError (what @ '': consumer is not connected''))
      | Some ch \<Rightarrow> ret ch))"

definition tc_receive :: "'w Outside \<Rightarrow> ('w tc_state, nat) py" where
  "tc_receive E =
     bnd (connected_stub ''receive'') (\<lambda>ch.
     bnd tc_next_id (\<lambda>i.
     bnd (get_self (\<lambda>t. \<lparr>rr_request_id = i, rr_consumer_id = tc_consumer_id t\<rparr>)) (\<lambda>request.
     bnd tc_headers (\<lambda>md.
     on_snd (rpc (answer_ReceiveMessages E) ReceiveMessages
       \<lparr>call_channel = ch, call_metadata = md\<rparr> request)))))"

definition tc_send_ack ::
  "'w Outside \<Rightarrow> nat \<Rightarrow> MsgID \<Rightarrow> string \<Rightarrow> ('w tc_state, AckResponse) py" where
  "tc_send_ack E request_id msg_id subscription_name =
     bnd (connected_stub ''send_ack'') (\<lambda>ch.
     bnd tc_headers (\<lambda>md.
     on_snd (rpc (answer_Ack E) Ack \<lparr>call_channel = ch, call_metadata = md\<rparr>
       \<lparr>ar_request_id = request_id, ar_msg_id = msg_id,
        ar_subscription_name = subscription_name\<rparr>)))"

definition tc_send_nack ::
  "'w Outside \<Rightarrow> nat \<Rightarrow> MsgID \<Rightarrow> string \<Rightarrow> int option \<Rightarrow> string option \<Rightarrow> ('w tc_state, NackResponse) py" where
  "tc_send_nack E request_id msg_id subscription_name delay_ms reason =
     bnd (connected_stub ''send_nack'') (\<lambda>ch.
     bnd (of_result (opt_field u64_field delay_ms)) (\<lambda>delay.
     bnd tc_headers (\<lambda>md.
     on_snd (rpc (answer_Nack E) Nack \<lparr>call_channel = ch, call_metadata = md\<rparr>
       \<lparr>nr_request_id = request_id, nr_msg_id = msg_id,
        nr_subscription_name = subscription_name, nr_delay_ms = delay, nr_reason = reason\<rparr>))))"

section \<open>What the methods keep\<close>

lemma tc_next_id_run [run_simps]:
  "tc_next_id (t, w) = (Inr (tc_request_id t), (t\<lparr>tc_request_id := Suc (tc_request_id t)\<rparr>, w))"
  by (simp add: tc_next_id_def run_simps)

lemma tc_parts_keep [stays_rules]:
  "stays (on_world grows) tc_next_id" "stays (on_world (emits P)) tc_next_id"
  "stays (on_world pool_kept) tc_next_id"
  "stays (on_world grows) tc_headers" "stays (on_world (emits P)) tc_headers"
  "stays (on_world pool_kept) tc_headers"
  "stays (on_world grows) tc_connect" "stays (on_world (emits P)) tc_connect"
  "stays (on_world pool_kept) tc_connect"
  unfolding tc_next_id_def tc_headers_def tc_connect_def
  by (auto intro!: object_methods stays_rules)

lemma tc_lookup_keeps [stays_rules]:
  "stays (on_world grows) (tc_lookup_new_broker E)"
  "(\<And>ob. is_lookup ob \<Longrightarrow> P ob) \<Longrightarrow> stays (on_world (emits P)) (tc_lookup_new_broker E)"
  "stays (on_world pool_kept) (tc_lookup_new_broker E)"
  unfolding tc_lookup_new_broker_def
  by (auto intro!: object_methods stays_rules dest: is_lookup_call_is_lookup)

lemma tc_subscribed_keeps [stays_rules]:
  "stays (on_world grows) (tc_subscribed resp)" "stays (on_world (emits P)) (tc_subscribed resp)"
  "stays (on_world pool_kept) (tc_subscribed resp)"
  unfolding tc_subscribed_def by (auto intro!: object_methods stays_rules)

lemma tc_try_subscribe_keeps [stays_rules]:
  "stays (on_world grows) (tc_try_subscribe E)"
  "(\<And>ob. is_subscribe ob \<Longrightarrow> P ob) \<Longrightarrow> stays (on_world (emits P)) (tc_try_subscribe E)"
  "stays (on_world pool_kept) (tc_try_subscribe E)"
  unfolding tc_try_subscribe_def
  by (auto intro!: object_methods stays_rules split: option.split)

text \<open>Nothing in a subscription sets or clears an event.\<close>

lemma tc_events [stays_rules]:
  "stays (on_world (same events)) (tc_try_subscribe E)"
  "stays (on_world (same events)) (tc_lookup_new_broker E)"
  unfolding tc_try_subscribe_def tc_connect_def tc_next_id_def tc_headers_def tc_subscribed_def
    tc_lookup_new_broker_def
  by (auto intro!: ow_events.steps stays_rules split: option.split)

section \<open>Subscription with retries\<close>

lemma tc_lookup_ok: "\<exists>s'. tc_lookup_new_broker E s = (Inr (), s')"
  by (cases s) (auto simp: tc_lookup_new_broker_def run_simps split: prod.split sum.split)

lemma tc_lookup_retry_manager:
  "tc_retry_manager (fst (snd (tc_lookup_new_broker E s))) = tc_retry_manager (fst s)"
  by (cases s) (auto simp: tc_lookup_new_broker_def run_simps split: prod.splits sum.splits)

interpretation tc_retry: connecting
  "tc_try_subscribe E" "tc_lookup_new_broker E" "pause E" "tc_subscribe_loop E"
  "\<lambda>s. tc_retry_manager (fst s)" "tc_subscribe E" for E
proof unfold_locales
  fix rm n
  show "tc_subscribe_loop E rm n =
    handle (tc_try_subscribe E) (\<lambda>e.
      if \<not> is_retryable e then throw e
      else if n + 1 > max_retries rm then throw e
      else seq (tc_lookup_new_broker E) (seq (pause E rm n) (tc_subscribe_loop E rm (n + 1))))"
    by (subst tc_subscribe_loop.simps) (simp add: pause_def seq_bnd_assoc cong: if_cong)
qed (use tc_lookup_ok pause_ok tc_lookup_retry_manager in \<open>auto simp: tc_subscribe_def get_self_def\<close>)

lemma tc_subscribe_keeps:
  assumes "rm_ok (tc_retry_manager (fst s))"
  shows "on_world grows s (snd (tc_subscribe E s))"
    and "on_world pool_kept s (snd (tc_subscribe E s))"
    and "on_world (same events) s (snd (tc_subscribe E s))"
proof -
  show "on_world grows s (snd (tc_subscribe E s))"
    by (rule tc_retry.start_stays [OF ow_grows.evolution_axioms _ _ _ assms]) (intro stays_rules)+
  show "on_world pool_kept s (snd (tc_subscribe E s))"
    by (rule tc_retry.start_stays [OF ow_pool.evolution_axioms _ _ _ assms]) (intro stays_rules)+
  show "on_world (same events) s (snd (tc_subscribe E s))"
    by (rule tc_retry.start_stays [OF ow_events.evolution_axioms _ _ _ assms]) (intro stays_rules)+
qed

lemma tc_lookup_quiet:
  "(\<And>ob. is_lookup ob \<Longrightarrow> \<not> Q ob) \<Longrightarrow>
     stays (adds (\<lambda>s. seen Q (snd s)) 0) (tc_lookup_new_broker E)"
  by (rule adds_of_emits) (intro stays_rules, blast)

lemma tc_try_subscribe_one_call:
  "stays (adds (\<lambda>s. seen is_subscribe (snd s)) 1) (tc_try_subscribe E)"
proof -
  let ?c = "\<lambda>s. seen is_subscribe (snd s)"
  note zero = adds_of_emits [where Q = is_subscribe]
  show ?thesis
    unfolding tc_try_subscribe_def
    apply (rule adds_seq_right, rule zero, rule stays_rules)
    apply (rule adds_bnd_right, rule zero, rule stays_rules)
    apply (rule adds_bnd_right, rule zero, rule object_methods)
    apply (rule adds_bnd_right, rule zero, rule stays_rules)
    apply (rule adds_bnd_right, rule zero, rule stays_rules)
    apply (split option.split, intro conjI impI allI)
     apply (rule adds_mono [where k = 0], rule zero, rule object_methods, simp)
    apply (rule adds_bnd_left)
     apply (rule adds_handle_throw, rule adds_rpc)
    by (rule zero) (rule stays_rules)
qed

lemma tc_subscribe_counts:
  assumes "rm_ok (tc_retry_manager (fst s))"
  shows "seen is_subscribe (snd (snd (tc_subscribe E s)))
      \<le> seen is_subscribe (snd s) + nat (max_retries (tc_retry_manager (fst s))) + 1"
    and "seen is_sleep (snd (snd (tc_subscribe E s)))
      \<le> seen is_sleep (snd s) + nat (max_retries (tc_retry_manager (fst s)))"
proof -
  have no_sleep: "stays (adds (\<lambda>s. seen is_sleep (snd s)) 0) (tc_try_subscribe E)"
    by (rule adds_of_emits) (intro stays_rules; simp)
  show "seen is_subscribe (snd (snd (tc_subscribe E s)))
      \<le> seen is_subscribe (snd s) + nat (max_retries (tc_retry_manager (fst s))) + 1"
    using tc_retry.start_count [OF tc_try_subscribe_one_call tc_lookup_quiet pause_counts(2) assms] by simp
  show "seen is_sleep (snd (snd (tc_subscribe E s)))
      \<le> seen is_sleep (snd s) + nat (max_retries (tc_retry_manager (fst s)))"
    using tc_retry.start_count [OF no_sleep tc_lookup_quiet pause_counts(1) assms] by simp
qed

section \<open>One attempt, with a static token\<close>

definition subscribe_request :: "TopicConsumer \<Rightarrow> 'w World \<Rightarrow> ConsumerRequest" where
  "subscribe_request t w =
     \<lparr>cr_request_id = tc_request_id t, cr_topic_name = tc_topic_name t,
      cr_consumer_name = tc_consumer_name t, cr_subscription = tc_subscription t,
      cr_subscription_type = tc_subscription_type t,
      cr_key_filters = list_at (tc_key_filters t) w\<rparr>"

definition tc_call :: "TopicConsumer \<Rightarrow> 'w World \<Rightarrow> Channel \<Rightarrow> Call" where
  "tc_call t w ch =
     \<lparr>call_channel = ch,
      call_metadata = static_headers (cm_options (conn_mgr w)) (tc_broker_addr t) (tc_proxy t)\<rparr>"

lemma tc_headers_static:
  assumes "static_token w"
  shows "tc_headers (t, w) =
    (Inr (static_headers (cm_options (conn_mgr w)) (tc_broker_addr t) (tc_proxy t)), (t, w))"
  by (simp add: tc_headers_def run_simps call_headers_static [OF assms])

lemma tc_connect_run:
  obtains conn cm' where "tc_connect (t, w) =
      (Inr (), (t\<lparr>tc_stub := Some (rc_channel conn)\<rparr>, w\<lparr>conn_mgr := cm'\<rparr>))"
    and "cm_options cm' = cm_options (conn_mgr w)"
    and "cm_connections cm' (pool_key (tc_broker_addr t, tc_connect_url t)) = Some conn"
proof -
  obtain conn cm' where
    "on_conn_mgr (get_connection (tc_broker_addr t) (tc_connect_url t)) w = (Inr conn, w\<lparr>conn_mgr := cm'\<rparr>)"
    "cm_options cm' = cm_options (conn_mgr w)"
    "cm_connections cm' (pool_key (tc_broker_addr t, tc_connect_url t)) = Some conn"
    by (rule get_connection_run)
  then show ?thesis by (intro that [of conn cm']) (simp_all add: tc_connect_def run_simps)
qed

text \<open>The state once the call is made, and its outcome.\<close>

lemma tc_try_subscribe_run:
  assumes "static_token w"
  obtains conn cm' where "cm_options cm' = cm_options (conn_mgr w)"
    and "cm_connections cm' (pool_key (tc_broker_addr t, tc_connect_url t)) = Some conn"
    and "tc_try_subscribe E (t, w) =
      (case answer_Subscribe E (tc_call t w (rc_channel conn)) (subscribe_request t w) (outside w) of (r, x) \<Rightarrow>
        (let s1 = (t\<lparr>tc_stub := Some (rc_channel conn), tc_request_id := Suc (tc_request_id t)\<rparr>,
                   w\<lparr>conn_mgr := cm',
                     trace := trace w @ [Rpc (tc_call t w (rc_channel conn)) (Subscribe (subscribe_request t w))],
                     outside := x\<rparr>)
         in case r of Inl err \<Rightarrow> (Inl (already_exists ''consumer'' err), s1)
            | Inr resp \<Rightarrow> tc_subscribed resp s1))"
proof -
  obtain conn cm' where c: "tc_connect (t, w) =
      (Inr (), (t\<lparr>tc_stub := Some (rc_channel conn)\<rparr>, w\<lparr>conn_mgr := cm'\<rparr>))"
    and opts: "cm_options cm' = cm_options (conn_mgr w)"
    and look: "cm_connections cm' (pool_key (tc_broker_addr t, tc_connect_url t)) = Some conn"
    by (rule tc_connect_run)
  have static: "static_token (w\<lparr>conn_mgr := cm'\<rparr>)"
    using assms opts by (simp add: static_token_def)
  show ?thesis
    by (rule that [OF opts look])
       (simp add: tc_try_subscribe_def run_simps c tc_headers_static [OF static] opts list_at_def
          subscribe_request_def tc_call_def Let_def split: prod.split sum.split)
qed

lemma tc_try_subscribe_fails:
  assumes "always_retryable (answer_Subscribe E)" and "static_token (snd s)"
  shows "\<exists>e s1. tc_try_subscribe E s = (Inl e, s1) \<and> is_retryable e \<and> static_token (snd s1)
    \<and> seen is_subscribe (snd s1) = seen is_subscribe (snd s) + 1
    \<and> seen is_sleep (snd s1) = seen is_sleep (snd s)"
proof -
  obtain t w where s: "s = (t, w)" by fastforce
  with assms(2) have static: "static_token w" by simp
  show ?thesis
  proof (rule tc_try_subscribe_run [OF static, of t E])
    fix conn cm'
    assume opts: "cm_options cm' = cm_options (conn_mgr w)"
      and run: "tc_try_subscribe E (t, w) =
      (case answer_Subscribe E (tc_call t w (rc_channel conn)) (subscribe_request t w) (outside w) of (r, x) \<Rightarrow>
        (let s1 = (t\<lparr>tc_stub := Some (rc_channel conn), tc_request_id := Suc (tc_request_id t)\<rparr>,
                   w\<lparr>conn_mgr := cm',
                     trace := trace w @ [Rpc (tc_call t w (rc_channel conn)) (Subscribe (subscribe_request t w))],
                     outside := x\<rparr>)
         in case r of Inl err \<Rightarrow> (Inl (already_exists ''consumer'' err), s1)
            | Inr resp \<Rightarrow> tc_subscribed resp s1))"
    obtain code msg x' where ans: "answer_Subscribe E (tc_call t w (rc_channel conn))
        (subscribe_request t w) (outside w) = (Inl (AioRpcError code msg), x')"
        "is_retryable (AioRpcError code msg)"
      using assms(1) by (fastforce simp: always_retryable_def)
    then have "already_exists ''consumer'' (AioRpcError code msg) = AioRpcError code msg" by auto
    with ans run opts static show ?thesis
      by (auto simp: s seen_def static_token_def)
  qed
qed

lemma tc_subscribe_exhausts:
  fixes s :: "'w tc_state"
  assumes "always_retryable (answer_Subscribe E)" and "static_token (snd s)"
    and "rm_ok (tc_retry_manager (fst s))"
  shows "\<exists>e s'. tc_subscribe E s = (Inl e, s') \<and> is_retryable e
    \<and> seen is_subscribe (snd s') = seen is_subscribe (snd s) + nat (max_retries (tc_retry_manager (fst s))) + 1
    \<and> seen is_sleep (snd s') = seen is_sleep (snd s) + nat (max_retries (tc_retry_manager (fst s)))"
proof -
  let ?I = "\<lambda>s :: 'w tc_state. static_token (snd s)"
  let ?rm = "tc_retry_manager (fst s)"
  have kept: "?I (snd (tc_lookup_new_broker E s))" "?I (snd (pause E ?rm n s))" if "?I s" for n s
    using static_token_kept [OF tc_lookup_keeps(1) that] static_token_kept [OF pause_keeps(1) that] by auto
  note quiet = seen_kept [OF tc_lookup_quiet] seen_kept [OF pause_counts(2)]
    pause_one_sleep [OF assms(3)]
  have "\<exists>e s'. tc_subscribe E s = (Inl e, s') \<and> is_retryable e \<and> ?I s'
    \<and> seen is_subscribe (snd s') = seen is_subscribe (snd s) + 1 + nat (max_retries ?rm) * (1 + 0)"
  proof (rule tc_retry.start_exhaust [where I = ?I])
    show "\<exists>e s1. tc_try_subscribe E s = (Inl e, s1) \<and> is_retryable e \<and> ?I s1
      \<and> seen is_subscribe (snd s1) = seen is_subscribe (snd s) + 1" if "?I s" for s
      using tc_try_subscribe_fails [OF assms(1) that] by blast
  qed (use assms in \<open>simp_all add: kept quiet\<close>)
  moreover have "\<exists>e s'. tc_subscribe E s = (Inl e, s') \<and> is_retryable e \<and> ?I s'
    \<and> seen is_sleep (snd s') = seen is_sleep (snd s) + 0 + nat (max_retries ?rm) * (0 + 1)"
  proof (rule tc_retry.start_exhaust [where I = ?I])
    show "\<exists>e s1. tc_try_subscribe E s = (Inl e, s1) \<and> is_retryable e \<and> ?I s1
      \<and> seen is_sleep (snd s1) = seen is_sleep (snd s) + 0" if "?I s" for s
      using tc_try_subscribe_fails [OF assms(1) that] by auto
  qed (use assms in \<open>simp_all add: kept quiet\<close>)
  ultimately show ?thesis by auto
qed

section \<open>A subscribed consumer\<close>

text \<open>The state a successful subscription leaves, as for a created producer.\<close>

definition tc_live :: "64 word \<Rightarrow> 'w tc_state \<Rightarrow> bool" where
  "tc_live cid s \<longleftrightarrow> (case s of (t, w) \<Rightarrow>
     tc_consumer_id t = cid \<and>
     (\<exists>conn i. cm_connections (conn_mgr w) (pool_key (tc_broker_addr t, tc_connect_url t)) = Some conn \<and>
        tc_stub t = Some (rc_channel conn) \<and>
        tc_health_task t = Some i \<and> i < length (tasks w) \<and>
        tasks w ! i =
          \<lparr>ht_channel = rc_channel conn, ht_connect_url = tc_connect_url t,
           ht_broker_addr = tc_broker_addr t, ht_proxy = tc_proxy t,
           ht_client_type = ClientConsumer, ht_client_id = cid,
           ht_stop_event = tc_stop_event t, ht_pc = AtTop, ht_cancelled = False\<rparr>))"

lemma tc_subscribed_run:
  assumes "cm_connections (conn_mgr w) (pool_key (tc_broker_addr t, tc_connect_url t)) = Some conn"
    and "tc_stub t = Some (rc_channel conn)"
  obtains s' where "tc_subscribed resp (t, w) = (Inr (crs_consumer_id resp), s')"
    and "tc_live (crs_consumer_id resp) s'"
  using assms
  by (intro that [of "snd (tc_subscribed resp (t, w))"])
     (simp_all add: tc_subscribed_def run_simps start_health_check_hit [OF assms(1)] tc_live_def)

lemma tc_try_subscribe_live:
  assumes "tc_try_subscribe E s = (Inr cid, s')"
  shows "tc_live cid s'"
proof -
  obtain t w where s: "s = (t, w)" by fastforce
  obtain conn cm' where c: "tc_connect (t, w) =
      (Inr (), (t\<lparr>tc_stub := Some (rc_channel conn)\<rparr>, w\<lparr>conn_mgr := cm'\<rparr>))"
    and look: "cm_connections cm' (pool_key (tc_broker_addr t, tc_connect_url t)) = Some conn"
    by (rule tc_connect_run)
  define t1 where "t1 = t\<lparr>tc_stub := Some (rc_channel conn), tc_request_id := Suc (tc_request_id t)\<rparr>"
  obtain r w2 where h: "tc_headers (t1, w\<lparr>conn_mgr := cm'\<rparr>) = (r, (t1, w2))"
    by (cases "tc_headers (t1, w\<lparr>conn_mgr := cm'\<rparr>)")
       (auto simp: tc_headers_def run_simps split: prod.splits)
  have g2: "grows (w\<lparr>conn_mgr := cm'\<rparr>) w2"
    using staysD [OF tc_parts_keep(4) h] by (simp add: on_world_def)
  from assms s c h obtain resp w3 where subscribed: "tc_subscribed resp (t1, w3) = (Inr cid, s')"
    and "conn_mgr w3 = conn_mgr w2"
    by (auto simp: tc_try_subscribe_def run_simps t1_def [symmetric] split: sum.splits prod.splits)
       (auto simp: t1_def run_simps split: sum.splits prod.splits)
  moreover have "cm_connections (conn_mgr w2) (pool_key (tc_broker_addr t, tc_connect_url t)) = Some conn"
    using g2 look unfolding grows_def by (simp add: map_le_def) (metis domI)
  ultimately have "cm_connections (conn_mgr w3) (pool_key (tc_broker_addr t1, tc_connect_url t1)) = Some conn"
    and "tc_stub t1 = Some (rc_channel conn)"
    by (simp_all add: t1_def)
  then show ?thesis
    by (rule tc_subscribed_run [of w3 t1 conn resp]) (use subscribed in simp)
qed

lemma tc_subscribe_live:
  assumes "tc_subscribe E s = (Inr cid, s')" and "rm_ok (tc_retry_manager (fst s))"
  shows "tc_live cid s'"
  by (rule tc_retry.start_success [OF tc_try_subscribe_live assms])

section \<open>What a consumer never changes of itself\<close>

definition tc_identity ::
  "TopicConsumer \<Rightarrow> string \<times> string \<times> string \<times> int \<times> nat \<times> RetryManager \<times> nat" where
  "tc_identity t = (tc_topic_name t, tc_consumer_name t, tc_subscription t, tc_subscription_type t,
     tc_key_filters t, tc_retry_manager t, tc_stop_event t)"

lemma tc_identity_update [simp]:
  "tc_identity (t\<lparr>tc_consumer_id := a\<rparr>) = tc_identity t"
  "tc_identity (t\<lparr>tc_request_id := b\<rparr>) = tc_identity t"
  "tc_identity (t\<lparr>tc_stub := f\<rparr>) = tc_identity t"
  "tc_identity (t\<lparr>tc_health_task := g\<rparr>) = tc_identity t"
  "tc_identity (t\<lparr>tc_broker_addr := h\<rparr>) = tc_identity t"
  "tc_identity (t\<lparr>tc_connect_url := h\<rparr>) = tc_identity t"
  "tc_identity (t\<lparr>tc_proxy := i\<rparr>) = tc_identity t"
  by (simp_all add: tc_identity_def)

abbreviation fixed_tc :: "'w tc_state \<Rightarrow> 'w tc_state \<Rightarrow> bool" where
  "fixed_tc \<equiv> same (\<lambda>s. tc_identity (fst s))"

lemma fixed_tc_primitive [stays_rules]:
  "stays fixed_tc (get_self f)" "stays fixed_tc (on_snd m)"
  "(\<And>t. tc_identity (g t) = tc_identity t) \<Longrightarrow> stays fixed_tc (set_self g)"
proof -
  show "stays fixed_tc (on_snd m)"
    by (auto intro!: staysI simp: on_snd_def same_def split: prod.split)
qed (auto simp: get_self_def set_self_def same_def intro!: same.steps stays_modify)

lemma fixed_tc_parts [stays_rules]:
  "stays fixed_tc tc_next_id" "stays fixed_tc tc_headers" "stays fixed_tc tc_connect"
  "stays fixed_tc (tc_lookup_new_broker E)" "stays fixed_tc (tc_subscribed resp)"
  "stays fixed_tc (connected_stub what)" "stays fixed_tc (pause E rm n)"
  unfolding tc_next_id_def tc_headers_def tc_connect_def tc_lookup_new_broker_def tc_subscribed_def
    connected_stub_def pause_def
  by (auto intro!: same.steps stays_rules split: option.split)

lemma fixed_tc_methods [stays_rules]:
  "stays fixed_tc (tc_try_subscribe E)" "stays fixed_tc tc_stop" "stays fixed_tc (tc_receive E)"
  "stays fixed_tc (tc_send_ack E i m n)" "stays fixed_tc (tc_send_nack E i m n d re)"
  unfolding tc_try_subscribe_def tc_stop_def tc_receive_def tc_send_ack_def tc_send_nack_def
  by (auto intro!: same.steps stays_rules split: option.split)

lemma tc_subscribe_identity:
  assumes "rm_ok (tc_retry_manager (fst s))"
  shows "tc_identity (fst (snd (tc_subscribe E s))) = tc_identity (fst s)"
proof -
  have "fixed_tc s (snd (tc_subscribe E s))"
    by (rule tc_retry.start_stays [OF same.evolution_axioms _ _ _ assms]) (intro stays_rules)+
  then show ?thesis by (simp add: same_def)
qed

section \<open>Single calls, with a static token\<close>

lemma tc_receive_run:
  assumes "static_token w" and "tc_stub t = Some ch"
    and "answer_ReceiveMessages E (tc_call t w ch)
      \<lparr>rr_request_id = tc_request_id t, rr_consumer_id = tc_consumer_id t\<rparr> (outside w) = (r, x)"
  shows "tc_receive E (t, w) =
    (r, (t\<lparr>tc_request_id := Suc (tc_request_id t)\<rparr>,
      w\<lparr>trace := trace w @ [Rpc (tc_call t w ch) (ReceiveMessages
          \<lparr>rr_request_id = tc_request_id t, rr_consumer_id = tc_consumer_id t\<rparr>)],
        outside := x\<rparr>))"
  using assms tc_headers_static [OF assms(1), of "t\<lparr>tc_request_id := Suc (tc_request_id t)\<rparr>"]
  by (cases r) (simp_all add: tc_receive_def connected_stub_def run_simps tc_call_def)

lemma tc_send_ack_run:
  assumes "static_token w" and "tc_stub t = Some ch"
    and "q = \<lparr>ar_request_id = i, ar_msg_id = m, ar_subscription_name = n\<rparr>"
    and "answer_Ack E (tc_call t w ch) q (outside w) = (r, x)"
  shows "tc_send_ack E i m n (t, w) =
    (r, (t, w\<lparr>trace := trace w @ [Rpc (tc_call t w ch) (Ack q)], outside := x\<rparr>))"
  using assms tc_headers_static [OF assms(1), of t]
  by (cases r) (simp_all add: tc_send_ack_def connected_stub_def run_simps tc_call_def)

lemma tc_send_nack_run:
  assumes "static_token w" and "tc_stub t = Some ch" and "opt_field u64_field delay = Inr d"
    and "q = \<lparr>nr_request_id = i, nr_msg_id = m, nr_subscription_name = n, nr_delay_ms = d,
      nr_reason = re\<rparr>"
    and "answer_Nack E (tc_call t w ch) q (outside w) = (r, x)"
  shows "tc_send_nack E i m n delay re (t, w) =
    (r, (t, w\<lparr>trace := trace w @ [Rpc (tc_call t w ch) (Nack q)], outside := x\<rparr>))"
  using assms tc_headers_static [OF assms(1), of t]
  by (cases r) (simp_all add: tc_send_nack_def connected_stub_def run_simps tc_call_def)

lemma tc_disconnected:
  assumes "tc_stub t = None"
  shows "tc_receive E (t, w) = (Inl (UnrecoverableError ''receive: consumer is not connected''), (t, w))"
    and "tc_send_ack E i m n (t, w) = (Inl (UnrecoverableError ''send_ack: consumer is not connected''), (t, w))"
    and "tc_send_nack E i m n d re (t, w) = (Inl (UnrecoverableError ''send_nack: consumer is not connected''), (t, w))"
  using assms by (simp_all add: tc_receive_def tc_send_ack_def tc_send_nack_def connected_stub_def run_simps)

section \<open>What stays of a subscription\<close>

definition tc_ready :: "TopicConsumer \<Rightarrow> 'w World \<Rightarrow> bool" where
  "tc_ready t w \<longleftrightarrow>
     (\<exists>conn i. cm_connections (conn_mgr w) (pool_key (tc_broker_addr t, tc_connect_url t)) = Some conn \<and>
        tc_stub t = Some (rc_channel conn) \<and> tc_health_task t = Some i \<and> i < length (tasks w) \<and>
        frozen (tasks w ! i) = frozen
          \<lparr>ht_channel = rc_channel conn, ht_connect_url = tc_connect_url t,
           ht_broker_addr = tc_broker_addr t, ht_proxy = tc_proxy t,
           ht_client_type = ClientConsumer, ht_client_id = tc_consumer_id t,
           ht_stop_event = tc_stop_event t, ht_pc = AtTop, ht_cancelled = False\<rparr>)"

lemma tc_live_ready: "tc_live cid (t, w) \<Longrightarrow> tc_ready t w"
  by (auto simp: tc_live_def tc_ready_def)

lemma tc_ready_grows:
  assumes "tc_ready t v" and g: "grows v w"
  shows "tc_ready t w"
proof -
  have conn: "cm_connections (conn_mgr v) k = Some c \<Longrightarrow> cm_connections (conn_mgr w) k = Some c" for k c
    using g unfolding grows_def map_le_def by (metis domI)
  have "i < length (tasks v) \<Longrightarrow> i < length (tasks w)" for i
    using grows_tasks(1) [OF g] by simp
  with assms(1) conn grows_tasks(2) [OF g] show ?thesis
    unfolding tc_ready_def by (metis (no_types, lifting))
qed

end
