(* ===== verification/Consumer.thy ===== *)
theory Consumer
  imports TopicConsumer Gather
begin

text \<open>
  \<open>danube/consumer.py\<close>: the consumer of an application over the topic consumers of all partitions,
  its receive tasks, and its builder. Its methods work on the pair of the object and the world.

  The topic consumers are shared between the dictionary \<open>_consumers\<close> and the receive tasks, so
  they live in a store \<open>c_store\<close> and are referred to by index; so do the queues that \<open>receive\<close>
  returns. The coroutine \<open>_partition_receive_loop\<close> is a state machine whose positions are the
  points where it can wait: before it opens a stream, for the next message, for room in the queue.
\<close>

definition RECEIVE_CHANNEL_BUFFER :: nat where "RECEIVE_CHANNEL_BUFFER = 100"
definition GRACEFUL_CLOSE_DELAY_SECS :: rat where "GRACEFUL_CLOSE_DELAY_SECS = 1 / 10"

record ConsumerOptions =
  co_max_retries :: int
  co_base_backoff_ms :: int
  co_max_backoff_ms :: int

definition default_ConsumerOptions :: ConsumerOptions where
  "default_ConsumerOptions = \<lparr>co_max_retries = 0, co_base_backoff_ms = 0, co_max_backoff_ms = 0\<rparr>"

datatype recv_pc = OpenStream | Reading nat | Putting nat StreamMessage | Finished

record ReceiveTask =
  rt_consumer :: nat
  rt_queue :: nat
  rt_retry_manager :: RetryManager
  rt_shutdown :: nat
  rt_attempts :: int
  rt_pc :: recv_pc
  rt_cancelled :: bool

record Consumer =
  c_topic_name :: string
  c_consumer_name :: string
  c_subscription :: string
  c_subscription_type :: SubType
  c_options :: ConsumerOptions
  c_key_filters :: nat
  c_consumers :: "(string \<times> nat) list"
  c_shutdown :: nat
  c_tasks :: "ReceiveTask list"
  c_store :: "TopicConsumer list"
  c_queues :: "StreamMessage list list"

definition new_Consumer ::
  "string \<Rightarrow> string \<Rightarrow> string \<Rightarrow> SubType \<Rightarrow> ConsumerOptions \<Rightarrow> nat option \<Rightarrow> ('w World, Consumer) py" where
  "new_Consumer topic name subscription sub_type options filters =
     bnd (list_or_new filters) (\<lambda>fl.
     bnd new_event (\<lambda>shutdown.
     ret \<lparr>c_topic_name = topic, c_consumer_name = name, c_subscription = subscription,
          c_subscription_type = sub_type, c_options = options, c_key_filters = fl,
          c_consumers = [], c_shutdown = shutdown, c_tasks = [], c_store = [], c_queues = []\<rparr>))"

type_synonym 'w c_state = "Consumer \<times> 'w World"

text \<open>A method of the \<open>i\<close>-th topic consumer of the store, and a new one.\<close>

definition on_tc :: "nat \<Rightarrow> ('w tc_state, 'a) py \<Rightarrow> ('w c_state, 'a) py" where
  "on_tc i m = (\<lambda>(c, w).
     (case m (c_store c ! i, w) of (r, (tc, w')) \<Rightarrow>
       (r, (c\<lparr>c_store := (c_store c)[i := tc]\<rparr>, w'))))"

definition store_tc :: "TopicConsumer \<Rightarrow> ('w c_state, nat) py" where
  "store_tc tc = bnd (get_self (\<lambda>c. length (c_store c))) (\<lambda>i.
     seq (set_self (\<lambda>c. c\<lparr>c_store := c_store c @ [tc]\<rparr>)) (ret i))"

section \<open>Subscription\<close>

definition subscribe_one :: "'w Outside \<Rightarrow> string \<Rightarrow> ('w c_state, string \<times> nat) py" where
  "subscribe_one E topic_part =
     bnd (get_self id) (\<lambda>c.
     bnd (on_snd (new_TopicConsumer topic_part (c_consumer_name c) (c_subscription c)
            (int_SubType (c_subscription_type c)) (Some (c_key_filters c))
            (co_max_retries (c_options c)) (co_base_backoff_ms (c_options c))
            (co_max_backoff_ms (c_options c)))) (\<lambda>tc.
     bnd (store_tc tc) (\<lambda>i.
     bnd (on_tc i (tc_subscribe E)) (\<lambda>_.
     ret (topic_part, i)))))"

text \<open>\<open>order n\<close> is the order in which the event loop finishes \<open>n\<close> gathered coroutines.\<close>

definition c_subscribe :: "'w Outside \<Rightarrow> (nat \<Rightarrow> nat list) \<Rightarrow> ('w c_state, unit) py" where
  "c_subscribe E order =
     bnd (gets (\<lambda>(c, w). (uri w, c_topic_name c))) (\<lambda>(u, topic).
     bnd (on_snd (topic_partitions E u topic)) (\<lambda>partitions.
     bnd (gather (order (length partitions)) (map (subscribe_one E) partitions)) (\<lambda>results.
     seq (set_self (\<lambda>c. c\<lparr>c_consumers := dict_of results\<rparr>)) (
     bnd (get_self c_consumers) (\<lambda>consumers.
     if consumers = [] then throw (DanubeError ''no partitions found'') else ret ())))))"

section \<open>Receiving\<close>

definition c_retry_of :: "ConsumerOptions \<Rightarrow> RetryManager" where
  "c_retry_of opts = new_RetryManager (co_max_retries opts) (co_base_backoff_ms opts) (co_max_backoff_ms opts)"

definition receive_task :: "Consumer \<Rightarrow> nat \<Rightarrow> nat \<Rightarrow> ReceiveTask" where
  "receive_task c queue tc =
     \<lparr>rt_consumer = tc, rt_queue = queue, rt_retry_manager = c_retry_of (c_options c),
      rt_shutdown = c_shutdown c, rt_attempts = 0, rt_pc = OpenStream, rt_cancelled = False\<rparr>"

definition c_receive :: "('w c_state, nat) py" where
  "c_receive =
     bnd (get_self (\<lambda>c. length (c_queues c))) (\<lambda>queue.
     seq (set_self (\<lambda>c. c\<lparr>c_queues := c_queues c @ [[]]\<rparr>)) (
     bnd (get_self c_consumers) (\<lambda>consumers.
     bnd (for_each (\<lambda>tc. set_self (\<lambda>c. c\<lparr>c_tasks := c_tasks c @ [receive_task c queue tc]\<rparr>))
            (map snd consumers)) (\<lambda>_.
     ret queue))))"

section \<open>Acknowledging and closing\<close>

definition c_ack :: "'w Outside \<Rightarrow> StreamMessage \<Rightarrow> ('w c_state, unit) py" where
  "c_ack E message =
     bnd (get_self id) (\<lambda>c.
     (case map_of (c_consumers c) (mi_topic_name (sm_msg_id message)) of
        None \<Rightarrow> ret ()
      | Some tc \<Rightarrow>
          bnd (on_tc tc (tc_send_ack E (sm_request_id message) (sm_msg_id message) (c_subscription c)))
            (\<lambda>_. ret ())))"

definition c_nack ::
  "'w Outside \<Rightarrow> StreamMessage \<Rightarrow> int option \<Rightarrow> string option \<Rightarrow> ('w c_state, unit) py" where
  "c_nack E message delay_ms reason =
     bnd (get_self id) (\<lambda>c.
     (case map_of (c_consumers c) (mi_topic_name (sm_msg_id message)) of
        None \<Rightarrow> ret ()
      | Some tc \<Rightarrow>
          bnd (on_tc tc (tc_send_nack E (sm_request_id message) (sm_msg_id message)
                 (c_subscription c) delay_ms reason))
            (\<lambda>_. ret ())))"

definition c_close :: "('w c_state, unit) py" where
  "c_close =
     bnd (get_self c_shutdown) (\<lambda>shutdown.
     seq (on_snd (set_event shutdown)) (
     bnd (get_self c_consumers) (\<lambda>consumers.
     bnd (for_each (\<lambda>tc. on_tc tc tc_stop) (map snd consumers)) (\<lambda>_.
     seq (set_self (\<lambda>c. c\<lparr>c_tasks := map (\<lambda>t. t\<lparr>rt_cancelled := True\<rparr>) (c_tasks c)\<rparr>)) (
     on_snd (asleep GRACEFUL_CLOSE_DELAY_SECS))))))"

section \<open>The receive loop\<close>

definition shut_down :: "ReceiveTask \<Rightarrow> 'w c_state \<Rightarrow> bool" where
  "shut_down t s \<longleftrightarrow> is_set (rt_shutdown t) (snd s)"

definition stop_set :: "ReceiveTask \<Rightarrow> 'w c_state \<Rightarrow> bool" where
  "stop_set t s \<longleftrightarrow> is_set (tc_stop_event (c_store (fst s) ! rt_consumer t)) (snd s)"

text \<open>\<open>try: await consumer.subscribe(); continue except Exception: return\<close>: the next position and
  the number of attempts.\<close>

definition resubscribe :: "'w Outside \<Rightarrow> ReceiveTask \<Rightarrow> int \<Rightarrow> ('w c_state, recv_pc \<times> int) py" where
  "resubscribe E t attempts =
     handle (bnd (on_tc (rt_consumer t) (tc_subscribe E)) (\<lambda>_. ret (OpenStream, attempts)))
       (\<lambda>exc. ret (Finished, attempts))"

text \<open>From the top of the loop until a stream is open.\<close>

definition recv_open :: "'w Outside \<Rightarrow> ReceiveTask \<Rightarrow> ('w c_state, recv_pc \<times> int) py" where
  "recv_open E t =
     bnd (gets (shut_down t)) (\<lambda>shutdown.
     if shutdown then ret (Finished, rt_attempts t)
     else handle
       (bnd (on_tc (rt_consumer t) (tc_receive E)) (\<lambda>stream. ret (Reading stream, 0)))
       (\<lambda>err.
          if is_UnrecoverableError err then resubscribe E t 0
          else if is_retryable err then
            (let attempts = rt_attempts t + 1 in
             if attempts > max_retries (rt_retry_manager t) then resubscribe E t 0
             else bnd (on_snd (backoff_delay E (rt_retry_manager t) (attempts - 1))) (\<lambda>backoff.
                  seq (on_snd (asleep backoff)) (ret (OpenStream, attempts))))
          else ret (Finished, rt_attempts t)))"

text \<open>After the stream ended, raised, or was left with \<open>break\<close>.\<close>

definition after_stream :: "'w Outside \<Rightarrow> ReceiveTask \<Rightarrow> ('w c_state, recv_pc \<times> int) py" where
  "after_stream E t =
     bnd (gets (shut_down t)) (\<lambda>shutdown.
     if shutdown then ret (Finished, rt_attempts t)
     else
       bnd (gets (stop_set t)) (\<lambda>stopped.
       if stopped then
         bnd (get_self (\<lambda>c. tc_stop_event (c_store c ! rt_consumer t))) (\<lambda>event.
         seq (on_snd (clear_event event)) (
         resubscribe E t (rt_attempts t)))
       else ret (OpenStream, rt_attempts t)))"

text \<open>\<open>async for message in stream\<close>: one turn, up to the \<open>put\<close>.\<close>

definition recv_read :: "'w Outside \<Rightarrow> ReceiveTask \<Rightarrow> nat \<Rightarrow> ('w c_state, recv_pc \<times> int) py" where
  "recv_read E t stream =
     bnd (handle (on_snd (on_outside (next_message E stream))) (\<lambda>exc. ret None)) (\<lambda>item.
     (case item of
        None \<Rightarrow> after_stream E t
      | Some message \<Rightarrow>
          bnd (gets (shut_down t)) (\<lambda>shutdown.
          if shutdown then ret (Finished, rt_attempts t)
          else
            bnd (gets (stop_set t)) (\<lambda>stopped.
            if stopped then after_stream E t
            else ret (Putting stream message, rt_attempts t)))))"

text \<open>\<open>await queue.put(message)\<close> once there is room.\<close>

definition recv_put :: "ReceiveTask \<Rightarrow> nat \<Rightarrow> StreamMessage \<Rightarrow> ('w c_state, recv_pc \<times> int) py" where
  "recv_put t stream message =
     seq (set_self (\<lambda>c. c\<lparr>c_queues := (c_queues c)[rt_queue t := c_queues c ! rt_queue t @ [message]]\<rparr>))
         (ret (Reading stream, rt_attempts t))"

text \<open>A turn of task \<open>i\<close>: its new position; an exception that leaves the coroutine ends it.\<close>

definition set_task :: "nat \<Rightarrow> (ReceiveTask \<Rightarrow> ReceiveTask) \<Rightarrow> 'w c_state \<Rightarrow> 'w c_state" where
  "set_task i f s = ((fst s)\<lparr>c_tasks := (c_tasks (fst s))[i := f (c_tasks (fst s) ! i)]\<rparr>, snd s)"

definition turn :: "nat \<Rightarrow> ('w c_state, recv_pc \<times> int) py \<Rightarrow> 'w c_state \<Rightarrow> 'w c_state" where
  "turn i m s =
     (case m s of
        (Inr (pc, n), s') \<Rightarrow> set_task i (\<lambda>t. t\<lparr>rt_attempts := n, rt_pc := pc\<rparr>) s'
      | (Inl e, s') \<Rightarrow> set_task i (\<lambda>t. t\<lparr>rt_pc := Finished\<rparr>) s')"

inductive recv_step :: "'w Outside \<Rightarrow> nat \<Rightarrow> 'w c_state \<Rightarrow> 'w c_state \<Rightarrow> bool"
  for E :: "'w Outside" and i :: nat where
  open_turn:
    "i < length (c_tasks (fst s)) \<Longrightarrow> t = c_tasks (fst s) ! i \<Longrightarrow> rt_pc t = OpenStream \<Longrightarrow>
     \<not> rt_cancelled t \<Longrightarrow> recv_step E i s (turn i (recv_open E t) s)"
| read_turn:
    "i < length (c_tasks (fst s)) \<Longrightarrow> t = c_tasks (fst s) ! i \<Longrightarrow> rt_pc t = Reading stream \<Longrightarrow>
     \<not> rt_cancelled t \<Longrightarrow> recv_step E i s (turn i (recv_read E t stream) s)"
| put_turn:
    "i < length (c_tasks (fst s)) \<Longrightarrow> t = c_tasks (fst s) ! i \<Longrightarrow> rt_pc t = Putting stream m \<Longrightarrow>
     \<not> rt_cancelled t \<Longrightarrow> length (c_queues (fst s) ! rt_queue t) < RECEIVE_CHANNEL_BUFFER \<Longrightarrow>
     recv_step E i s (turn i (recv_put t stream m) s)"
| cancelled:
    "i < length (c_tasks (fst s)) \<Longrightarrow> t = c_tasks (fst s) ! i \<Longrightarrow> rt_pc t \<noteq> Finished \<Longrightarrow>
     rt_cancelled t \<Longrightarrow> recv_step E i s (set_task i (\<lambda>t. t\<lparr>rt_pc := Finished\<rparr>) s)"

inductive_cases recv_stepE: "recv_step E i s s'"

text \<open>The process around the tasks: the application subscribes, receives, takes messages out of a
  queue, acknowledges and closes; everything else, such as the health checks, changes the world
  only.\<close>

inductive consumer_step :: "'w Outside \<Rightarrow> 'w c_state \<Rightarrow> 'w c_state \<Rightarrow> bool"
  for E :: "'w Outside" where
  task: "recv_step E i s s' \<Longrightarrow> consumer_step E s s'"
| take: "q < length (c_queues c) \<Longrightarrow> c_queues c ! q = m # ms \<Longrightarrow>
     consumer_step E (c, w) (c\<lparr>c_queues := (c_queues c)[q := ms]\<rparr>, w)"
| subscribe: "\<forall>n. schedule (order n) n \<Longrightarrow> consumer_step E s (snd (c_subscribe E order s))"
| receive: "consumer_step E s (snd (c_receive s))"
| ack: "consumer_step E s (snd (c_ack E m s))"
| nack: "consumer_step E s (snd (c_nack E m d re s))"
| close: "consumer_step E s (snd (c_close s))"
| world: "grows w w' \<Longrightarrow> consumer_step E (c, w) (c, w')"

section \<open>The builder\<close>

text \<open>\<open>_key_filters\<close> is a list object that the builder shares with the consumers it builds.\<close>

record ConsumerBuilder =
  cb_topic :: string
  cb_consumer_name :: string
  cb_subscription :: string
  cb_subscription_type :: SubType
  cb_options :: ConsumerOptions
  cb_key_filters :: nat

definition new_ConsumerBuilder :: "('w World, ConsumerBuilder) py" where
  "new_ConsumerBuilder =
     bnd (new_list []) (\<lambda>fl.
     ret \<lparr>cb_topic = '''', cb_consumer_name = '''', cb_subscription = '''',
          cb_subscription_type = SHARED, cb_options = default_ConsumerOptions,
          cb_key_filters = fl\<rparr>)"

type_synonym 'w cb_state = "ConsumerBuilder \<times> 'w World"

definition cb_with_topic :: "string \<Rightarrow> ('w cb_state, unit) py" where
  "cb_with_topic topic = set_self (\<lambda>b. b\<lparr>cb_topic := topic\<rparr>)"

definition cb_with_consumer_name :: "string \<Rightarrow> ('w cb_state, unit) py" where
  "cb_with_consumer_name name = set_self (\<lambda>b. b\<lparr>cb_consumer_name := name\<rparr>)"

definition cb_with_subscription :: "string \<Rightarrow> ('w cb_state, unit) py" where
  "cb_with_subscription subscription = set_self (\<lambda>b. b\<lparr>cb_subscription := subscription\<rparr>)"

definition cb_with_subscription_type :: "SubType \<Rightarrow> ('w cb_state, unit) py" where
  "cb_with_subscription_type sub_type = set_self (\<lambda>b. b\<lparr>cb_subscription_type := sub_type\<rparr>)"

definition cb_with_options :: "ConsumerOptions \<Rightarrow> ('w cb_state, unit) py" where
  "cb_with_options options = set_self (\<lambda>b. b\<lparr>cb_options := options\<rparr>)"

definition cb_with_key_filters :: "string list \<Rightarrow> ('w cb_state, unit) py" where
  "cb_with_key_filters patterns =
     bnd (get_self cb_key_filters) (\<lambda>fl. on_snd (extend_list fl patterns))"

definition cb_with_key_filter :: "string \<Rightarrow> ('w cb_state, unit) py" where
  "cb_with_key_filter pattern =
     bnd (get_self cb_key_filters) (\<lambda>fl. on_snd (extend_list fl [pattern]))"

definition cb_build :: "('w cb_state, Consumer) py" where
  "cb_build =
     bnd (get_self id) (\<lambda>b.
     if cb_topic b = '''' \<or> cb_consumer_name b = '''' \<or> cb_subscription b = ''''
     then throw (ValueError ''topic, consumer_name, and subscription are required'')
     else on_snd (new_Consumer (cb_topic b) (cb_consumer_name b) (cb_subscription b)
            (cb_subscription_type b) (cb_options b) (Some (cb_key_filters b))))"

end
