(* ===== verification/ConsumerRuns.thy ===== *)
theory ConsumerRuns
  imports Consumer
begin

text \<open>
  What the operations of a consumer do to it, and what it keeps over any run of its process: the
  work of a receive task on the shared topic consumers (\<open>tc_work\<close>), the shape of one step
  (\<open>task_moves\<close>), what \<open>subscribe\<close> leaves (\<open>enrolled\<close>), and that what a receive task was started
  with never changes (\<open>tasks_kept\<close>).
\<close>

section \<open>Work on the topic consumers\<close>

text \<open>Only the topic consumers change, and none is added or removed.\<close>

definition tc_work :: "'w c_state \<Rightarrow> 'w c_state \<Rightarrow> bool" where
  "tc_work s s' \<longleftrightarrow> length (c_store (fst s')) = length (c_store (fst s))
     \<and> fst s' = (fst s)\<lparr>c_store := c_store (fst s')\<rparr>"

interpretation tc_work: evolution tc_work
proof
  show "tc_work s s" for s :: "'w c_state" by (simp add: tc_work_def)
  fix s t u :: "'w c_state"
  assume st: "tc_work s t" and tu: "tc_work t u"
  have "fst u = (fst t)\<lparr>c_store := c_store (fst u)\<rparr>" using tu by (simp add: tc_work_def)
  also have "\<dots> = ((fst s)\<lparr>c_store := c_store (fst t)\<rparr>)\<lparr>c_store := c_store (fst u)\<rparr>"
    using st by (simp add: tc_work_def)
  finally show "tc_work s u" using st tu by (simp add: tc_work_def)
qed

lemma tc_work_primitive [stays_rules]:
  "stays tc_work (on_tc i m)" "stays tc_work (on_snd k)" "stays tc_work (get_self f)"
proof -
  show "stays tc_work (on_tc i m)"
    by (rule staysI) (auto simp: on_tc_def tc_work_def split: prod.split)
  show "stays tc_work (on_snd k)"
    by (rule staysI) (auto simp: on_snd_def tc_work_def split: prod.split)
  show "stays tc_work (get_self f)"
    unfolding get_self_def by (rule tc_work.gets)
qed

lemma receive_turns_work [stays_rules]:
  "stays tc_work (resubscribe E t n)" "stays tc_work (recv_open E t)"
  "stays tc_work (after_stream E t)" "stays tc_work (recv_read E t stream)"
proof -
  show res: "stays tc_work (resubscribe E t n)" for n
    unfolding resubscribe_def by (intro tc_work.steps stays_rules)
  show after: "stays tc_work (after_stream E t)"
    unfolding after_stream_def by (intro tc_work.steps stays_rules res)
  show "stays tc_work (recv_open E t)"
    unfolding recv_open_def Let_def by (intro tc_work.steps stays_rules res)
  show "stays tc_work (recv_read E t stream)"
    unfolding recv_read_def
    by (intro tc_work.steps stays_rules) (auto intro!: tc_work.steps after split: option.split)
qed

lemma ack_work [stays_rules]: "stays tc_work (c_ack E m)" "stays tc_work (c_nack E m d re)"
  unfolding c_ack_def c_nack_def
  by (auto intro!: tc_work.steps stays_rules split: option.split)

section \<open>One step of a receive task\<close>

text \<open>The task a step leaves: the same task at another position.\<close>

definition moved :: "ReceiveTask \<Rightarrow> ReceiveTask \<Rightarrow> bool" where
  "moved t u \<longleftrightarrow> u = t\<lparr>rt_attempts := rt_attempts u, rt_pc := rt_pc u\<rparr>"

lemma moved_fields:
  assumes "moved t u"
  shows "rt_consumer u = rt_consumer t" "rt_queue u = rt_queue t" "rt_shutdown u = rt_shutdown t"
    "rt_cancelled u = rt_cancelled t" "rt_retry_manager u = rt_retry_manager t"
  by (subst assms [unfolded moved_def], simp)+

lemma moved_set [simp]:
  "moved t (t\<lparr>rt_pc := pc\<rparr>)" "moved t (t\<lparr>rt_attempts := n, rt_pc := pc\<rparr>)"
  by (simp_all add: moved_def)

text \<open>The shape of every step: it moves its own task, it may change topic consumers, and the only
  change to a queue is the message it was about to put.\<close>

definition puts :: "ReceiveTask \<Rightarrow> StreamMessage list list \<Rightarrow> StreamMessage list list \<Rightarrow> bool" where
  "puts t qs qs' \<longleftrightarrow> (\<exists>stream m. rt_pc t = Putting stream m \<and> \<not> rt_cancelled t
     \<and> length (qs ! rt_queue t) < RECEIVE_CHANNEL_BUFFER
     \<and> qs' = qs[rt_queue t := qs ! rt_queue t @ [m]])"

definition task_moves :: "nat \<Rightarrow> 'w c_state \<Rightarrow> 'w c_state \<Rightarrow> bool" where
  "task_moves i s s' \<longleftrightarrow> (\<exists>st u qs. i < length (c_tasks (fst s))
     \<and> length st = length (c_store (fst s)) \<and> moved (c_tasks (fst s) ! i) u
     \<and> fst s' = (fst s)\<lparr>c_store := st, c_tasks := (c_tasks (fst s))[i := u], c_queues := qs\<rparr>
     \<and> (qs = c_queues (fst s) \<or> puts (c_tasks (fst s) ! i) (c_queues (fst s)) qs)
     \<and> (rt_cancelled (c_tasks (fst s) ! i) \<longrightarrow>
          rt_pc u = Finished \<and> qs = c_queues (fst s) \<and> st = c_store (fst s) \<and> snd s' = snd s))"

lemma task_movesI:
  "i < length (c_tasks (fst s)) \<Longrightarrow> length st = length (c_store (fst s)) \<Longrightarrow>
   moved (c_tasks (fst s) ! i) u \<Longrightarrow>
   fst s' = (fst s)\<lparr>c_store := st, c_tasks := (c_tasks (fst s))[i := u], c_queues := qs\<rparr> \<Longrightarrow>
   qs = c_queues (fst s) \<or> puts (c_tasks (fst s) ! i) (c_queues (fst s)) qs \<Longrightarrow>
   (rt_cancelled (c_tasks (fst s) ! i) \<Longrightarrow>
      rt_pc u = Finished \<and> qs = c_queues (fst s) \<and> st = c_store (fst s) \<and> snd s' = snd s) \<Longrightarrow>
   task_moves i s s'"
  unfolding task_moves_def by blast

lemma turn_moves:
  assumes "stays tc_work m" and "i < length (c_tasks (fst s))" and "\<not> rt_cancelled (c_tasks (fst s) ! i)"
  shows "task_moves i s (turn i m s)"
proof -
  obtain r c1 w1 where run: "m s = (r, (c1, w1))" by (metis surj_pair)
  from staysD [OF assms(1) run] have st: "length (c_store c1) = length (c_store (fst s))"
    and c1: "c1 = (fst s)\<lparr>c_store := c_store c1\<rparr>" by (simp_all add: tc_work_def)
  have same: "c_tasks c1 = c_tasks (fst s)" "c_queues c1 = c_queues (fst s)" by (subst c1, simp)+
  define u where "u = (case r of Inl e \<Rightarrow> (c_tasks (fst s) ! i)\<lparr>rt_pc := Finished\<rparr>
    | Inr x \<Rightarrow> (c_tasks (fst s) ! i)\<lparr>rt_attempts := snd x, rt_pc := fst x\<rparr>)"
  have "fst (turn i m s) = c1\<lparr>c_tasks := (c_tasks (fst s))[i := u]\<rparr>"
    using run same by (auto simp: turn_def set_task_def u_def split: sum.split prod.split)
  also have "\<dots> = (fst s)\<lparr>c_store := c_store c1, c_tasks := (c_tasks (fst s))[i := u],
      c_queues := c_queues (fst s)\<rparr>"
    by (subst c1) simp
  finally show ?thesis
    using assms st by (intro task_movesI [of i s "c_store c1" u _ "c_queues (fst s)"])
      (simp_all add: u_def split: sum.split)
qed

lemma recv_step_moves: "recv_step E i s s' \<Longrightarrow> task_moves i s s'"
proof (erule recv_stepE; hypsubst)
  assume i: "i < length (c_tasks (fst s))" and live: "\<not> rt_cancelled (c_tasks (fst s) ! i)"
  show "task_moves i s (turn i (recv_open E (c_tasks (fst s) ! i)) s)"
    by (rule turn_moves [OF _ i live]) (rule stays_rules)
  show "task_moves i s (turn i (recv_read E (c_tasks (fst s) ! i) stream) s)" for stream
    by (rule turn_moves [OF _ i live]) (rule stays_rules)
next
  fix stream m
  assume i: "i < length (c_tasks (fst s))" and "\<not> rt_cancelled (c_tasks (fst s) ! i)"
    and "rt_pc (c_tasks (fst s) ! i) = Putting stream m"
    and "length (c_queues (fst s) ! rt_queue (c_tasks (fst s) ! i)) < RECEIVE_CHANNEL_BUFFER"
  moreover obtain c w where s: "s = (c, w)" by (meson surj_pair)
  ultimately show "task_moves i s (turn i (recv_put (c_tasks (fst s) ! i) stream m) s)"
    by (intro task_movesI [where st = "c_store c" and qs = "(c_queues c)[rt_queue (c_tasks c ! i) :=
          c_queues c ! rt_queue (c_tasks c ! i) @ [m]]"
        and u = "(c_tasks c ! i)\<lparr>rt_pc := Reading stream\<rparr>"])
       (auto simp: puts_def turn_def recv_put_def run_simps set_task_def)
next
  assume "i < length (c_tasks (fst s))"
  then show "task_moves i s (set_task i (\<lambda>t. t\<lparr>rt_pc := Finished\<rparr>) s)"
    by (intro task_movesI [where st = "c_store (fst s)" and qs = "c_queues (fst s)"])
       (auto simp: set_task_def)
qed

section \<open>Subscription\<close>

text \<open>A topic consumer that \<open>subscribe\<close> made for a partition.\<close>

definition tc_for :: "Consumer \<Rightarrow> string \<Rightarrow> TopicConsumer \<Rightarrow> 'w World \<Rightarrow> bool" where
  "tc_for c part t w \<longleftrightarrow> tc_topic_name t = part \<and> tc_consumer_name t = c_consumer_name c
     \<and> tc_subscription t = c_subscription c
     \<and> tc_subscription_type t = int_SubType (c_subscription_type c)
     \<and> tc_retry_manager t = c_retry_of (c_options c) \<and> tc_ready t w"

lemma c_retry_of_ok [simp, intro]: "rm_ok (c_retry_of opts)"
  by (simp add: c_retry_of_def)

lemma list_or_new_run:
  obtains fl w1 where "list_or_new x w = (Inr fl, w1)" and "grows w w1" and "trace w1 = trace w"
proof -
  have "\<exists>fl w1. list_or_new x w = (Inr fl, w1) \<and> trace w1 = trace w"
    by (auto simp: list_or_new_def run_simps split: option.split)
  then obtain fl w1 where "list_or_new x w = (Inr fl, w1)" "trace w1 = trace w" by blast
  with staysD [OF list_or_new_keeps(1) this(1)] show ?thesis using that by blast
qed

lemma subscribe_one_run:
  obtains t w1 where "grows w w1" and "trace w1 = trace w"
    and "tc_identity t = (part, c_consumer_name c, c_subscription c, int_SubType (c_subscription_type c),
       tc_key_filters t, c_retry_of (c_options c), tc_stop_event t)"
    and "subscribe_one E part (c, w) = (case tc_subscribe E (t, w1) of (r, (t', w2)) \<Rightarrow>
       (case r of Inl e \<Rightarrow> Inl e | Inr _ \<Rightarrow> Inr (part, length (c_store c)),
        (c\<lparr>c_store := c_store c @ [t']\<rparr>, w2)))"
proof -
  obtain fl w1 where fl: "list_or_new (Some (c_key_filters c)) w = (Inr fl, w1)" "grows w w1" "trace w1 = trace w"
    by (rule list_or_new_run)
  let ?w2 = "w1\<lparr>events := events w1 @ [False]\<rparr>"
  have g: "grows w ?w2"
    using grows.trans [OF fl(2) staysD [OF event_keeps(1) new_event_run [of w1]]] .
  obtain t where new: "new_TopicConsumer part (c_consumer_name c) (c_subscription c)
      (int_SubType (c_subscription_type c)) (Some (c_key_filters c)) (co_max_retries (c_options c))
      (co_base_backoff_ms (c_options c)) (co_max_backoff_ms (c_options c)) w = (Inr t, ?w2)"
    and ident: "tc_identity t = (part, c_consumer_name c, c_subscription c,
       int_SubType (c_subscription_type c), tc_key_filters t, c_retry_of (c_options c), tc_stop_event t)"
    by (simp add: new_TopicConsumer_def fl(1) run_simps tc_identity_def c_retry_of_def)
  obtain r t' w3 where "tc_subscribe E (t, ?w2) = (r, (t', w3))" by (metis surj_pair)
  then have "subscribe_one E part (c, w) = (case tc_subscribe E (t, ?w2) of (r, (t', w2)) \<Rightarrow>
       (case r of Inl e \<Rightarrow> Inl e | Inr _ \<Rightarrow> Inr (part, length (c_store c)),
        (c\<lparr>c_store := c_store c @ [t']\<rparr>, w2)))"
    by (cases r) (simp_all add: subscribe_one_def new store_tc_def on_tc_def run_simps)
  moreover have "trace ?w2 = trace w" by (simp add: fl(3))
  ultimately show ?thesis using that [OF g _ ident] by blast
qed

definition enrolled ::
  "Consumer \<Rightarrow> 'w World \<Rightarrow> string list \<Rightarrow> (nat \<rightharpoonup> string \<times> nat) \<Rightarrow> 'w c_state \<Rightarrow> bool" where
  "enrolled c0 w0 ps m s \<longleftrightarrow> (case s of (c, w) \<Rightarrow>
     c = c0\<lparr>c_store := c_store c\<rparr> \<and> length (c_store c0) \<le> length (c_store c)
     \<and> take (length (c_store c0)) (c_store c) = c_store c0 \<and> grows w0 w
     \<and> (\<forall>i part k. m i = Some (part, k) \<longrightarrow> i < length ps \<and> part = ps ! i \<and> k < length (c_store c)
          \<and> tc_for c0 part (c_store c ! k) w)
     \<and> inj_on (\<lambda>i. snd (the (m i))) (dom m))"

lemma tc_for_grows: "tc_for c part t v \<Longrightarrow> grows v w \<Longrightarrow> tc_for c part t w"
  by (auto simp: tc_for_def intro: tc_ready_grows)

lemma enrolled_start: "enrolled c w ps (\<lambda>_. None) (c, w)"
  by (simp add: enrolled_def grows.refl)

lemma enrolled_step:
  assumes en: "enrolled c0 w0 ps m s" and i: "i < length ps" "i \<notin> dom m"
    and run: "subscribe_one E (ps ! i) s = (r, s1)"
  shows "(case r of Inl e \<Rightarrow> enrolled c0 w0 ps m s1 | Inr x \<Rightarrow> enrolled c0 w0 ps (m(i \<mapsto> x)) s1)"
proof -
  obtain c w where s: "s = (c, w)" by (meson surj_pair)
  have c: "c = c0\<lparr>c_store := c_store c\<rparr>" and len: "length (c_store c0) \<le> length (c_store c)"
    and pre: "take (length (c_store c0)) (c_store c) = c_store c0" and g0: "grows w0 w"
    and old: "\<And>i part k. m i = Some (part, k) \<Longrightarrow> i < length ps \<and> part = ps ! i
      \<and> k < length (c_store c) \<and> tc_for c0 part (c_store c ! k) w"
    and inj: "inj_on (\<lambda>i. snd (the (m i))) (dom m)"
    using en by (simp_all add: enrolled_def s)
  obtain t w1 where g1: "grows w w1" and "trace w1 = trace w"
    and ident: "tc_identity t = (ps ! i, c_consumer_name c, c_subscription c,
       int_SubType (c_subscription_type c), tc_key_filters t, c_retry_of (c_options c), tc_stop_event t)"
    and one: "subscribe_one E (ps ! i) (c, w) = (case tc_subscribe E (t, w1) of (r, (t', w2)) \<Rightarrow>
       (case r of Inl e \<Rightarrow> Inl e | Inr _ \<Rightarrow> Inr (ps ! i, length (c_store c)),
        (c\<lparr>c_store := c_store c @ [t']\<rparr>, w2)))"
    by (rule subscribe_one_run [of w "ps ! i" c E])
  obtain r1 t' w2 where sub: "tc_subscribe E (t, w1) = (r1, (t', w2))" by (metis surj_pair)
  have rm: "rm_ok (tc_retry_manager (fst (t, w1)))" using ident by (simp add: tc_identity_def)
  have g2: "grows w1 w2" using tc_subscribe_keeps(1) [OF rm, of E] sub by (simp add: on_world_def)
  have ident': "tc_identity t' = tc_identity t" using tc_subscribe_identity [OF rm, of E] sub by simp
  have g: "grows w w2" using grows.trans [OF g1 g2] .
  have s1: "s1 = (c\<lparr>c_store := c_store c @ [t']\<rparr>, w2)"
    and r: "r = (case r1 of Inl e \<Rightarrow> Inl e | Inr _ \<Rightarrow> Inr (ps ! i, length (c_store c)))"
    using run one sub by (simp_all add: s)
  have c1: "c\<lparr>c_store := c_store c @ [t']\<rparr> = c0\<lparr>c_store := c_store c @ [t']\<rparr>"
    by (subst c) simp
  have fields: "c_consumer_name c = c_consumer_name c0" "c_subscription c = c_subscription c0"
    "c_subscription_type c = c_subscription_type c0" "c_options c = c_options c0"
    by (subst c, simp)+
  have old': "j < length ps \<and> part = ps ! j \<and> k < length (c_store c @ [t'])
      \<and> tc_for c0 part ((c_store c @ [t']) ! k) w2" if "m j = Some (part, k)" for j part k
  proof -
    have "tc_for c0 part (c_store c ! k) w2" using old [OF that] by (blast intro: tc_for_grows [OF _ g])
    with old [OF that] show ?thesis by (simp add: nth_append)
  qed
  have same: "enrolled c0 w0 ps m s1"
    using len pre grows.trans [OF g0 g] old' inj by (simp add: enrolled_def s1 c1)
  show ?thesis
  proof (cases r1)
    case (Inl e)
    with same r show ?thesis by simp
  next
    case (Inr cid)
    have "tc_ready t' w2" using tc_subscribe_live [of E "(t, w1)" cid "(t', w2)"] sub Inr rm
      by (auto intro: tc_live_ready)
    then have new: "tc_for c0 (ps ! i) t' w2"
      using ident ident' fields by (simp add: tc_for_def tc_identity_def)
    have fresh: "length (c_store c) \<notin> (\<lambda>i. snd (the (m i))) ` dom m"
      using old by fastforce
    let ?f = "\<lambda>j. snd (the ((m(i \<mapsto> (ps ! i, length (c_store c)))) j))"
    have off: "?f j = snd (the (m j))" if "j \<in> dom m" for j using i(2) that by auto
    have "inj_on ?f (dom m) \<longleftrightarrow> inj_on (\<lambda>j. snd (the (m j))) (dom m)" by (rule inj_on_cong) (rule off)
    moreover have "?f i \<notin> ?f ` dom m" using fresh off by (auto simp: image_iff)
    ultimately have "inj_on ?f (insert i (dom m))" using inj i(2) by (simp del: fun_upd_apply)
    moreover have "j < length ps \<and> part = ps ! j \<and> k < length (c_store c @ [t'])
        \<and> tc_for c0 part ((c_store c @ [t']) ! k) w2"
      if "(m(i \<mapsto> (ps ! i, length (c_store c)))) j = Some (part, k)" for j part k
      using that old' new i(1) by (cases "j = i") auto
    ultimately have "enrolled c0 w0 ps (m(i \<mapsto> (ps ! i, length (c_store c)))) s1"
      using len pre grows.trans [OF g0 g]
      unfolding enrolled_def s1 c1 by (simp del: fun_upd_apply)
    with r Inr show ?thesis by simp
  qed
qed

lemma subscribe_parts:
  fixes s' :: "'w c_state"
  assumes "schedule order (length ps)"
    and "gather order (map (subscribe_one E) ps) (c, w) = (r, s')"
  shows "\<exists>m. enrolled c w ps m s' \<and> (\<forall>xs. r = Inr xs \<longrightarrow>
    dom m = {..<length ps} \<and> xs = map (\<lambda>i. the (m i)) [0..<length ps])"
proof -
  let ?ms = "map (subscribe_one E) ps"
  from assms(2) obtain e xs where run: "gather_run order (\<lambda>i. ?ms ! i) (c, w) = ((e, xs), s')"
    and r: "r = (case e of Some err \<Rightarrow> Inl err | None \<Rightarrow> Inr (map (\<lambda>i. the (xs i)) [0..<length ?ms]))"
    by (rule gather_cases)
  have "enrolled c w ps (Map.empty ++ xs) s' \<and> dom xs \<subseteq> set order \<and> (e = None \<longrightarrow> dom xs = set order)"
  proof (rule gather_run_invar [OF run, where I = "{..<length ps}"])
    show "distinct order" "set order \<subseteq> {..<length ps}" using assms(1) by (auto simp: schedule_def)
    show "enrolled c w ps Map.empty (c, w)" by (rule enrolled_start)
  next
    fix i m and s :: "'w c_state" and x s1
    assume "i \<in> {..<length ps}" "i \<notin> dom m" "enrolled c w ps m s" "(?ms ! i) s = (Inr x, s1)"
    then show "enrolled c w ps (m(i \<mapsto> x)) s1"
      using enrolled_step [of c w ps m s i E "Inr x" s1] by simp
  next
    fix i m and s :: "'w c_state" and err s1
    assume "i \<in> {..<length ps}" "i \<notin> dom m" "enrolled c w ps m s" "(?ms ! i) s = (Inl err, s1)"
    then show "enrolled c w ps m s1"
      using enrolled_step [of c w ps m s i E "Inl err" s1] by simp
  qed simp_all
  with r assms(1) show ?thesis
    by (intro exI [of _ xs]) (auto simp: schedule_def split: option.splits)
qed

text \<open>With a broker that accepts every subscription, \<open>subscribe\<close> returns.\<close>

definition always_subscribes :: "'w Outside \<Rightarrow> bool" where
  "always_subscribes E \<longleftrightarrow> (\<forall>call q x. \<exists>resp x'. answer_Subscribe E call q x = (Inr resp, x'))"

lemma tc_subscribe_succeeds:
  assumes "always_subscribes E" and "static_token (snd s)"
  shows "\<exists>cid s'. tc_subscribe E s = (Inr cid, s')"
proof -
  obtain t w where s2: "snd (tc_lookup_new_broker E s) = (t, w)" by (meson surj_pair)
  have static: "static_token w"
    using static_token_kept [OF tc_lookup_keeps(1) assms(2), of E] s2 by simp
  have "\<exists>cid s'. tc_try_subscribe E (t, w) = (Inr cid, s')"
  proof (rule tc_try_subscribe_run [OF static, of t E])
    fix conn cm'
    assume look: "cm_connections cm' (pool_key (tc_broker_addr t, tc_connect_url t)) = Some conn"
      and run: "tc_try_subscribe E (t, w) =
      (case answer_Subscribe E (tc_call t w (rc_channel conn)) (subscribe_request t w) (outside w) of (r, x) \<Rightarrow>
        (let s1 = (t\<lparr>tc_stub := Some (rc_channel conn), tc_request_id := Suc (tc_request_id t)\<rparr>,
                   w\<lparr>conn_mgr := cm',
                     trace := trace w @ [Rpc (tc_call t w (rc_channel conn)) (Subscribe (subscribe_request t w))],
                     outside := x\<rparr>)
         in case r of Inl err \<Rightarrow> (Inl (already_exists ''consumer'' err), s1)
            | Inr resp \<Rightarrow> tc_subscribed resp s1))"
    obtain resp x where "answer_Subscribe E (tc_call t w (rc_channel conn)) (subscribe_request t w) (outside w)
        = (Inr resp, x)" using assms(1) unfolding always_subscribes_def by blast
    with run look show ?thesis
      by (auto simp: Let_def tc_subscribed_def run_simps start_health_check_hit)
  qed
  with s2 tc_retry.start_first [of E s] show ?thesis by auto
qed

lemma subscribe_one_succeeds:
  assumes "always_subscribes E" and "static_token (snd s)"
  shows "\<exists>x s'. subscribe_one E part s = (Inr x, s') \<and> static_token (snd s')"
proof -
  obtain c w where s: "s = (c, w)" by (meson surj_pair)
  show ?thesis
  proof (rule subscribe_one_run [of w part c E])
    fix t w1
    assume g: "grows w w1" and "trace w1 = trace w" and one: "subscribe_one E part (c, w) = (case tc_subscribe E (t, w1) of (r, (t', w2)) \<Rightarrow>
       (case r of Inl e \<Rightarrow> Inl e | Inr _ \<Rightarrow> Inr (part, length (c_store c)),
        (c\<lparr>c_store := c_store c @ [t']\<rparr>, w2)))"
      and ident: "tc_identity t = (part, c_consumer_name c, c_subscription c,
       int_SubType (c_subscription_type c), tc_key_filters t, c_retry_of (c_options c), tc_stop_event t)"
    have static: "static_token w1" using static_token_grows [OF g] assms(2) s by simp
    obtain cid t' w2 where sub: "tc_subscribe E (t, w1) = (Inr cid, (t', w2))"
      using tc_subscribe_succeeds [OF assms(1), of "(t, w1)"] static by fastforce
    have "rm_ok (tc_retry_manager t)" using ident by (simp add: tc_identity_def)
    with tc_subscribe_keeps(1) [of "(t, w1)" E] sub have "grows w1 w2" by (simp add: on_world_def)
    then have "static_token w2" using static static_token_grows by blast
    with one sub show ?thesis by (auto simp: s)
  qed
qed

lemma c_subscribe_succeeds:
  assumes "always_subscribes E" and "schedule (order (length ps)) (length ps)" and "ps \<noteq> []"
    and "topic_partitions E (uri w) (c_topic_name c) w = (Inr ps, w1)" and "static_token w"
  shows "\<exists>s'. c_subscribe E order (c, w) = (Inr (), s')"
proof -
  have static: "static_token (snd (c, w1))"
    using staysD [OF topic_partitions_keeps(1) assms(4)] assms(5) static_token_grows by fastforce
  have "\<exists>xs s'. gather (order (length ps)) (map (subscribe_one E) ps) (c, w1) = (Inr xs, s')"
    using subscribe_one_succeeds [OF assms(1)] static assms(2)
    by (intro gather_succeeds [where I = "\<lambda>s. static_token (snd s)"]) (auto simp: schedule_def)
  then obtain xs c2 w2 where g: "gather (order (length ps)) (map (subscribe_one E) ps) (c, w1) = (Inr xs, (c2, w2))"
    by fastforce
  from subscribe_parts [OF assms(2) g] assms(3) have "xs \<noteq> []" by auto
  then have "dict_of xs \<noteq> []" using dict_of_keys [of xs] by force
  with assms(4) g show ?thesis by (auto simp: c_subscribe_def run_simps)
qed

text \<open>What \<open>subscribe\<close> leaves, whether it returns or raises.\<close>

lemma c_subscribe_shape:
  assumes "\<And>n. schedule (order n) n" and "c_subscribe E order (c, w) = (r, (c', w'))"
  shows "\<exists>st cons. c' = c\<lparr>c_store := st, c_consumers := cons\<rparr> \<and> length (c_store c) \<le> length st
    \<and> take (length (c_store c)) st = c_store c \<and> grows w w'
    \<and> (cons = c_consumers c \<or> (\<forall>(part, k) \<in> set cons. k < length st \<and> tc_for c part (st ! k) w'))"
proof -
  obtain r1 w1 where parts: "topic_partitions E (uri w) (c_topic_name c) w = (r1, w1)"
    by (meson surj_pair)
  have g1: "grows w w1" using staysD [OF topic_partitions_keeps(1) parts] .
  show ?thesis
  proof (cases r1)
    case (Inl e)
    then have "c' = c\<lparr>c_store := c_store c, c_consumers := c_consumers c\<rparr>" "w' = w1"
      using assms(2) parts by (simp_all add: c_subscribe_def run_simps)
    with g1 show ?thesis by (intro exI [of _ "c_store c"] exI [of _ "c_consumers c"]) simp
  next
    case (Inr ps)
    obtain r2 c2 w2 where g: "gather (order (length ps)) (map (subscribe_one E) ps) (c, w1) = (r2, (c2, w2))"
      by (metis surj_pair)
    obtain m where en: "enrolled c w1 ps m (c2, w2)"
      and res: "\<And>xs. r2 = Inr xs \<Longrightarrow> dom m = {..<length ps} \<and> xs = map (\<lambda>i. the (m i)) [0..<length ps]"
      using subscribe_parts [OF assms(1) g] by blast
    from en have c2: "c2 = c\<lparr>c_store := c_store c2\<rparr>" and len: "length (c_store c) \<le> length (c_store c2)"
      and pre: "take (length (c_store c)) (c_store c2) = c_store c" and g2: "grows w1 w2"
      and all: "\<And>i part k. m i = Some (part, k) \<Longrightarrow> k < length (c_store c2) \<and> tc_for c part (c_store c2 ! k) w2"
      by (auto simp: enrolled_def)
    have c2': "c2 = c\<lparr>c_store := c_store c2, c_consumers := c_consumers c\<rparr>" by (subst c2) simp
    show ?thesis
    proof (cases r2)
      case (Inl e)
      then have "c' = c2" "w' = w2"
        using assms(2) parts g Inr by (simp_all add: c_subscribe_def run_simps)
      with c2' len pre grows.trans [OF g1 g2] show ?thesis by blast
    next
      case (Inr xs)
      then have c': "c' = c2\<lparr>c_consumers := dict_of xs\<rparr>" and w': "w' = w2"
        using assms(2) parts g \<open>r1 = Inr ps\<close>
        by (auto simp: c_subscribe_def run_simps split: if_splits)
      have "c' = c\<lparr>c_store := c_store c2, c_consumers := dict_of xs\<rparr>"
        unfolding c' by (subst c2) simp
      moreover have "\<forall>(part, k) \<in> set (dict_of xs). k < length (c_store c2) \<and> tc_for c part (c_store c2 ! k) w'"
      proof clarify
        fix part k
        assume "(part, k) \<in> set (dict_of xs)"
        then have "(part, k) \<in> set xs" using dict_of_set by blast
        then obtain i where "i < length ps" "the (m i) = (part, k)" using res [OF Inr] by auto
        then have "m i = Some (part, k)" using res [OF Inr] by (metis domD lessThan_iff option.sel)
        then show "k < length (c_store c2) \<and> tc_for c part (c_store c2 ! k) w'" using all w' by blast
      qed
      ultimately show ?thesis using len pre grows.trans [OF g1 g2] w' by blast
    qed
  qed
qed

text \<open>The dictionary \<open>consumers\<close> after \<open>subscribe\<close>: an object of its own for every partition.\<close>

lemma c_subscribe_registers:
  assumes "\<And>n. schedule (order n) n" and "c_subscribe E order (c, w) = (Inr (), (c', w'))"
  shows "\<exists>ps w1. topic_partitions E (uri w) (c_topic_name c) w = (Inr ps, w1) \<and> ps \<noteq> []
    \<and> fst ` set (c_consumers c') = set ps \<and> distinct (map fst (c_consumers c'))
    \<and> distinct (map snd (c_consumers c'))
    \<and> (\<forall>(part, k) \<in> set (c_consumers c'). k < length (c_store c') \<and> tc_for c part (c_store c' ! k) w')"
proof -
  obtain r1 w1 where parts: "topic_partitions E (uri w) (c_topic_name c) w = (r1, w1)" by (meson surj_pair)
  then obtain ps where ps: "r1 = Inr ps" using assms(2)
    by (cases r1) (auto simp: c_subscribe_def run_simps)
  obtain r2 c2 w2 where g: "gather (order (length ps)) (map (subscribe_one E) ps) (c, w1) = (r2, (c2, w2))"
    by (metis surj_pair)
  obtain m where en: "enrolled c w1 ps m (c2, w2)"
    and res: "\<And>xs. r2 = Inr xs \<Longrightarrow> dom m = {..<length ps} \<and> xs = map (\<lambda>i. the (m i)) [0..<length ps]"
    using subscribe_parts [OF assms(1) g] by blast
  obtain xs where xs: "r2 = Inr xs" using assms(2) parts ps g
    by (cases r2) (auto simp: c_subscribe_def run_simps)
  with assms(2) parts ps g have c': "c' = c2\<lparr>c_consumers := dict_of xs\<rparr>" "w' = w2" "dict_of xs \<noteq> []"
    by (auto simp: c_subscribe_def run_simps split: if_splits)
  have entry: "\<exists>k. xs ! i = (ps ! i, k) \<and> m i = Some (ps ! i, k) \<and> k < length (c_store c2)
      \<and> tc_for c (ps ! i) (c_store c2 ! k) w2" if "i < length ps" for i
  proof -
    from res [OF xs] that have "i \<in> dom m" by simp
    then obtain part k where mi: "m i = Some (part, k)" by fastforce
    with en have "part = ps ! i" "k < length (c_store c2)" "tc_for c part (c_store c2 ! k) w2"
      by (auto simp: enrolled_def)
    with mi res [OF xs] that show ?thesis by simp
  qed
  have len: "length xs = length ps" using res [OF xs] by simp
  have inj: "inj_on (\<lambda>i. snd (the (m i))) {..<length ps}" using en res [OF xs] by (simp add: enrolled_def)
  have names: "map fst xs = ps"
    using entry len by (intro nth_equalityI) force+
  have nodup: "distinct (map snd xs)"
    using inj by (simp add: res [OF xs] distinct_map comp_def atLeast0LessThan)
  have "inj_on snd (set (dict_of xs))"
    using nodup dict_of_set [of xs] by (auto simp: distinct_map intro: inj_on_subset)
  moreover have "distinct (dict_of xs)" using dict_of_distinct [of xs] by (simp add: distinct_map)
  ultimately have "distinct (map snd (c_consumers c'))" by (simp add: c' distinct_map)
  moreover have "fst ` set (c_consumers c') = set ps"
    using dict_of_keys [of xs] names by (simp add: c' flip: set_map)
  moreover have "k < length (c_store c') \<and> tc_for c part (c_store c' ! k) w'"
    if "(part, k) \<in> set (c_consumers c')" for part k
  proof -
    have "(part, k) \<in> set xs" using that dict_of_set [of xs] by (auto simp: c')
    then obtain i where "i < length ps" "xs ! i = (part, k)" using len by (metis in_set_conv_nth)
    with entry [of i] show ?thesis by (auto simp: c')
  qed
  moreover have "ps \<noteq> []" using c'(3) len by (auto simp: dict_of_def)
  ultimately show ?thesis
    using parts ps dict_of_distinct [of xs] by (auto simp: c'(1))
qed

section \<open>Whole runs\<close>

lemma receive_tasks_run:
  "for_each (\<lambda>tc. set_self (\<lambda>c. c\<lparr>c_tasks := c_tasks c @ [receive_task c queue tc]\<rparr>)) tcs (c, w) =
     (Inr (map (\<lambda>_. ()) tcs), (c\<lparr>c_tasks := c_tasks c @ map (receive_task c queue) tcs\<rparr>, w))"
  by (induction tcs arbitrary: c) (simp_all add: run_simps receive_task_def)

lemma c_receive_run [run_simps]:
  "c_receive (c, w) = (Inr (length (c_queues c)),
     (c\<lparr>c_queues := c_queues c @ [[]], c_tasks := c_tasks c
          @ map (receive_task c (length (c_queues c)) \<circ> snd) (c_consumers c)\<rparr>, w))"
  by (simp add: c_receive_def run_simps receive_tasks_run) (simp add: receive_task_def comp_def)

abbreviation cancelled_all :: "ReceiveTask list \<Rightarrow> ReceiveTask list" where
  "cancelled_all \<equiv> map (\<lambda>t. t\<lparr>rt_cancelled := True\<rparr>)"

lemma tc_stop_ok: "\<exists>s'. tc_stop s = (Inr (), s')"
  by (cases s) (auto simp: tc_stop_def run_simps cancel_task_def split: option.split)

lemma c_close_work:
  obtains st w' where "length st = length (c_store c)"
    and "c_close (c, w) = (Inr (), (c\<lparr>c_store := st, c_tasks := cancelled_all (c_tasks c)\<rparr>, w'))"
proof -
  let ?w = "w\<lparr>events := (events w)[c_shutdown c := True]\<rparr>"
  have stop: "\<exists>s1. on_tc k tc_stop s = (Inr (), s1)" for k and s :: "'a c_state"
    using tc_stop_ok [of "(c_store (fst s) ! k, snd s)"]
    by (cases s) (auto simp: on_tc_def split: prod.split)
  have "\<exists>rs s1. for_each (\<lambda>tc. on_tc tc tc_stop) ks s = (Inr rs, s1)" for ks and s :: "'a c_state"
  proof (induction ks arbitrary: s)
    case (Cons k ks)
    obtain s1 where "on_tc k tc_stop s = (Inr (), s1)" using stop by blast
    with Cons.IH [of s1] show ?case by (auto simp: run_simps)
  qed (simp add: run_simps)
  then obtain rs c1 w1 where
    run: "for_each (\<lambda>tc. on_tc tc tc_stop) (map snd (c_consumers c)) (c, ?w) = (Inr rs, (c1, w1))"
    by (metis surj_pair)
  have "stays tc_work (for_each (\<lambda>tc. on_tc tc tc_stop) (map snd (c_consumers c)))"
    by (rule tc_work.for_each) (rule stays_rules)
  from staysD [OF this run] have len: "length (c_store c1) = length (c_store c)"
    and c1: "c1 = c\<lparr>c_store := c_store c1\<rparr>" by (simp_all add: tc_work_def)
  have "c1\<lparr>c_tasks := cancelled_all (c_tasks c1)\<rparr>
      = c\<lparr>c_store := c_store c1, c_tasks := cancelled_all (c_tasks c)\<rparr>"
    by (subst (1 2) c1) simp
  with len run show ?thesis
    by (intro that [of "c_store c1"]) (simp_all add: c_close_def run_simps)
qed

text \<open>What a receive task was started with, and that a cancellation is never lost.\<close>

definition carries :: "ReceiveTask \<Rightarrow> ReceiveTask \<Rightarrow> bool" where
  "carries t u \<longleftrightarrow> rt_consumer u = rt_consumer t \<and> rt_queue u = rt_queue t
     \<and> rt_shutdown u = rt_shutdown t \<and> rt_retry_manager u = rt_retry_manager t
     \<and> (rt_cancelled t \<longrightarrow> rt_cancelled u)"

definition tasks_kept :: "'w c_state \<Rightarrow> 'w c_state \<Rightarrow> bool" where
  "tasks_kept s s' \<longleftrightarrow> length (c_tasks (fst s)) \<le> length (c_tasks (fst s'))
     \<and> (\<forall>i < length (c_tasks (fst s)). carries (c_tasks (fst s) ! i) (c_tasks (fst s') ! i))"

lemma carries_refl [simp]: "carries t t"
  by (simp add: carries_def)

interpretation tasks_kept: evolution tasks_kept
  by unfold_locales (auto simp: tasks_kept_def carries_def)

lemma tc_work_tasks: "tc_work s s' \<Longrightarrow> c_tasks (fst s') = c_tasks (fst s) \<and> c_queues (fst s') = c_queues (fst s)
    \<and> c_consumers (fst s') = c_consumers (fst s)"
proof -
  assume "tc_work s s'"
  then have "fst s' = (fst s)\<lparr>c_store := c_store (fst s')\<rparr>" by (simp add: tc_work_def)
  from arg_cong [OF this, of c_tasks] arg_cong [OF this, of c_queues] arg_cong [OF this, of c_consumers]
  show ?thesis by simp
qed

lemma task_moves_kept: "task_moves i s s' \<Longrightarrow> tasks_kept s s'"
  by (auto simp: task_moves_def tasks_kept_def carries_def nth_list_update moved_fields)

lemma consumer_step_tasks: "consumer_step E s s' \<Longrightarrow> tasks_kept s s'"
proof (induction rule: consumer_step.induct)
  case (task i s s')
  then show ?case by (intro task_moves_kept recv_step_moves)
next
  case (subscribe order s)
  obtain c w where s: "s = (c, w)" by (meson surj_pair)
  obtain r c' w' where run: "c_subscribe E order (c, w) = (r, (c', w'))" by (metis surj_pair)
  from c_subscribe_shape [OF _ run] subscribe obtain st cons
    where "c' = c\<lparr>c_store := st, c_consumers := cons\<rparr>" by blast
  with run s show ?case by (simp add: tasks_kept_def)
next
  case (receive s)
  obtain c w where "s = (c, w)" by (meson surj_pair)
  then show ?case by (simp add: tasks_kept_def c_receive_run nth_append)
next
  case (ack s m)
  have "tc_work s (snd (c_ack E m s))" by (rule stays_snd) (rule stays_rules)
  then show ?case by (simp add: tc_work_tasks tasks_kept_def)
next
  case (nack s m d re)
  have "tc_work s (snd (c_nack E m d re s))" by (rule stays_snd) (rule stays_rules)
  then show ?case by (simp add: tc_work_tasks tasks_kept_def)
next
  case (close s)
  obtain c w where s: "s = (c, w)" by (meson surj_pair)
  show ?case
    by (rule c_close_work [of c w]) (auto simp: s tasks_kept_def carries_def)
qed (simp_all add: tasks_kept_def)

lemma consumer_run_tasks: "(consumer_step E)\<^sup>*\<^sup>* s s' \<Longrightarrow> tasks_kept s s'"
  by (induction rule: rtranclp_induct)
     (auto intro: tasks_kept.refl tasks_kept.trans dest: consumer_step_tasks)

end
