(* ===== verification/ConsumerEvents.thy ===== *)
theory ConsumerEvents
  imports ConsumerRuns
begin

text \<open>
  The runs of a consumer with what happens in them. Every step has its events (\<open>consumer_act\<close>): the
  broker's stream yields a message to a receive task, the task delivers it to its queue or drops
  it, the application takes a message out of a queue, \<open>receive\<close> makes a new queue. On the one side
  the queues are mailboxes that follow these events (\<open>act_mail\<close>); on the other side no message is
  lost or made up between the stream and the queue (\<open>act_conserves\<close>).
\<close>

section \<open>Steps and their events\<close>

datatype event =
    Arrived nat StreamMessage
  | Delivered nat nat StreamMessage
  | Dropped nat StreamMessage
  | Taken nat StreamMessage
  | QueueOpened

text \<open>A turn of task \<open>i\<close> at its stream: what the stream yields arrives, and is dropped if the consumer
  shuts down or the topic consumer was told to stop. A turn at \<open>put\<close> delivers the message, or drops
  it when the task was cancelled there.\<close>

definition task_events :: "'w Outside \<Rightarrow> nat \<Rightarrow> 'w c_state \<Rightarrow> event list" where
  "task_events E i s =
     (let t = c_tasks (fst s) ! i in
      (case rt_pc t of
         Reading stream \<Rightarrow>
           (if rt_cancelled t then [] else
            (case fst (next_message E stream (outside (snd s))) of
               Inl exc \<Rightarrow> []
             | Inr None \<Rightarrow> []
             | Inr (Some m) \<Rightarrow> Arrived i m # (if shut_down t s \<or> stop_set t s then [Dropped i m] else [])))
       | Putting stream m \<Rightarrow> [if rt_cancelled t then Dropped i m else Delivered i (rt_queue t) m]
       | _ \<Rightarrow> []))"

inductive consumer_act :: "'w Outside \<Rightarrow> 'w c_state \<Rightarrow> event list \<Rightarrow> 'w c_state \<Rightarrow> bool"
  for E :: "'w Outside" where
  task: "recv_step E i s s' \<Longrightarrow> consumer_act E s (task_events E i s) s'"
| take: "q < length (c_queues c) \<Longrightarrow> c_queues c ! q = m # ms \<Longrightarrow>
     consumer_act E (c, w) [Taken q m] (c\<lparr>c_queues := (c_queues c)[q := ms]\<rparr>, w)"
| subscribe: "\<forall>n. schedule (order n) n \<Longrightarrow> consumer_act E s [] (snd (c_subscribe E order s))"
| receive: "consumer_act E s [QueueOpened] (snd (c_receive s))"
| ack: "consumer_act E s [] (snd (c_ack E m s))"
| nack: "consumer_act E s [] (snd (c_nack E m d re s))"
| close: "consumer_act E s [] (snd (c_close s))"
| world: "grows w w' \<Longrightarrow> consumer_act E (c, w) [] (c, w')"

text \<open>The same steps, and every run has its events.\<close>

lemma consumer_step_iff_act: "consumer_step E s s' \<longleftrightarrow> (\<exists>evs. consumer_act E s evs s')"
proof
  show "consumer_step E s s' \<Longrightarrow> \<exists>evs. consumer_act E s evs s'"
    by (induction rule: consumer_step.induct) (blast intro: consumer_act.intros)+
  assume "\<exists>evs. consumer_act E s evs s'"
  then obtain evs where "consumer_act E s evs s'" by blast
  then show "consumer_step E s s'"
    by (induction rule: consumer_act.induct) (blast intro: consumer_step.intros)+
qed

inductive consumer_run :: "'w Outside \<Rightarrow> 'w c_state \<Rightarrow> event list \<Rightarrow> 'w c_state \<Rightarrow> bool"
  for E :: "'w Outside" and s :: "'w c_state" where
  start: "consumer_run E s [] s"
| then_act: "consumer_run E s evs s1 \<Longrightarrow> consumer_act E s1 evs1 s2 \<Longrightarrow> consumer_run E s (evs @ evs1) s2"

lemma consumer_run_of: "(consumer_step E)\<^sup>*\<^sup>* s s' \<longleftrightarrow> (\<exists>evs. consumer_run E s evs s')"
proof
  show "(consumer_step E)\<^sup>*\<^sup>* s s' \<Longrightarrow> \<exists>evs. consumer_run E s evs s'"
    by (induction rule: rtranclp_induct) (auto simp: consumer_step_iff_act intro: consumer_run.intros)
  assume "\<exists>evs. consumer_run E s evs s'"
  then obtain evs where "consumer_run E s evs s'" by blast
  then show "(consumer_step E)\<^sup>*\<^sup>* s s'"
    by (induction rule: consumer_run.induct)
       (auto simp: consumer_step_iff_act intro: rtranclp.rtrancl_into_rtrancl)
qed

lemma consumer_run_one: "consumer_act E s evs s' \<Longrightarrow> consumer_run E s evs s'"
  using consumer_run.then_act [OF consumer_run.start] by fastforce

section \<open>Mailboxes\<close>

text \<open>The abstract view of the queues: mailboxes that are opened, filled at the end up to the bound
  and emptied from the front.\<close>

datatype mail = Opened | Put nat StreamMessage | Take nat StreamMessage

fun mail_step :: "mail \<Rightarrow> StreamMessage list list \<Rightarrow> StreamMessage list list option" where
  "mail_step Opened qs = Some (qs @ [[]])"
| "mail_step (Put q m) qs =
     (if q < length qs \<and> length (qs ! q) < RECEIVE_CHANNEL_BUFFER then Some (qs[q := qs ! q @ [m]])
      else None)"
| "mail_step (Take q m) qs =
     (if q < length qs \<and> qs ! q \<noteq> [] \<and> hd (qs ! q) = m then Some (qs[q := tl (qs ! q)]) else None)"

fun mail_run :: "mail list \<Rightarrow> StreamMessage list list \<Rightarrow> StreamMessage list list option" where
  "mail_run [] qs = Some qs"
| "mail_run (ev # evs) qs = (case mail_step ev qs of None \<Rightarrow> None | Some qs1 \<Rightarrow> mail_run evs qs1)"

fun put_in :: "nat \<Rightarrow> mail list \<Rightarrow> StreamMessage list" where
  "put_in q [] = []"
| "put_in q (Put q' m # evs) = (if q' = q then m # put_in q evs else put_in q evs)"
| "put_in q (_ # evs) = put_in q evs"

fun taken_from :: "nat \<Rightarrow> mail list \<Rightarrow> StreamMessage list" where
  "taken_from q [] = []"
| "taken_from q (Take q' m # evs) = (if q' = q then m # taken_from q evs else taken_from q evs)"
| "taken_from q (_ # evs) = taken_from q evs"

lemma mail_run_append:
  "mail_run (evs @ evs') qs = (case mail_run evs qs of None \<Rightarrow> None | Some qs1 \<Rightarrow> mail_run evs' qs1)"
  by (induction evs arbitrary: qs) (simp_all split: option.split)

text \<open>A mailbox is first in, first out, and keeps its bound.\<close>

lemma mail_run_fifo:
  "mail_run evs qs = Some qs' \<Longrightarrow> q < length qs \<Longrightarrow>
     q < length qs' \<and> taken_from q evs @ qs' ! q = qs ! q @ put_in q evs"
proof (induction evs arbitrary: qs)
  case (Cons ev evs)
  then obtain qs1 where step: "mail_step ev qs = Some qs1" and rest: "mail_run evs qs1 = Some qs'"
    by (auto split: option.splits)
  have q1: "q < length qs1" using step Cons.prems(2) by (cases ev) (auto split: if_splits)
  from Cons.IH [OF rest q1] have IH: "q < length qs'"
    "taken_from q evs @ qs' ! q = qs1 ! q @ put_in q evs" by simp_all
  show ?case
  proof (cases ev)
    case Opened
    with IH step Cons.prems(2) show ?thesis by (auto simp: nth_append)
  next
    case (Put q' m)
    with IH step show ?thesis by (cases "q' = q") (auto split: if_splits)
  next
    case (Take q' m)
    with step have m: "qs ! q' = m # tl (qs ! q')" and qs1: "qs1 = qs[q' := tl (qs ! q')]"
      by (auto split: if_splits)
    show ?thesis
    proof (cases "q' = q")
      case True
      have "qs1 ! q = tl (qs ! q)" using qs1 True Cons.prems(2) by simp
      with IH Take True have "taken_from q (ev # evs) @ qs' ! q = (m # tl (qs ! q)) @ put_in q (ev # evs)"
        by simp
      with IH(1) m True show ?thesis by metis
    next
      case False
      with IH Take qs1 show ?thesis by simp
    qed
  qed
qed simp

lemma mail_run_bounded:
  assumes "mail_run evs qs = Some qs'" and "\<forall>q \<in> set qs. length q \<le> RECEIVE_CHANNEL_BUFFER"
  shows "length qs \<le> length qs' \<and> (\<forall>q \<in> set qs'. length q \<le> RECEIVE_CHANNEL_BUFFER)"
  using assms
proof (induction evs arbitrary: qs)
  case (Cons ev evs)
  then obtain qs1 where step: "mail_step ev qs = Some qs1" and rest: "mail_run evs qs1 = Some qs'"
    by (auto split: option.splits)
  have "length qs \<le> length qs1 \<and> (\<forall>q \<in> set qs1. length q \<le> RECEIVE_CHANNEL_BUFFER)"
  proof (cases ev)
    case (Take q m)
    with step Cons.prems(2) have "length (qs ! q) \<le> RECEIVE_CHANNEL_BUFFER" "qs1 = qs[q := tl (qs ! q)]"
      by (auto split: if_splits)
    with Cons.prems(2) show ?thesis by (auto dest!: set_update_subset_insert [THEN subsetD])
  qed (use step Cons.prems(2) in \<open>auto split: if_splits dest!: set_update_subset_insert [THEN subsetD]\<close>)
  with Cons.IH [OF rest] show ?case by simp
qed simp


section \<open>The queues follow the events\<close>

fun mail_of :: "event \<Rightarrow> mail list" where
  "mail_of QueueOpened = [Opened]"
| "mail_of (Delivered i q m) = [Put q m]"
| "mail_of (Taken q m) = [Take q m]"
| "mail_of (Arrived i m) = []"
| "mail_of (Dropped i m) = []"

definition mails :: "event list \<Rightarrow> mail list" where
  "mails evs = concat (map mail_of evs)"

lemma mails_simps [simp]:
  "mails [] = []" "mails (ev # evs) = mail_of ev @ mails evs" "mails (evs @ evs') = mails evs @ mails evs'"
  by (simp_all add: mails_def)

text \<open>Every task has a queue, and no queue is over its bound.\<close>

definition queues_ok :: "Consumer \<Rightarrow> bool" where
  "queues_ok c \<longleftrightarrow> (\<forall>t \<in> set (c_tasks c). rt_queue t < length (c_queues c))
     \<and> (\<forall>q \<in> set (c_queues c). length q \<le> RECEIVE_CHANNEL_BUFFER)"

lemma queues_ok_next:
  assumes "queues_ok c" and "mail_run evs (c_queues c) = Some (c_queues c')"
    and "\<And>t. t \<in> set (c_tasks c') \<Longrightarrow>
      (\<exists>u \<in> set (c_tasks c). rt_queue t = rt_queue u) \<or> rt_queue t < length (c_queues c')"
  shows "queues_ok c'"
proof -
  from mail_run_bounded [OF assms(2)] assms(1)
  have "length (c_queues c) \<le> length (c_queues c')" "\<forall>q \<in> set (c_queues c'). length q \<le> RECEIVE_CHANNEL_BUFFER"
    by (simp_all add: queues_ok_def)
  moreover have "rt_queue t < length (c_queues c')" if "t \<in> set (c_tasks c')" for t
    using assms(3) [OF that] assms(1) calculation(1) by (fastforce simp: queues_ok_def)
  ultimately show ?thesis by (simp add: queues_ok_def)
qed

lemma turn_queues:
  assumes "stays tc_work m"
  shows "c_queues (fst (turn i m s)) = c_queues (fst s)"
proof -
  obtain r s1 where run: "m s = (r, s1)" by (meson surj_pair)
  from tc_work_tasks [OF staysD [OF assms run]] have "c_queues (fst s1) = c_queues (fst s)" by simp
  with run show ?thesis by (auto simp: turn_def set_task_def split: sum.split prod.split)
qed

lemma recv_step_mail:
  assumes "recv_step E i s s'" and "queues_ok (fst s)"
  shows "mail_run (mails (task_events E i s)) (c_queues (fst s)) = Some (c_queues (fst s'))"
  using assms(1)
proof (cases rule: recv_step.cases)
  case (open_turn t)
  then show ?thesis
    by (simp add: task_events_def Let_def turn_queues receive_turns_work)
next
  case (read_turn t stream)
  have "mails (task_events E i s) = []"
    using read_turn by (auto simp: task_events_def Let_def split: sum.split option.split)
  with read_turn show ?thesis by (simp add: turn_queues receive_turns_work)
next
  case (put_turn t stream m)
  obtain c w where s: "s = (c, w)" by (meson surj_pair)
  from put_turn assms(2) have "rt_queue t < length (c_queues c)" by (simp add: queues_ok_def s)
  with put_turn show ?thesis
    by (simp add: s task_events_def Let_def turn_def recv_put_def run_simps set_task_def)
next
  case (cancelled t)
  then show ?thesis
    by (auto simp: task_events_def Let_def set_task_def split: recv_pc.split)
qed

lemma quiet_mail:
  assumes "tc_work s s'" and "queues_ok (fst s)"
  shows "queues_ok (fst s') \<and> mail_run (mails []) (c_queues (fst s)) = Some (c_queues (fst s'))"
  using tc_work_tasks [OF assms(1)] assms(2) by (simp add: queues_ok_def)

lemma act_mail:
  assumes "consumer_act E s evs s'" and "queues_ok (fst s)"
  shows "queues_ok (fst s') \<and> mail_run (mails evs) (c_queues (fst s)) = Some (c_queues (fst s'))"
  using assms
proof (induction rule: consumer_act.induct)
  case (task i s s')
  note run = recv_step_mail [OF task]
  have "rt_queue (c_tasks (fst s') ! j) = rt_queue (c_tasks (fst s) ! j) \<and> j < length (c_tasks (fst s))"
    if "j < length (c_tasks (fst s'))" for j
    using recv_step_moves [OF task(1)] that
    by (auto simp: task_moves_def nth_list_update moved_fields)
  then have "\<exists>u \<in> set (c_tasks (fst s)). rt_queue t = rt_queue u" if "t \<in> set (c_tasks (fst s'))" for t
    using that by (metis in_set_conv_nth)
  with run show ?case using queues_ok_next [OF task(2) run] by blast
next
  case (take q c m ms w)
  let ?c = "c\<lparr>c_queues := (c_queues c)[q := ms]\<rparr>"
  have run: "mail_run (mails [Taken q m]) (c_queues c) = Some (c_queues ?c)" using take by simp
  with take show ?case by (auto intro!: queues_ok_next [OF _ run])
next
  case (subscribe order s)
  obtain c w where s: "s = (c, w)" by (meson surj_pair)
  obtain r c' w' where run: "c_subscribe E order (c, w) = (r, (c', w'))" by (metis surj_pair)
  from c_subscribe_shape [OF _ run] subscribe.hyps obtain st cons
    where "c' = c\<lparr>c_store := st, c_consumers := cons\<rparr>" by blast
  with subscribe.prems run s show ?case by (simp add: queues_ok_def)
next
  case (receive s)
  obtain c w where s: "s = (c, w)" by (meson surj_pair)
  let ?c = "fst (snd (c_receive (c, w)))"
  have run: "mail_run (mails [QueueOpened]) (c_queues c) = Some (c_queues ?c)" by (simp add: c_receive_run)
  have "queues_ok ?c"
    using receive.prems
    by (intro queues_ok_next [OF _ run]) (auto simp: s c_receive_run receive_task_def)
  with run s show ?case by simp
next
  case (ack s m)
  have "tc_work s (snd (c_ack E m s))" by (rule stays_snd) (rule stays_rules)
  then show ?case using ack by (rule quiet_mail)
next
  case (nack s m d re)
  have "tc_work s (snd (c_nack E m d re s))" by (rule stays_snd) (rule stays_rules)
  then show ?case using nack by (rule quiet_mail)
next
  case (close s)
  obtain c w where s: "s = (c, w)" by (meson surj_pair)
  show ?case
    by (rule c_close_work [of c w]) (use close.prems s in \<open>auto simp: queues_ok_def\<close>)
qed simp

lemma run_mail:
  assumes "consumer_run E s evs s'" and "queues_ok (fst s)"
  shows "queues_ok (fst s') \<and> mail_run (mails evs) (c_queues (fst s)) = Some (c_queues (fst s'))"
  using assms(1)
proof (induction rule: consumer_run.induct)
  case (then_act evs s1 evs1 s2)
  with act_mail [OF then_act.hyps(2)] show ?case by (simp add: mail_run_append)
qed (use assms(2) in simp)

section \<open>No message is lost or made up\<close>

text \<open>What arrived at a task, what it is done with (delivered or dropped), each in order, and the message
  it is waiting to put.\<close>

fun arrival :: "nat \<Rightarrow> event \<Rightarrow> StreamMessage list" where
  "arrival i (Arrived j m) = (if j = i then [m] else [])"
| "arrival i _ = []"

fun settlement :: "nat \<Rightarrow> event \<Rightarrow> StreamMessage list" where
  "settlement i (Delivered j q m) = (if j = i then [m] else [])"
| "settlement i (Dropped j m) = (if j = i then [m] else [])"
| "settlement i _ = []"

definition arrived :: "nat \<Rightarrow> event list \<Rightarrow> StreamMessage list" where
  "arrived i evs = concat (map (arrival i) evs)"

definition settled :: "nat \<Rightarrow> event list \<Rightarrow> StreamMessage list" where
  "settled i evs = concat (map (settlement i) evs)"

lemma arrived_simps [simp]:
  "arrived i [] = []" "arrived i (ev # evs) = arrival i ev @ arrived i evs"
  "arrived i (evs @ evs') = arrived i evs @ arrived i evs'"
  by (simp_all add: arrived_def)

lemma settled_simps [simp]:
  "settled i [] = []" "settled i (ev # evs) = settlement i ev @ settled i evs"
  "settled i (evs @ evs') = settled i evs @ settled i evs'"
  by (simp_all add: settled_def)

fun held :: "recv_pc \<Rightarrow> StreamMessage list" where
  "held (Putting stream m) = [m]"
| "held _ = []"

definition waiting_at :: "nat \<Rightarrow> 'w c_state \<Rightarrow> StreamMessage list" where
  "waiting_at i s =
     (if i < length (c_tasks (fst s)) then held (rt_pc (c_tasks (fst s) ! i)) else [])"

text \<open>The position a turn leaves, and that only a message read from the stream is put.\<close>

definition position :: "exn + recv_pc \<times> int \<Rightarrow> recv_pc" where
  "position r = (case r of Inl exc \<Rightarrow> Finished | Inr x \<Rightarrow> fst x)"

lemma turn_position:
  assumes "stays tc_work m" and "i < length (c_tasks (fst s))"
  shows "rt_pc (c_tasks (fst (turn i m s)) ! i) = position (fst (m s))"
    and "length (c_tasks (fst (turn i m s))) = length (c_tasks (fst s))"
proof -
  obtain r s1 where run: "m s = (r, s1)" by (meson surj_pair)
  from tc_work_tasks [OF staysD [OF assms(1) run]] have "c_tasks (fst s1) = c_tasks (fst s)" by simp
  with run assms(2) show "rt_pc (c_tasks (fst (turn i m s)) ! i) = position (fst (m s))"
    and "length (c_tasks (fst (turn i m s))) = length (c_tasks (fst s))"
    by (auto simp: turn_def set_task_def position_def split: sum.split prod.split)
qed

lemma resubscribe_holds_none: "held (position (fst (resubscribe E t n s))) = []"
  by (cases s) (simp add: resubscribe_def run_simps position_def split: prod.split sum.split)

lemma recv_open_holds_none: "held (position (fst (recv_open E t s))) = []"
proof -
  obtain r s1 where run: "on_tc (rt_consumer t) (tc_receive E) s = (r, s1)" by (meson surj_pair)
  obtain c1 w1 where s1: "s1 = (c1, w1)" by (meson surj_pair)
  show ?thesis
  proof (cases r)
    case (Inr stream)
    with run show ?thesis by (simp add: recv_open_def run_simps position_def)
  next
    case (Inl err)
    obtain r2 w2 where "backoff_delay E (rt_retry_manager t) (rt_attempts t) w1 = (r2, w2)"
      by (meson surj_pair)
    with Inl run s1 resubscribe_holds_none [of E t 0 s1] show ?thesis
      by (cases r2) (auto simp: recv_open_def run_simps position_def Let_def)
  qed
qed

lemma after_stream_holds_none: "held (position (fst (after_stream E t s))) = []"
proof -
  obtain c w where s: "s = (c, w)" by (meson surj_pair)
  show ?thesis
    using resubscribe_holds_none [of E t "rt_attempts t"]
    by (simp add: s after_stream_def run_simps position_def)
qed

lemma recv_read_holds:
  "held (position (fst (recv_read E t stream s))) =
     (case fst (next_message E stream (outside (snd s))) of
        Inr (Some m) \<Rightarrow> if shut_down t s \<or> stop_set t s then [] else [m]
      | _ \<Rightarrow> [])"
proof -
  obtain c w where s: "s = (c, w)" by (meson surj_pair)
  obtain r x where nxt: "next_message E stream (outside w) = (r, x)" by (meson surj_pair)
  have set: "is_set e (w\<lparr>outside := x\<rparr>) = is_set e w" for e by (simp add: is_set_def)
  note after = after_stream_holds_none [of E t "(c, w\<lparr>outside := x\<rparr>)"]
  show ?thesis
  proof (cases "\<exists>m. r = Inr (Some m)")
    case True
    with nxt after set show ?thesis
      by (auto simp: s recv_read_def run_simps shut_down_def stop_set_def position_def)
  next
    case False
    with nxt after show ?thesis
      by (auto simp: s recv_read_def run_simps split: sum.split option.split)
  qed
qed

lemma set_task_tasks [simp]:
  "c_tasks (fst (set_task i f s)) = (c_tasks (fst s))[i := f (c_tasks (fst s) ! i)]"
  by (simp add: set_task_def)

lemma recv_step_conserves:
  assumes "recv_step E i s s'"
  shows "waiting_at i s @ arrived i (task_events E i s) = settled i (task_events E i s) @ waiting_at i s'"
  using assms
proof (cases rule: recv_step.cases)
  case (open_turn t)
  with turn_position [OF receive_turns_work(2) open_turn(2)] show ?thesis
    by (simp add: waiting_at_def task_events_def Let_def recv_open_holds_none)
next
  case (read_turn t stream)
  with turn_position [OF receive_turns_work(4) read_turn(2)] show ?thesis
    by (auto simp: waiting_at_def task_events_def Let_def recv_read_holds split: sum.split option.split)
next
  case (put_turn t stream m)
  obtain c w where s: "s = (c, w)" by (meson surj_pair)
  with put_turn show ?thesis
    by (simp add: waiting_at_def task_events_def Let_def turn_def recv_put_def run_simps)
next
  case (cancelled t)
  then show ?thesis
    by (cases "rt_pc t") (auto simp: waiting_at_def task_events_def Let_def)
qed

lemma others_events:
  assumes "j \<noteq> i"
  shows "arrived j (task_events E i s) = []" and "settled j (task_events E i s) = []"
  using assms by (auto simp: task_events_def Let_def split: recv_pc.split sum.split option.split)

lemma others_wait: "recv_step E i s s' \<Longrightarrow> j \<noteq> i \<Longrightarrow> waiting_at j s' = waiting_at j s"
  using recv_step_moves [of E i s s'] by (auto simp: waiting_at_def task_moves_def)

lemma act_conserves:
  assumes "consumer_act E s evs s'"
  shows "waiting_at i s @ arrived i evs = settled i evs @ waiting_at i s'"
  using assms
proof (induction rule: consumer_act.induct)
  case (task j s s')
  then show ?case
    by (cases "j = i") (simp_all add: recv_step_conserves others_events others_wait)
next
  case (subscribe order s)
  obtain c w where s: "s = (c, w)" by (meson surj_pair)
  obtain r c' w' where run: "c_subscribe E order (c, w) = (r, (c', w'))" by (metis surj_pair)
  from c_subscribe_shape [OF _ run] subscribe obtain st cons
    where "c' = c\<lparr>c_store := st, c_consumers := cons\<rparr>" by blast
  with run s show ?case by (simp add: waiting_at_def)
next
  case (receive s)
  obtain c w where "s = (c, w)" by (meson surj_pair)
  then show ?case by (auto simp: waiting_at_def c_receive_run nth_append receive_task_def)
next
  case (ack s m)
  have "tc_work s (snd (c_ack E m s))" by (rule stays_snd) (rule stays_rules)
  then show ?case by (simp add: tc_work_tasks waiting_at_def)
next
  case (nack s m d re)
  have "tc_work s (snd (c_nack E m d re s))" by (rule stays_snd) (rule stays_rules)
  then show ?case by (simp add: tc_work_tasks waiting_at_def)
next
  case (close s)
  obtain c w where s: "s = (c, w)" by (meson surj_pair)
  show ?case by (rule c_close_work [of c w]) (simp add: s waiting_at_def)
qed (simp_all add: waiting_at_def)

lemma run_conserves:
  "consumer_run E s evs s' \<Longrightarrow> waiting_at i s @ arrived i evs = settled i evs @ waiting_at i s'"
proof (induction rule: consumer_run.induct)
  case (then_act evs s1 evs1 s2)
  have "waiting_at i s @ arrived i (evs @ evs1) = settled i evs @ (waiting_at i s1 @ arrived i evs1)"
    using then_act.IH by simp
  then show ?case by (simp add: act_conserves [OF then_act.hyps(2)])
qed simp

text \<open>A message is dropped only by a task that is cancelled, shut down or told to stop.\<close>

definition stopping :: "nat \<Rightarrow> 'w c_state \<Rightarrow> bool" where
  "stopping i s \<longleftrightarrow> i < length (c_tasks (fst s)) \<and> (let t = c_tasks (fst s) ! i in
     rt_cancelled t \<or> shut_down t s \<or> stop_set t s)"

lemma act_drops: "consumer_act E s evs s' \<Longrightarrow> Dropped i m \<in> set evs \<Longrightarrow> stopping i s"
proof (induction rule: consumer_act.induct)
  case (task j s s')
  from task(2) have "j = i" and "rt_cancelled (c_tasks (fst s) ! j) \<or> shut_down (c_tasks (fst s) ! j) s
      \<or> stop_set (c_tasks (fst s) ! j) s"
    by (auto simp: task_events_def Let_def split: recv_pc.splits sum.splits option.splits if_splits)
  moreover have "j < length (c_tasks (fst s))" using recv_step_moves [OF task(1)] by (simp add: task_moves_def)
  ultimately show ?case by (simp add: stopping_def Let_def)
qed simp_all

lemma run_drops:
  assumes "consumer_run E s evs s'" and "Dropped i m \<in> set evs"
  shows "\<exists>evs1 evs2 s1. evs = evs1 @ evs2 \<and> consumer_run E s evs1 s1 \<and> stopping i s1 \<and> Dropped i m \<in> set evs2"
  using assms
proof (induction rule: consumer_run.induct)
  case (then_act evs s1 evs1 s2)
  show ?case
  proof (cases "Dropped i m \<in> set evs1")
    case True
    with act_drops [OF then_act.hyps(2)] then_act.hyps(1) show ?thesis by blast
  next
    case False
    with then_act.prems obtain as bs s3 where "evs = as @ bs" "consumer_run E s as s3" "stopping i s3"
      "Dropped i m \<in> set bs"
      using then_act.IH by auto
    then show ?thesis by (intro exI [of _ as] exI [of _ "bs @ evs1"] exI [of _ s3]) simp
  qed
qed simp

end
