(* ===== verification/ConsumerWellformed.thy ===== *)
theory ConsumerWellformed
  imports ConsumerEvents
begin

text \<open>
  How the objects of a consumer belong together, over any run of its process. Every topic consumer
  carries the name, the subscription and the options of its consumer and has a stop event of its
  own, and its health check watches that very event for it; every receive task works for the
  shutdown event and the retry options of its consumer (\<open>c_wellformed\<close>). The relation
  \<open>tc_fitting\<close> is what every method of a topic consumer keeps of this, \<open>wires_kept\<close> what every
  method of the consumer keeps.
\<close>

section \<open>A topic consumer and its health check\<close>

text \<open>The current health check asks for this consumer and reports to its stop event.\<close>

definition watched :: "TopicConsumer \<Rightarrow> 'w World \<Rightarrow> bool" where
  "watched t w \<longleftrightarrow> (case tc_health_task t of
      None \<Rightarrow> True
    | Some j \<Rightarrow> j < length (tasks w) \<and> ht_client_type (tasks w ! j) = ClientConsumer
        \<and> ht_client_id (tasks w ! j) = tc_consumer_id t
        \<and> ht_stop_event (tasks w ! j) = tc_stop_event t)"

lemma frozen_fields:
  assumes "frozen h = frozen k"
  shows "ht_client_type h = ht_client_type k" "ht_client_id h = ht_client_id k"
    "ht_stop_event h = ht_stop_event k"
  using assms by (cases h; cases k; simp add: frozen_def)+

lemma watched_grows:
  assumes "watched t v" and g: "grows v w"
  shows "watched t w"
proof (cases "tc_health_task t")
  case (Some j)
  with assms(1) have j: "j < length (tasks v)" by (simp add: watched_def)
  note kept = frozen_fields [OF grows_tasks(2) [OF g j]]
  from assms(1) Some j grows_tasks(1) [OF g] kept show ?thesis by (simp add: watched_def)
qed (simp add: watched_def)

definition tc_fitting :: "'w tc_state \<Rightarrow> 'w tc_state \<Rightarrow> bool" where
  "tc_fitting s s' \<longleftrightarrow> fixed_tc s s' \<and> on_world grows s s'
     \<and> (watched (fst s) (snd s) \<longrightarrow> watched (fst s') (snd s'))"

interpretation tc_fitting: evolution tc_fitting
proof
  show "tc_fitting s s" for s :: "'w tc_state"
    by (simp add: tc_fitting_def ow_grows.refl same.refl)
  show "tc_fitting s t \<Longrightarrow> tc_fitting t u \<Longrightarrow> tc_fitting s u" for s t u :: "'w tc_state"
    unfolding tc_fitting_def by (blast intro: ow_grows.trans same.trans)
qed

lemma tc_fitting_on_snd [stays_rules]:
  fixes m :: "('w World, 'a) py"
  assumes "stays grows m"
  shows "stays tc_fitting (on_snd m)"
proof (rule staysI)
  fix s :: "'w tc_state"
  obtain t w where s: "s = (t, w)" by (meson surj_pair)
  obtain r w' where run: "m w = (r, w')" by (meson surj_pair)
  from staysD [OF assms run] have "grows w w'" .
  with run show "tc_fitting s (snd (on_snd m s))"
    by (auto simp: s tc_fitting_def on_snd_def same_def on_world_def intro: watched_grows)
qed

lemma tc_fitting_get_self [stays_rules]: "stays tc_fitting (get_self f)"
  unfolding get_self_def by (rule tc_fitting.gets)

lemma tc_fitting_set_self [stays_rules]:
  assumes "\<And>t. tc_identity (g t) = tc_identity t" and "\<And>t. tc_consumer_id (g t) = tc_consumer_id t"
    and "\<And>t. tc_health_task (g t) = tc_health_task t \<or> tc_health_task (g t) = None"
  shows "stays tc_fitting (set_self g)"
proof (rule staysI)
  fix s :: "'w tc_state"
  obtain t w where s: "s = (t, w)" by (meson surj_pair)
  have "tc_stop_event (g t) = tc_stop_event t" using assms(1) [of t] by (simp add: tc_identity_def)
  then have "watched t w \<Longrightarrow> watched (g t) w"
    using assms(2,3) [of t] by (auto simp: watched_def split: option.split)
  with assms(1) show "tc_fitting s (snd (set_self g s))"
    by (simp add: s run_simps tc_fitting_def same_def on_world_def grows.refl)
qed

text \<open>A reply starts the health check for the identifier that the reply brings.\<close>

lemma tc_subscribed_fitting [stays_rules]: "stays tc_fitting (tc_subscribed resp)"
proof (rule staysI)
  fix s :: "'w tc_state"
  obtain t w where s: "s = (t, w)" by (meson surj_pair)
  obtain conn cm' where conn: "on_conn_mgr (get_connection (tc_broker_addr t) (tc_connect_url t)) w
      = (Inr conn, w\<lparr>conn_mgr := cm'\<rparr>)"
    by (rule get_connection_run)
  have "fixed_tc s (snd (tc_subscribed resp s))" "on_world grows s (snd (tc_subscribed resp s))"
    by (rule stays_snd, rule stays_rules)+
  moreover have "watched (fst (snd (tc_subscribed resp s))) (snd (snd (tc_subscribed resp s)))"
    by (simp add: s tc_subscribed_def start_health_check_def conn run_simps watched_def del: on_conn_mgr_run)
  ultimately show "tc_fitting s (snd (tc_subscribed resp s))" by (simp add: tc_fitting_def)
qed

lemma tc_fitting_parts [stays_rules]:
  "stays tc_fitting tc_next_id" "stays tc_fitting tc_headers" "stays tc_fitting tc_connect"
  "stays tc_fitting (tc_lookup_new_broker E)" "stays tc_fitting (connected_stub what)"
  "stays tc_fitting (pause E rm n)"
  unfolding tc_next_id_def tc_headers_def tc_connect_def tc_lookup_new_broker_def connected_stub_def pause_def
  by (auto intro!: tc_fitting.steps stays_rules split: option.split)

lemma tc_fitting_methods [stays_rules]:
  "stays tc_fitting (tc_try_subscribe E)" "stays tc_fitting (tc_receive E)" "stays tc_fitting tc_stop"
  "stays tc_fitting (tc_send_ack E i m n)" "stays tc_fitting (tc_send_nack E i m n d re)"
  unfolding tc_try_subscribe_def tc_receive_def tc_stop_def tc_send_ack_def tc_send_nack_def
  by (auto intro!: tc_fitting.steps stays_rules split: option.split)

lemma tc_subscribe_fitting:
  "rm_ok (tc_retry_manager (fst s)) \<Longrightarrow> tc_fitting s (snd (tc_subscribe E s))"
  by (rule tc_retry.start_stays [OF tc_fitting.evolution_axioms]) (intro stays_rules)+

section \<open>The topic consumers of a consumer\<close>

text \<open>What a topic consumer takes from its consumer, and the objects it refers to.\<close>

definition tc_fits :: "Consumer \<Rightarrow> TopicConsumer \<Rightarrow> 'w World \<Rightarrow> bool" where
  "tc_fits c t w \<longleftrightarrow> tc_consumer_name t = c_consumer_name c \<and> tc_subscription t = c_subscription c
     \<and> tc_subscription_type t = int_SubType (c_subscription_type c)
     \<and> tc_retry_manager t = c_retry_of (c_options c)
     \<and> tc_stop_event t < length (events w) \<and> tc_key_filters t < length (lists w) \<and> watched t w"

definition wired :: "'w c_state \<Rightarrow> bool" where
  "wired s \<longleftrightarrow> (case s of (c, w) \<Rightarrow>
     c_shutdown c < length (events w) \<and> c_key_filters c < length (lists w)
     \<and> (\<forall>t \<in> set (c_store c). tc_fits c t w)
     \<and> distinct (c_shutdown c # map tc_stop_event (c_store c)))"

text \<open>What a consumer is made with.\<close>

definition c_identity ::
  "Consumer \<Rightarrow> string \<times> string \<times> string \<times> SubType \<times> ConsumerOptions \<times> nat \<times> nat" where
  "c_identity c = (c_topic_name c, c_consumer_name c, c_subscription c, c_subscription_type c,
     c_options c, c_key_filters c, c_shutdown c)"

lemma tc_fits_kept:
  assumes "tc_fits c t v" and "tc_fitting (t, v) (t', w)"
  shows "tc_fits c t' w" and "tc_stop_event t' = tc_stop_event t" and "tc_topic_name t' = tc_topic_name t"
  using assms by (auto simp: tc_fits_def tc_fitting_def same_def tc_identity_def on_world_def grows_def)

lemma tc_fits_grows: "tc_fits c t v \<Longrightarrow> grows v w \<Longrightarrow> tc_fits c t w"
  by (rule tc_fits_kept(1)) (auto simp: tc_fitting_def same_def on_world_def intro: watched_grows)

lemma tc_fits_cong: "c_identity c' = c_identity c \<Longrightarrow> tc_fits c' t w = tc_fits c t w"
  by (auto simp: c_identity_def tc_fits_def)

text \<open>What the methods of a consumer keep, if the topic consumers \<open>K\<close> that they work on exist.\<close>

definition wires_kept :: "nat set \<Rightarrow> 'w c_state \<Rightarrow> 'w c_state \<Rightarrow> bool" where
  "wires_kept K s s' \<longleftrightarrow> c_identity (fst s') = c_identity (fst s) \<and>
     (wired s \<and> (\<forall>k \<in> K. k < length (c_store (fst s))) \<longrightarrow>
       wired s' \<and> (\<exists>new. map tc_topic_name (c_store (fst s')) = map tc_topic_name (c_store (fst s)) @ new))"

lemma wires_kept_names:
  assumes "wires_kept K s s'" and "wired s" and "\<forall>k \<in> K. k < length (c_store (fst s))"
  shows "length (c_store (fst s)) \<le> length (c_store (fst s'))"
    and "k < length (c_store (fst s)) \<Longrightarrow>
      tc_topic_name (c_store (fst s') ! k) = tc_topic_name (c_store (fst s) ! k)"
proof -
  from assms obtain new where
    new: "map tc_topic_name (c_store (fst s')) = map tc_topic_name (c_store (fst s)) @ new"
    unfolding wires_kept_def by blast
  from arg_cong [OF this, of length] show len: "length (c_store (fst s)) \<le> length (c_store (fst s'))" by simp
  show "tc_topic_name (c_store (fst s') ! k) = tc_topic_name (c_store (fst s) ! k)"
    if k: "k < length (c_store (fst s))"
  proof -
    have "tc_topic_name (c_store (fst s') ! k) = (map tc_topic_name (c_store (fst s)) @ new) ! k"
      using k len new by (metis nth_map order_less_le_trans)
    with k show ?thesis by (simp add: nth_append)
  qed
qed

interpretation wires_kept: evolution "wires_kept K" for K
proof
  show "wires_kept K s s" for s :: "'w c_state" by (simp add: wires_kept_def)
  show "wires_kept K s t \<Longrightarrow> wires_kept K t u \<Longrightarrow> wires_kept K s u" for s t u :: "'w c_state"
    using wires_kept_names(1) [of K s t] by (fastforce simp: wires_kept_def)
qed

text \<open>Changes of the consumer that leave its identity and its topic consumers alone.\<close>

lemma wires_kept_self:
  assumes "\<And>c. c_identity (g c) = c_identity c" and "\<And>c. c_store (g c) = c_store c"
  shows "stays (wires_kept K) (set_self g)"
proof (rule staysI)
  fix s :: "'w c_state"
  obtain c w where s: "s = (c, w)" by (meson surj_pair)
  have "c_shutdown (g c) = c_shutdown c" "c_key_filters (g c) = c_key_filters c"
    using assms(1) [of c] by (simp_all add: c_identity_def)
  then have "wired (g c, w) = wired (c, w)"
    by (simp add: wired_def assms(2) tc_fits_cong [OF assms(1)])
  with assms show "wires_kept K s (snd (set_self g s))"
    by (simp add: s run_simps wires_kept_def)
qed

lemma wired_grows: "wired (c, v) \<Longrightarrow> grows v w \<Longrightarrow> wired (c, w)"
  by (auto simp: wired_def grows_def [of v w] intro: tc_fits_grows)

lemma wires_kept_on_snd [stays_rules]:
  fixes m :: "('w World, 'a) py"
  assumes "stays grows m"
  shows "stays (wires_kept K) (on_snd m)"
proof (rule staysI)
  fix s :: "'w c_state"
  obtain c w where s: "s = (c, w)" by (meson surj_pair)
  obtain r w' where run: "m w = (r, w')" by (meson surj_pair)
  from staysD [OF assms run] have "grows w w'" .
  with run show "wires_kept K s (snd (on_snd m s))"
    by (auto simp: s wires_kept_def run_simps intro: wired_grows)
qed

lemma wires_kept_get_self [stays_rules]: "stays (wires_kept K) (get_self f)"
  unfolding get_self_def by (rule wires_kept.gets)

lemma wires_kept_on_tc [stays_rules]:
  fixes m :: "('w tc_state, 'a) py"
  assumes m: "\<And>s. rm_ok (tc_retry_manager (fst s)) \<Longrightarrow> tc_fitting s (snd (m s))" and "k \<in> K"
  shows "stays (wires_kept K) (on_tc k m)"
proof (rule staysI)
  fix s :: "'w c_state"
  obtain c w where s: "s = (c, w)" by (meson surj_pair)
  obtain r t' w' where run: "m (c_store c ! k, w) = (r, (t', w'))" by (metis surj_pair)
  have end': "snd (on_tc k m s) = (c\<lparr>c_store := (c_store c)[k := t']\<rparr>, w')"
    by (simp add: s on_tc_def run)
  have id: "c_identity (c\<lparr>c_store := st\<rparr>) = c_identity c" for st by (simp add: c_identity_def)
  show "wires_kept K s (snd (on_tc k m s))"
    unfolding wires_kept_def end'
  proof (intro conjI impI)
    show "c_identity (fst (c\<lparr>c_store := (c_store c)[k := t']\<rparr>, w')) = c_identity (fst s)"
      by (simp add: s id)
    assume inv: "wired s \<and> (\<forall>k \<in> K. k < length (c_store (fst s)))"
    then have k: "k < length (c_store c)" and fits: "\<forall>t \<in> set (c_store c). tc_fits c t w"
      using assms(2) by (auto simp: s wired_def)
    then have "tc_fits c (c_store c ! k) w" by simp
    moreover from this have step: "tc_fitting (c_store c ! k, w) (t', w')"
      using m [of "(c_store c ! k, w)"] run by (simp add: tc_fits_def)
    ultimately have t': "tc_fits c t' w'" "tc_stop_event t' = tc_stop_event (c_store c ! k)"
      "tc_topic_name t' = tc_topic_name (c_store c ! k)" by (blast dest: tc_fits_kept)+
    have g: "grows w w'" using step by (simp add: tc_fitting_def on_world_def)
    have stops: "map tc_stop_event ((c_store c)[k := t']) = map tc_stop_event (c_store c)"
      using t'(2) k by (simp add: map_update list_update_same_conv)
    from arg_cong [OF this, of set]
    have "tc_stop_event ` set ((c_store c)[k := t']) = tc_stop_event ` set (c_store c)" by simp
    moreover have "\<forall>t \<in> set ((c_store c)[k := t']). tc_fits c t w'"
      using fits t'(1) tc_fits_grows [OF _ g] by (auto dest!: set_update_subset_insert [THEN subsetD])
    ultimately show "wired (c\<lparr>c_store := (c_store c)[k := t']\<rparr>, w')"
      using inv g stops by (simp add: s wired_def grows_def tc_fits_cong [OF id])
    have "map tc_topic_name ((c_store c)[k := t']) = map tc_topic_name (c_store c)"
      using t'(3) k by (simp add: map_update list_update_same_conv)
    then show "\<exists>new. map tc_topic_name (c_store (fst (c\<lparr>c_store := (c_store c)[k := t']\<rparr>, w')))
        = map tc_topic_name (c_store (fst s)) @ new"
      by (simp add: s)
  qed
qed

text \<open>A new topic consumer of the consumer.\<close>

lemma new_TopicConsumer_run:
  obtains t w1 where "new_TopicConsumer part (c_consumer_name c) (c_subscription c)
      (int_SubType (c_subscription_type c)) (Some (c_key_filters c)) (co_max_retries (c_options c))
      (co_base_backoff_ms (c_options c)) (co_max_backoff_ms (c_options c)) w = (Inr t, w1)"
    and "grows w w1" and "tc_stop_event t = length (events w)"
    and "c_key_filters c < length (lists w) \<Longrightarrow> tc_fits c t w1"
proof -
  obtain fl w1 where fl: "list_or_new (Some (c_key_filters c)) w = (Inr fl, w1)" "grows w w1"
    by (rule list_or_new_run)
  have ev: "events w1 = events w" and filters: "c_key_filters c < length (lists w) \<Longrightarrow> fl < length (lists w1)"
    using fl(1) by (auto simp: list_or_new_def run_simps split: if_splits)
  have "grows w1 (w1\<lparr>events := events w1 @ [False]\<rparr>)"
    using staysD [OF event_keeps(1) new_event_run [of w1]] .
  then have g: "grows w (w1\<lparr>events := events w1 @ [False]\<rparr>)" by (rule grows.trans [OF fl(2)])
  obtain t where t: "new_TopicConsumer part (c_consumer_name c) (c_subscription c)
      (int_SubType (c_subscription_type c)) (Some (c_key_filters c)) (co_max_retries (c_options c))
      (co_base_backoff_ms (c_options c)) (co_max_backoff_ms (c_options c)) w
        = (Inr t, w1\<lparr>events := events w1 @ [False]\<rparr>)"
    and "tc_identity t = (part, c_consumer_name c, c_subscription c,
       int_SubType (c_subscription_type c), fl, c_retry_of (c_options c), length (events w1))"
    and "tc_health_task t = None"
    by (simp add: new_TopicConsumer_def fl(1) run_simps tc_identity_def c_retry_of_def)
  then have fields: "tc_consumer_name t = c_consumer_name c" "tc_subscription t = c_subscription c"
    "tc_subscription_type t = int_SubType (c_subscription_type c)" "tc_key_filters t = fl"
    "tc_retry_manager t = c_retry_of (c_options c)" "tc_stop_event t = length (events w1)"
    "tc_health_task t = None"
    by (simp_all add: tc_identity_def)
  show ?thesis
  proof (rule that [OF t g])
    show "tc_stop_event t = length (events w)" by (simp add: fields ev)
    show "tc_fits c t (w1\<lparr>events := events w1 @ [False]\<rparr>)" if "c_key_filters c < length (lists w)"
      using filters [OF that] by (simp add: tc_fits_def watched_def fields)
  qed
qed

lemma subscribe_one_wired [stays_rules]:
  fixes E :: "'w Outside"
  shows "stays (wires_kept {}) (subscribe_one E part)"
proof (rule staysI)
  fix s :: "'w c_state"
  obtain c w where s: "s = (c, w)" by (meson surj_pair)
  show "wires_kept {} s (snd (subscribe_one E part s))"
  proof (rule new_TopicConsumer_run [of part c w])
    fix t w1
    assume new: "new_TopicConsumer part (c_consumer_name c) (c_subscription c)
      (int_SubType (c_subscription_type c)) (Some (c_key_filters c)) (co_max_retries (c_options c))
      (co_base_backoff_ms (c_options c)) (co_max_backoff_ms (c_options c)) w = (Inr t, w1)"
      and g: "grows w w1" and fresh: "tc_stop_event t = length (events w)"
      and fits: "c_key_filters c < length (lists w) \<Longrightarrow> tc_fits c t w1"
    let ?c = "c\<lparr>c_store := c_store c @ [t]\<rparr>"
    let ?sub = "on_tc (length (c_store c)) (tc_subscribe E)"
    have id: "c_identity ?c = c_identity c" by (simp add: c_identity_def)
    have "snd (subscribe_one E part (c, w)) = snd (?sub (?c, w1))"
      by (simp add: subscribe_one_def new store_tc_def run_simps split: prod.split sum.split)
    moreover have "wires_kept {length (c_store c)} (?c, w1) (snd (?sub (?c, w1)))"
      by (rule stays_snd, rule wires_kept_on_tc [OF tc_subscribe_fitting]) simp_all
    moreover have "wired (c, w) \<Longrightarrow> wired (?c, w1)"
    proof -
      assume inv: "wired (c, w)"
      then have old: "wired (c, w1)" by (rule wired_grows [OF _ g])
      have old_stops: "tc_stop_event u < length (events w)" if "u \<in> set (c_store c)" for u
        using inv that by (simp add: wired_def tc_fits_def)
      then have "tc_stop_event t \<notin> tc_stop_event ` set (c_store c)" using fresh by fastforce
      moreover have "c_shutdown c < tc_stop_event t" using inv fresh by (simp add: wired_def)
      moreover have "tc_fits c t w1" using inv fits by (simp add: wired_def)
      ultimately show "wired (?c, w1)"
        using old by (simp add: wired_def tc_fits_cong [OF id])
    qed
    ultimately show ?thesis
      using id by (fastforce simp: s wires_kept_def)
  qed
qed

section \<open>The steps of the process\<close>

lemma wired_cong:
  "c_identity c' = c_identity c \<Longrightarrow> c_store c' = c_store c \<Longrightarrow> wired (c', w) = wired (c, w)"
proof -
  assume id: "c_identity c' = c_identity c" and st: "c_store c' = c_store c"
  then have "c_shutdown c' = c_shutdown c" "c_key_filters c' = c_key_filters c"
    by (simp_all add: c_identity_def)
  with st show ?thesis by (simp add: wired_def tc_fits_cong [OF id])
qed

lemma wires_kept_then:
  assumes "wires_kept K s s1" and "c_identity (fst s2) = c_identity (fst s1)"
    and "c_store (fst s2) = c_store (fst s1)" and "snd s2 = snd s1"
  shows "wires_kept K s s2"
proof -
  have "wired s2 = wired s1"
    using wired_cong [OF assms(2,3), of "snd s1"] assms(4) by (metis surjective_pairing)
  with assms show ?thesis by (simp add: wires_kept_def)
qed

lemma receive_turns_wired [stays_rules]:
  "stays (wires_kept {rt_consumer t}) (resubscribe E t n)"
  "stays (wires_kept {rt_consumer t}) (recv_open E t)"
  "stays (wires_kept {rt_consumer t}) (after_stream E t)"
  "stays (wires_kept {rt_consumer t}) (recv_read E t stream)"
proof -
  have sub: "stays (wires_kept {rt_consumer t}) (on_tc (rt_consumer t) (tc_subscribe E))"
    by (rule wires_kept_on_tc [OF tc_subscribe_fitting]) simp_all
  have recv: "stays (wires_kept {rt_consumer t}) (on_tc (rt_consumer t) (tc_receive E))"
    by (rule wires_kept_on_tc) (rule stays_snd, rule stays_rules, simp)
  show res: "stays (wires_kept {rt_consumer t}) (resubscribe E t n)" for n
    unfolding resubscribe_def by (intro wires_kept.steps sub)
  show after: "stays (wires_kept {rt_consumer t}) (after_stream E t)"
    unfolding after_stream_def
    by (intro wires_kept.steps wires_kept_get_self wires_kept_on_snd event_keeps res)
  show "stays (wires_kept {rt_consumer t}) (recv_open E t)"
    unfolding recv_open_def Let_def
    by (intro wires_kept.steps wires_kept_on_snd recv res) (rule stays_rules)+
  show "stays (wires_kept {rt_consumer t}) (recv_read E t stream)"
    unfolding recv_read_def
    by (intro wires_kept.steps wires_kept_on_snd) (auto intro!: wires_kept.steps after stays_rules split: option.split)
qed

lemma turn_wired:
  assumes "stays (wires_kept K) m"
  shows "wires_kept K s (turn i m s)"
proof -
  obtain r s1 where run: "m s = (r, s1)" by (meson surj_pair)
  show ?thesis
    by (rule wires_kept_then [OF staysD [OF assms run]])
       (auto simp: turn_def set_task_def run c_identity_def split: sum.split prod.split)
qed

lemma recv_step_wired:
  assumes "recv_step E i s s'"
  shows "wires_kept {rt_consumer (c_tasks (fst s) ! i)} s s'"
  using assms
proof (cases rule: recv_step.cases)
  case (open_turn t)
  show ?thesis unfolding open_turn(1,3) by (rule turn_wired) (rule stays_rules)
next
  case (read_turn t stream)
  show ?thesis unfolding read_turn(1,3) by (rule turn_wired) (rule stays_rules)
next
  case (put_turn t stream m)
  have "stays (wires_kept {rt_consumer t}) (recv_put t stream m)"
    unfolding recv_put_def by (intro wires_kept.steps wires_kept_self) (simp_all add: c_identity_def)
  then show ?thesis unfolding put_turn(1,3) by (rule turn_wired [OF _])
next
  case (cancelled t)
  then show ?thesis
    by (intro wires_kept_then [OF wires_kept.refl]) (simp_all add: set_task_def c_identity_def)
qed

lemma ack_wired:
  fixes s :: "'w c_state"
  assumes "\<forall>(part, k) \<in> set (c_consumers (fst s)). k \<in> K"
  shows "wires_kept K s (snd (c_ack E m s))" and "wires_kept K s (snd (c_nack E m d re s))"
proof -
  obtain c w where s: "s = (c, w)" by (meson surj_pair)
  let ?topic = "mi_topic_name (sm_msg_id m)"
  have self: "wires_kept K s (snd (bnd (get_self id) f s))" if "wires_kept K s (snd (f c s))"
    for f :: "Consumer \<Rightarrow> ('w c_state, 'b) py"
    using that by (simp add: s run_simps)
  have run: "wires_kept K s (snd (bnd (on_tc k f) (\<lambda>_. ret ()) s))"
    if "map_of (c_consumers c) ?topic = Some k" "stays tc_fitting f" for k and f :: "('w tc_state, 'b) py"
  proof (rule stays_snd, intro wires_kept.steps wires_kept_on_tc)
    show "k \<in> K" using that(1) assms by (auto simp: s dest: map_of_SomeD)
    show "tc_fitting s (snd (f s))" for s using that(2) by (rule stays_snd)
  qed
  have none: "wires_kept K s (snd (ret () s))" by (simp add: ret_run wires_kept.refl)
  show "wires_kept K s (snd (c_ack E m s))" unfolding c_ack_def
    by (rule self) (cases "map_of (c_consumers c) ?topic", simp_all only: option.case none run tc_fitting_methods)
  show "wires_kept K s (snd (c_nack E m d re s))" unfolding c_nack_def
    by (rule self) (cases "map_of (c_consumers c) ?topic", simp_all only: option.case none run tc_fitting_methods)
qed

lemma c_subscribe_wired:
  assumes "\<forall>n. schedule (order n) n"
  shows "stays (wires_kept {}) (c_subscribe E order)"
proof -
  have gathered: "stays (wires_kept {}) (gather (order (length ps)) (map (subscribe_one E) ps))" for ps
    using assms by (intro gather_stays wires_kept.evolution_axioms) (auto simp: schedule_def intro: stays_rules)
  have dict: "stays (wires_kept {}) (set_self (\<lambda>c. c\<lparr>c_consumers := f\<rparr>))" for f
    by (rule wires_kept_self) (simp_all add: c_identity_def)
  have body: "stays (wires_kept {}) (bnd (on_snd (topic_partitions E u topic)) (\<lambda>partitions.
     bnd (gather (order (length partitions)) (map (subscribe_one E) partitions)) (\<lambda>results.
     seq (set_self (\<lambda>c. c\<lparr>c_consumers := dict_of results\<rparr>)) (
     bnd (get_self c_consumers) (\<lambda>consumers.
     if consumers = [] then throw (DanubeError ''no partitions found'') else ret ())))))" for u topic
    by (rule wires_kept.bnd, rule wires_kept_on_snd, rule topic_partitions_keeps, rule wires_kept.bnd,
        rule gathered, rule wires_kept.seq, rule dict, rule wires_kept.bnd, rule wires_kept_get_self)
       (simp add: wires_kept.throw wires_kept.ret)
  show ?thesis
    unfolding c_subscribe_def
    by (rule wires_kept.bnd [OF wires_kept.gets]) (simp add: body split: prod.split)
qed

lemma c_receive_wired: "stays (wires_kept K) c_receive"
  unfolding c_receive_def
  by (intro wires_kept.steps wires_kept.for_each wires_kept_get_self wires_kept_self)
     (simp_all add: c_identity_def)

lemma c_close_wired:
  fixes s :: "'a c_state"
  assumes "\<forall>(part, k) \<in> set (c_consumers (fst s)). k \<in> K"
  shows "wires_kept K s (snd (c_close s))"
proof -
  obtain c w where s: "s = (c, w)" by (meson surj_pair)
  let ?stop = "for_each (\<lambda>tc. on_tc tc tc_stop) (map snd (c_consumers c)) :: ('a c_state, unit list) py"
  let ?rest = "bnd ?stop (\<lambda>_.
     seq (set_self (\<lambda>c. c\<lparr>c_tasks := map (\<lambda>t. t\<lparr>rt_cancelled := True\<rparr>) (c_tasks c)\<rparr>))
     (on_snd (asleep GRACEFUL_CLOSE_DELAY_SECS)))"
  have stop: "stays (wires_kept K) ?stop"
  proof (rule wires_kept.for_each, rule wires_kept_on_tc)
    show "tc_fitting s (snd (tc_stop s))" for s :: "'a tc_state" by (rule stays_snd) (rule stays_rules)
  qed (use assms in \<open>auto simp: s\<close>)
  have cancel: "stays (wires_kept K) (set_self (\<lambda>c. c\<lparr>c_tasks := map (\<lambda>t. t\<lparr>rt_cancelled := True\<rparr>) (c_tasks c)\<rparr>))"
    by (rule wires_kept_self) (simp_all add: c_identity_def)
  have rest: "stays (wires_kept K) (seq (on_snd (set_event (c_shutdown c))) ?rest)"
    by (rule wires_kept.seq, rule wires_kept_on_snd, rule event_keeps, rule wires_kept.bnd, rule stop,
        rule wires_kept.seq, rule cancel, rule wires_kept_on_snd, rule asleep_keeps)
  have "c_close s = seq (on_snd (set_event (c_shutdown c))) ?rest s"
    by (simp add: c_close_def s run_simps)
  with stays_snd [OF rest, of s] show ?thesis by simp
qed

section \<open>A well-formed consumer\<close>

definition c_wellformed :: "'w c_state \<Rightarrow> bool" where
  "c_wellformed s \<longleftrightarrow> wired s
     \<and> (\<forall>(part, k) \<in> set (c_consumers (fst s)).
          k < length (c_store (fst s)) \<and> tc_topic_name (c_store (fst s) ! k) = part)
     \<and> (\<forall>t \<in> set (c_tasks (fst s)). rt_consumer t < length (c_store (fst s))
          \<and> rt_shutdown t = c_shutdown (fst s) \<and> rt_retry_manager t = c_retry_of (c_options (fst s)))
     \<and> queues_ok (fst s)"

lemma new_Consumer_wellformed:
  assumes "new_Consumer topic name subscription ty opts filters w0 = (Inr c, w)"
  shows "c_wellformed (c, w)"
  using assms
  by (auto simp: new_Consumer_def list_or_new_def run_simps c_wellformed_def wired_def queues_ok_def
      list_at_def split: option.splits if_splits)

text \<open>A step keeps it, if its new tasks and a new dictionary are in order.\<close>

lemma wellformed_next:
  assumes inv: "c_wellformed s" and kept: "wires_kept K s s'" and K: "\<forall>k \<in> K. k < length (c_store (fst s))"
    and tasks: "\<And>t. t \<in> set (c_tasks (fst s')) \<Longrightarrow> (\<exists>u \<in> set (c_tasks (fst s)). carries u t)
      \<or> rt_consumer t \<in> snd ` set (c_consumers (fst s)) \<and> rt_shutdown t = c_shutdown (fst s)
        \<and> rt_retry_manager t = c_retry_of (c_options (fst s))"
    and cons: "c_consumers (fst s') = c_consumers (fst s) \<or> (\<forall>(part, k) \<in> set (c_consumers (fst s')).
      k < length (c_store (fst s')) \<and> tc_topic_name (c_store (fst s') ! k) = part)"
    and queues: "queues_ok (fst s')"
  shows "c_wellformed s'"
proof -
  have wired: "wired s" using inv by (simp add: c_wellformed_def)
  note names = wires_kept_names [OF kept wired K]
  have wired': "wired s'" using kept wired K by (simp add: wires_kept_def)
  have id: "c_shutdown (fst s') = c_shutdown (fst s)" "c_options (fst s') = c_options (fst s)"
    using kept by (simp_all add: wires_kept_def c_identity_def)
  have held: "k < length (c_store (fst s)) \<and> tc_topic_name (c_store (fst s) ! k) = part"
    if "(part, k) \<in> set (c_consumers (fst s))" for part k
    using inv that by (auto simp: c_wellformed_def)
  have "k < length (c_store (fst s')) \<and> tc_topic_name (c_store (fst s') ! k) = part"
    if "(part, k) \<in> set (c_consumers (fst s'))" for part k
    using cons that held [of part k] names(1) names(2) [of k] by auto
  moreover have "rt_consumer t < length (c_store (fst s')) \<and> rt_shutdown t = c_shutdown (fst s')
      \<and> rt_retry_manager t = c_retry_of (c_options (fst s'))" if "t \<in> set (c_tasks (fst s'))" for t
    using tasks [OF that]
  proof
    assume "\<exists>u \<in> set (c_tasks (fst s)). carries u t"
    with inv names(1) id show ?thesis by (fastforce simp: c_wellformed_def carries_def)
  next
    assume "rt_consumer t \<in> snd ` set (c_consumers (fst s)) \<and> rt_shutdown t = c_shutdown (fst s)
      \<and> rt_retry_manager t = c_retry_of (c_options (fst s))"
    with held names(1) id show ?thesis by fastforce
  qed
  ultimately show ?thesis using wired' queues by (auto simp: c_wellformed_def)
qed

lemma tasks_carried:
  assumes "tasks_kept s s'" and "length (c_tasks (fst s')) = length (c_tasks (fst s))"
    and "t \<in> set (c_tasks (fst s'))"
  shows "\<exists>u \<in> set (c_tasks (fst s)). carries u t"
  using assms by (metis in_set_conv_nth tasks_kept_def)

lemma consumer_step_wellformed:
  assumes "consumer_step E s s'" and "c_wellformed s"
  shows "c_wellformed s' \<and> c_identity (fst s') = c_identity (fst s)"
proof -
  have inv: "wired s" "queues_ok (fst s)" using assms(2) by (simp_all add: c_wellformed_def)
  have registered: "\<forall>k \<in> snd ` set (c_consumers (fst s)). k < length (c_store (fst s))"
    and all: "\<forall>(part, k) \<in> set (c_consumers (fst s)). k \<in> snd ` set (c_consumers (fst s))"
    using assms(2) by (auto simp: c_wellformed_def intro: rev_image_eqI)
  from assms(1) have queues: "queues_ok (fst s')"
    unfolding consumer_step_iff_act using act_mail inv(2) by blast
  have kept: "tasks_kept s s'" by (rule consumer_step_tasks [OF assms(1)])
  note next_one = wellformed_next [OF assms(2) _ _ _ _ queues]
  have ended: "c_wellformed s' \<and> c_identity (fst s') = c_identity (fst s)"
    if "wires_kept K s s'" "\<forall>k \<in> K. k < length (c_store (fst s))"
      "length (c_tasks (fst s')) = length (c_tasks (fst s))" "c_consumers (fst s') = c_consumers (fst s)" for K
    using next_one [OF that(1,2) _ disjI1 [OF that(4)]] tasks_carried [OF kept that(3)] that(1)
    by (auto simp: wires_kept_def)
  from assms(1) show ?thesis
  proof (cases rule: consumer_step.cases)
    case (task i)
    from recv_step_moves [OF task] have i: "c_tasks (fst s) ! i \<in> set (c_tasks (fst s))"
      and "length (c_tasks (fst s')) = length (c_tasks (fst s))" "c_consumers (fst s') = c_consumers (fst s)"
      by (auto simp: task_moves_def)
    moreover have "rt_consumer (c_tasks (fst s) ! i) < length (c_store (fst s))"
      using i assms(2) by (auto simp: c_wellformed_def)
    ultimately show ?thesis by (intro ended [OF recv_step_wired [OF task]]) simp_all
  next
    case (take q c m ms w)
    then have "wires_kept {} s s'"
      by (intro wires_kept_then [OF wires_kept.refl]) (simp_all add: c_identity_def)
    then show ?thesis by (rule ended) (simp_all add: take)
  next
    case (subscribe order)
    obtain c w where s: "s = (c, w)" by (meson surj_pair)
    obtain r c' w' where run: "c_subscribe E order (c, w) = (r, (c', w'))" by (metis surj_pair)
    from c_subscribe_shape [OF _ run] subscribe obtain st cons
      where c': "c' = c\<lparr>c_store := st, c_consumers := cons\<rparr>"
        "cons = c_consumers c \<or> (\<forall>(part, k) \<in> set cons. k < length st \<and> tc_for c part (st ! k) w')" by blast
    have s': "s' = (c', w')" using subscribe run s by simp
    have "wires_kept {} s s'"
      unfolding subscribe(1) by (rule stays_snd) (rule c_subscribe_wired [OF subscribe(2)])
    moreover from this have "c_wellformed s'"
    proof (rule next_one)
      show "(\<exists>u \<in> set (c_tasks (fst s)). carries u t)
          \<or> rt_consumer t \<in> snd ` set (c_consumers (fst s)) \<and> rt_shutdown t = c_shutdown (fst s)
            \<and> rt_retry_manager t = c_retry_of (c_options (fst s))" if "t \<in> set (c_tasks (fst s'))" for t
        using tasks_carried [OF kept _ that] by (simp add: s s' c'(1))
      show "c_consumers (fst s') = c_consumers (fst s) \<or> (\<forall>(part, k) \<in> set (c_consumers (fst s')).
          k < length (c_store (fst s')) \<and> tc_topic_name (c_store (fst s') ! k) = part)"
        using c'(2) by (auto simp: s s' c'(1) tc_for_def)
    qed simp
    ultimately show ?thesis by (simp add: wires_kept_def)
  next
    case receive
    obtain c w where s: "s = (c, w)" by (meson surj_pair)
    have "wires_kept {} s s'" unfolding receive by (rule stays_snd) (rule c_receive_wired)
    moreover from this have "c_wellformed s'"
    proof (rule next_one)
      show "(\<exists>u \<in> set (c_tasks (fst s)). carries u t)
          \<or> rt_consumer t \<in> snd ` set (c_consumers (fst s)) \<and> rt_shutdown t = c_shutdown (fst s)
            \<and> rt_retry_manager t = c_retry_of (c_options (fst s))" if "t \<in> set (c_tasks (fst s'))" for t
        using that
        by (auto simp: receive s c_receive_run receive_task_def intro: rev_image_eqI bexI [of "\<lambda>u. carries u t" t])
    qed (simp_all add: receive s c_receive_run)
    ultimately show ?thesis by (simp add: wires_kept_def)
  next
    case (ack m)
    have "tc_work s s'" unfolding ack by (rule stays_snd) (rule stays_rules)
    from tc_work_tasks [OF this] ack_wired(1) [OF all] registered show ?thesis
      by (intro ended [of "snd ` set (c_consumers (fst s))"]) (simp_all add: ack)
  next
    case (nack m d re)
    have "tc_work s s'" unfolding nack by (rule stays_snd) (rule stays_rules)
    from tc_work_tasks [OF this] ack_wired(2) [OF all] registered show ?thesis
      by (intro ended [of "snd ` set (c_consumers (fst s))"]) (simp_all add: nack)
  next
    case close
    obtain c w where s: "s = (c, w)" by (meson surj_pair)
    obtain st w' where "c_close (c, w) = (Inr (), (c\<lparr>c_store := st, c_tasks := cancelled_all (c_tasks c)\<rparr>, w'))"
      by (rule c_close_work)
    with c_close_wired [OF all] registered show ?thesis
      by (intro ended [of "snd ` set (c_consumers (fst s))"]) (simp_all add: close s)
  next
    case (world w w' c)
    then have "wired s'" using inv wired_grows by simp
    then have "wires_kept {} s s'" by (simp add: world wires_kept_def)
    then show ?thesis by (rule ended) (simp_all add: world)
  qed
qed

lemma consumer_run_wellformed:
  assumes "(consumer_step E)\<^sup>*\<^sup>* s s'" and "c_wellformed s"
  shows "c_wellformed s' \<and> c_identity (fst s') = c_identity (fst s)"
  using assms(1)
proof (induction rule: rtranclp_induct)
  case (step s1 s2)
  with consumer_step_wellformed [OF step.hyps(2)] show ?case by simp
qed (use assms(2) in simp)

end
