(* ===== verification/ConsumerProperties.thy ===== *)
theory ConsumerProperties
  imports ConsumerWellformed Scenario
begin

text \<open>
  What a consumer promises to its application: its objects belong together over any run, its
  queues are mailboxes that keep the order of the messages, no message is lost on the way from a
  stream to its queue, and the behaviour of the receive tasks when the broker closes the topic,
  when it drops a stream, and after \<open>close\<close>.
\<close>

section \<open>States and queues\<close>

text \<open>C18: The objects of a consumer belong together, whatever the process does. In every state that a
  new consumer can reach it still has the topic, name, subscription, type and options it was made
  with, and every topic consumer has them too; the stop events of the topic consumers are different from
  each other and from the shutdown event, so that a CLOSE for one partition stops no other one; a
  current health check asks for its own topic consumer and reports to that one's stop event; the
  dictionary leads from a partition to the topic consumer made for it; and every receive task works on
  a topic consumer of the store, for an existing queue, with the shutdown event and the retry options of
  its consumer.\<close>

theorem consumer_stays_wellformed:
  assumes "new_Consumer topic name subscription ty opts filters w0 = (Inr c, w)"
    and "(consumer_step E)\<^sup>*\<^sup>* (c, w) s"
  shows "c_wellformed s \<and> c_topic_name (fst s) = topic \<and> c_consumer_name (fst s) = name
    \<and> c_subscription (fst s) = subscription \<and> c_subscription_type (fst s) = ty \<and> c_options (fst s) = opts"
proof -
  have "c_topic_name c = topic" "c_consumer_name c = name" "c_subscription c = subscription"
    "c_subscription_type c = ty" "c_options c = opts"
    using assms(1) by (auto simp: new_Consumer_def run_simps split: sum.splits prod.splits)
  with consumer_run_wellformed [OF assms(2) new_Consumer_wellformed [OF assms(1)]] show ?thesis
    by (simp add: c_identity_def)
qed

definition demo_consumer :: Consumer where
  "demo_consumer = \<lparr>c_topic_name = ''/default/t'', c_consumer_name = ''c'', c_subscription = ''s'',
     c_subscription_type = SHARED, c_options = default_ConsumerOptions, c_key_filters = 0,
     c_consumers = [], c_shutdown = 0, c_tasks = [], c_store = [], c_queues = []\<rparr>"

lemma demo_consumer_new:
  "new_Consumer ''/default/t'' ''c'' ''s'' SHARED default_ConsumerOptions None (demo_world\<lparr>lists := []\<rparr>)
     = (Inr demo_consumer, demo_world\<lparr>lists := [[]], events := [False]\<rparr>)"
  by (simp add: new_Consumer_def list_or_new_def run_simps demo_consumer_def)

text \<open>A broker with two partitions that accepts every subscription, and a consumer of both.\<close>

definition demo_subscribing :: "nat Outside" where
  "demo_subscribing = refusing\<lparr>answer_TopicPartitions := always (Inr
       \<lparr>tps_request_id = 1, tps_partitions = [''/default/t-part-0'', ''/default/t-part-1'']\<rparr>),
     answer_Subscribe := always (Inr \<lparr>crs_request_id = 1, crs_consumer_id = 9, crs_consumer_name = ''c''\<rparr>)\<rparr>"

lemma demo_subscribed:
  assumes "static_token w" and "uri w = demo_uri"
  obtains w1 c' w' where "topic_partitions demo_subscribing (uri w) (c_topic_name demo_consumer) w
      = (Inr [''/default/t-part-0'', ''/default/t-part-1''], w1)"
    and "c_subscribe demo_subscribing (\<lambda>n. [0..<n]) (demo_consumer, w) = (Inr (), (c', w'))"
proof -
  obtain conn cm' where conn: "on_conn_mgr (get_connection (uri w) (uri w)) w = (Inr conn, w\<lparr>conn_mgr := cm'\<rparr>)"
    and opts: "cm_options cm' = cm_options (conn_mgr w)" by (rule get_connection_run)
  have "static_token (w\<lparr>conn_mgr := cm'\<rparr>)" using assms(1) opts by (simp add: static_token_def)
  then obtain w1 where parts: "topic_partitions demo_subscribing (uri w) (c_topic_name demo_consumer) w
      = (Inr [''/default/t-part-0'', ''/default/t-part-1''], w1)"
    using conn by (simp add: topic_partitions_def run_simps attach_token_static demo_subscribing_def always_def)
  have "always_subscribes demo_subscribing" by (simp add: always_subscribes_def demo_subscribing_def always_def)
  then obtain s' where "c_subscribe demo_subscribing (\<lambda>n. [0..<n]) (demo_consumer, w) = (Inr (), s')"
    using c_subscribe_succeeds [OF _ _ _ parts assms(1), of "\<lambda>n. [0..<n]"] by fastforce
  with parts show ?thesis by (metis surj_pair that)
qed

theorem consumer_stays_wellformed_witness:
  "\<exists>s :: nat c_state. fst ` set (c_consumers (fst s)) = {''/default/t-part-0'', ''/default/t-part-1''}
    \<and> length (c_tasks (fst s)) = length (c_consumers (fst s)) \<and> c_queues (fst s) = [[]]
    \<and> c_wellformed s \<and> c_subscription (fst s) = ''s''"
proof -
  let ?w = "demo_world\<lparr>lists := [[]], events := [False]\<rparr> :: nat World"
  have "static_token ?w" "uri ?w = demo_uri"
    using demo_static by (simp_all add: static_token_def demo_world_def new_World_def)
  then obtain w1 c' w' where parts: "topic_partitions demo_subscribing (uri ?w) (c_topic_name demo_consumer) ?w
      = (Inr [''/default/t-part-0'', ''/default/t-part-1''], w1)"
    and sub: "c_subscribe demo_subscribing (\<lambda>n. [0..<n]) (demo_consumer, ?w) = (Inr (), (c', w'))"
    by (rule demo_subscribed)
  let ?s = "snd (c_receive (c', w'))"
  have order: "\<forall>n. schedule [0..<n] n" by (simp add: schedule_upt)
  have first: "consumer_step demo_subscribing (demo_consumer, ?w) (c', w')"
    using consumer_step.subscribe [of "\<lambda>n. [0..<n]" demo_subscribing "(demo_consumer, ?w)"] order sub by simp
  have run: "(consumer_step demo_subscribing)\<^sup>*\<^sup>* (demo_consumer, ?w) ?s"
    by (rule converse_rtranclp_into_rtranclp, rule first, rule r_into_rtranclp, rule consumer_step.receive)
  have names: "fst ` set (c_consumers c') = {''/default/t-part-0'', ''/default/t-part-1''}"
    using c_subscribe_registers [OF _ sub] order parts by auto
  from c_subscribe_shape [OF _ sub] order obtain st cons
    where "c' = demo_consumer\<lparr>c_store := st, c_consumers := cons\<rparr>" by blast
  then have "c_tasks c' = []" "c_queues c' = []" by (simp_all add: demo_consumer_def)
  with names consumer_stays_wellformed [OF demo_consumer_new run] show ?thesis
    by (intro exI [of _ ?s]) (simp add: c_receive_run)
qed

text \<open>C2: The queues refine bounded mailboxes. Along any run the queues change exactly as its events
  say: a queue that \<open>receive\<close> makes is empty, a message that a task delivers is appended to the
  task's queue, which has room for it, and a message that the application takes is the first of its
  queue. So what the application took from a queue and what is left in it is what was in it and
  what was delivered to it, in order, and a queue never holds more than its bound.\<close>

theorem consumer_refines_mailboxes:
  assumes "queues_ok (fst s)" and "consumer_run E s evs s'"
  shows "mail_run (mails evs) (c_queues (fst s)) = Some (c_queues (fst s'))
    \<and> (\<forall>q < length (c_queues (fst s)).
         taken_from q (mails evs) @ c_queues (fst s') ! q = c_queues (fst s) ! q @ put_in q (mails evs))
    \<and> (\<forall>q < length (c_queues (fst s')). length (c_queues (fst s') ! q) \<le> RECEIVE_CHANNEL_BUFFER)"
proof -
  from run_mail [OF assms(2,1)] have ok: "queues_ok (fst s')"
    and run: "mail_run (mails evs) (c_queues (fst s)) = Some (c_queues (fst s'))" by blast+
  from mail_run_fifo [OF run] run ok show ?thesis by (simp add: queues_ok_def)
qed

text \<open>A message, a topic consumer and a receive task for the witnesses.\<close>

definition demo_message :: StreamMessage where
  "demo_message =
     \<lparr>sm_request_id = 1, sm_msg_id = \<lparr>mi_producer_id = 1, mi_topic_name = ''/default/t'',
        mi_broker_addr = demo_uri, mi_topic_offset = 0\<rparr>,
      sm_payload = [1], sm_publish_time = 0, sm_producer_name = ''p'', sm_subscription_name = '''',
      sm_attributes = [], sm_schema_id = None, sm_schema_version = None, sm_routing_key = None\<rparr>"

definition demo_tc :: TopicConsumer where
  "demo_tc = \<lparr>tc_topic_name = ''/default/t'', tc_consumer_name = ''c'', tc_consumer_id = 3,
     tc_subscription = ''s'', tc_subscription_type = 1, tc_key_filters = 0, tc_request_id = 2,
     tc_retry_manager = c_retry_of default_ConsumerOptions,
     tc_stub = Some \<lparr>ch_target = ''h'', ch_credentials = None, ch_serial = 0\<rparr>, tc_stop_event = 1,
     tc_health_task = None, tc_broker_addr = demo_uri, tc_connect_url = demo_uri, tc_proxy = False\<rparr>"

definition demo_task_at :: "recv_pc \<Rightarrow> ReceiveTask" where
  "demo_task_at pc = \<lparr>rt_consumer = 0, rt_queue = 0,
     rt_retry_manager = c_retry_of default_ConsumerOptions, rt_shutdown = 0, rt_attempts = 0,
     rt_pc = pc, rt_cancelled = False\<rparr>"

definition demo_receiving :: "recv_pc \<Rightarrow> bool \<Rightarrow> nat c_state" where
  "demo_receiving pc stop =
     (demo_consumer\<lparr>c_consumers := [(''/default/t'', 0)], c_store := [demo_tc],
        c_tasks := [demo_task_at pc], c_queues := [[]]\<rparr>,
      demo_world\<lparr>lists := [[]], events := [False, stop]\<rparr>)"

lemma demo_receiving_simps [simp]:
  "c_tasks (fst (demo_receiving pc stop)) = [demo_task_at pc]"
  "c_store (fst (demo_receiving pc stop)) = [demo_tc]"
  "c_queues (fst (demo_receiving pc stop)) = [[]]"
  "c_consumers (fst (demo_receiving pc stop)) = [(''/default/t'', 0)]"
  "events (snd (demo_receiving pc stop)) = [False, stop]"
  "outside (snd (demo_receiving pc stop)) = 0"
  "rt_consumer (demo_task_at pc) = 0" "rt_queue (demo_task_at pc) = 0"
  "rt_shutdown (demo_task_at pc) = 0" "rt_pc (demo_task_at pc) = pc"
  "rt_cancelled (demo_task_at pc) = False" "tc_stop_event demo_tc = 1"
  "tc_stub demo_tc = Some \<lparr>ch_target = ''h'', ch_credentials = None, ch_serial = 0\<rparr>"
  by (simp_all add: demo_receiving_def demo_task_at_def demo_tc_def)

lemma demo_receiving_ok [simp]: "queues_ok (fst (demo_receiving pc stop))"
  by (simp add: queues_ok_def)

lemma demo_receiving_static [simp]: "static_token (snd (demo_receiving pc stop))"
  using demo_static by (simp add: demo_receiving_def static_token_def)

text \<open>A stream that yields a message, and a run that reads and delivers it.\<close>

definition demo_stream :: "nat Outside" where
  "demo_stream = refusing\<lparr>next_message := (\<lambda>stream x. (Inr (Some demo_message), x))\<rparr>"

lemma demo_run:
  obtains s where "consumer_run demo_stream (demo_receiving (Reading 5) False)
      ([Arrived 0 demo_message] @ [Delivered 0 0 demo_message]) s"
    and "c_queues (fst s) = [[demo_message]]" and "c_tasks (fst s) = [demo_task_at (Reading 5)]"
proof -
  let ?s = "demo_receiving (Reading 5) False"
  let ?s1 = "turn 0 (recv_read demo_stream (demo_task_at (Reading 5)) 5) ?s"
  let ?s2 = "turn 0 (recv_put (demo_task_at (Putting 5 demo_message)) 5 demo_message) ?s1"
  obtain c w where s: "?s = (c, w)" by (meson surj_pair)
  have c: "c_tasks c = [demo_task_at (Reading 5)]" "c_store c = [demo_tc]" "c_queues c = [[]]"
    and w: "events w = [False, False]" "outside w = 0"
    using arg_cong [OF s, of fst] arg_cong [OF s, of snd] by (auto dest: sym)
  have task: "(demo_task_at (Reading 5))\<lparr>rt_attempts := rt_attempts (demo_task_at (Reading 5)),
      rt_pc := Putting 5 demo_message\<rparr> = demo_task_at (Putting 5 demo_message)"
    "(demo_task_at (Putting 5 demo_message))\<lparr>rt_attempts := rt_attempts (demo_task_at (Putting 5 demo_message)),
      rt_pc := Reading 5\<rparr> = demo_task_at (Reading 5)"
    by (simp_all add: demo_task_at_def)
  have s1: "?s1 = (c\<lparr>c_tasks := [demo_task_at (Putting 5 demo_message)]\<rparr>, w\<lparr>outside := 0\<rparr>)"
    using c w task(1)
    by (simp add: s turn_def recv_read_def run_simps shut_down_def stop_set_def set_task_def demo_stream_def is_set_def)
  have s2: "c_queues (fst ?s2) = [[demo_message]]" "c_tasks (fst ?s2) = [demo_task_at (Reading 5)]"
    using c task(2) unfolding s1 by (simp_all add: turn_def recv_put_def run_simps set_task_def)
  have "recv_step demo_stream 0 ?s ?s1" by (rule recv_step.read_turn) simp_all
  moreover have "task_events demo_stream 0 ?s = [Arrived 0 demo_message]"
    by (simp add: task_events_def Let_def demo_stream_def shut_down_def stop_set_def is_set_def)
  moreover have "recv_step demo_stream 0 ?s1 ?s2"
    using c unfolding s1 by (intro recv_step.put_turn) (simp_all add: RECEIVE_CHANNEL_BUFFER_def)
  moreover have "task_events demo_stream 0 ?s1 = [Delivered 0 0 demo_message]"
    unfolding s1 by (simp add: task_events_def Let_def)
  ultimately have "consumer_run demo_stream ?s ([Arrived 0 demo_message] @ [Delivered 0 0 demo_message]) ?s2"
    using consumer_run.then_act [OF consumer_run_one] consumer_act.task by metis
  with s2 show ?thesis using that by blast
qed

theorem consumer_refines_mailboxes_witness:
  "\<exists>s. consumer_run demo_stream (demo_receiving (Reading 5) False) [Arrived 0 demo_message, Delivered 0 0 demo_message] s
    \<and> mail_run [Put 0 demo_message] [[]] = Some (c_queues (fst s)) \<and> c_queues (fst s) = [[demo_message]]"
proof -
  obtain s where run: "consumer_run demo_stream (demo_receiving (Reading 5) False)
      ([Arrived 0 demo_message] @ [Delivered 0 0 demo_message]) s"
    and "c_queues (fst s) = [[demo_message]]"
    by (rule demo_run)
  with consumer_refines_mailboxes [OF demo_receiving_ok run] show ?thesis
    by (intro exI [of _ s]) simp
qed

section \<open>Between the stream and the queue\<close>



section \<open>After close\<close>

text \<open>C8: After \<open>close\<close> the receive tasks that were running are silent: whatever the process does later,
  a step of such a task delivers nothing, calls nothing and ends it.\<close>

theorem closed_tasks_are_silent:
  assumes "(consumer_step E)\<^sup>*\<^sup>* (snd (c_close (c, w))) s" and "i < length (c_tasks c)"
    and "recv_step E i s s'"
  shows "snd s' = snd s \<and> c_queues (fst s') = c_queues (fst s) \<and> c_store (fst s') = c_store (fst s)
    \<and> rt_pc (c_tasks (fst s') ! i) = Finished"
proof -
  obtain st w' where closed: "c_close (c, w) =
      (Inr (), (c\<lparr>c_store := st, c_tasks := cancelled_all (c_tasks c)\<rparr>, w'))"
    by (rule c_close_work)
  with consumer_run_tasks [OF assms(1)] assms(2) have "rt_cancelled (c_tasks (fst s) ! i)"
    by (auto simp: tasks_kept_def carries_def)
  with recv_step_moves [OF assms(3)] show ?thesis by (auto simp: task_moves_def)
qed

theorem closed_tasks_are_silent_witness:
  "let s = snd (c_close (demo_receiving (Reading 5) False)); s' = set_task 0 (\<lambda>t. t\<lparr>rt_pc := Finished\<rparr>) s in
   snd s' = snd s \<and> c_queues (fst s') = c_queues (fst s) \<and> c_store (fst s') = c_store (fst s)
   \<and> rt_pc (c_tasks (fst s') ! 0) = Finished"
proof -
  obtain c w where s: "demo_receiving (Reading 5) False = (c, w)" by (meson surj_pair)
  from arg_cong [OF s, of fst] have c: "c_tasks c = [demo_task_at (Reading 5)]"
    using demo_receiving_simps(1) [of "Reading 5" False] by simp
  obtain st w' where "c_close (c, w) = (Inr (), (c\<lparr>c_store := st, c_tasks := cancelled_all (c_tasks c)\<rparr>, w'))"
    by (rule c_close_work)
  then have "recv_step refusing 0 (snd (c_close (c, w)))
      (set_task 0 (\<lambda>t. t\<lparr>rt_pc := Finished\<rparr>) (snd (c_close (c, w))))"
    by (intro recv_step.cancelled [OF _ refl]) (simp_all add: c)
  from closed_tasks_are_silent [OF rtranclp.rtrancl_refl _ this] show ?thesis
    by (simp add: s c Let_def)
qed

section \<open>A turn of a receive task\<close>

text \<open>C7: The broker's CLOSE, which the health check turns into the stop event, is noticed when the next
  message arrives. That message is dropped, the event is cleared, and the topic consumer
  subscribes again; if that fails the task ends for good.\<close>

theorem close_signal_resubscribes:
  assumes "i < length (c_tasks c)" and "t = c_tasks c ! i" and "rt_pc t = Reading stream"
    and "\<not> rt_cancelled t" and "k = rt_consumer t" and "k < length (c_store c)"
    and "next_message E stream (outside w) = (Inr (Some m), x)"
    and "\<not> is_set (rt_shutdown t) w" and "is_set (tc_stop_event (c_store c ! k)) w"
    and "rm_ok (tc_retry_manager (c_store c ! k))"
    and "tc_subscribe E (c_store c ! k, w\<lparr>outside := x,
      events := (events w)[tc_stop_event (c_store c ! k) := False]\<rparr>) = (r, (tc', w'))"
    and "recv_step E i (c, w) s'"
  shows "s' = (c\<lparr>c_store := (c_store c)[k := tc'], c_tasks := (c_tasks c)[i :=
        t\<lparr>rt_pc := (case r of Inl _ \<Rightarrow> Finished | Inr _ \<Rightarrow> OpenStream)\<rparr>]\<rparr>, w')
    \<and> \<not> is_set (tc_stop_event (c_store c ! k)) w'"
proof -
  let ?ev = "tc_stop_event (c_store c ! k)"
  have s': "s' = turn i (recv_read E t stream) (c, w)"
    using assms(12) by (rule recv_stepE) (use assms(2-4) in auto)
  have set: "is_set e (w\<lparr>outside := x\<rparr>) = is_set e w" for e by (simp add: is_set_def)
  have "turn i (recv_read E t stream) (c, w) = (c\<lparr>c_store := (c_store c)[k := tc'], c_tasks := (c_tasks c)[i :=
        t\<lparr>rt_pc := (case r of Inl _ \<Rightarrow> Finished | Inr _ \<Rightarrow> OpenStream)\<rparr>]\<rparr>, w')"
    using assms(1,2,5,7-9,11) set
    by (cases r) (simp_all add: turn_def recv_read_def after_stream_def resubscribe_def run_simps
        shut_down_def stop_set_def on_tc_def set_task_def)
  moreover have "events w' = (events w)[?ev := False]"
    using tc_subscribe_keeps(3) [of "(c_store c ! k, w\<lparr>outside := x, events := (events w)[?ev := False]\<rparr>)" E]
      assms(10,11) by (simp add: on_world_def same_def)
  ultimately show ?thesis using s' by (simp add: is_set_def)
qed

text \<open>C10: A message that the stream yields while nobody stops the consumer reaches its queue: if there
  is room, two steps of the task append it, without a call, and the task reads on.\<close>

theorem message_is_delivered:
  assumes "i < length (c_tasks c)" and "t = c_tasks c ! i" and "rt_pc t = Reading stream"
    and "\<not> rt_cancelled t" and "next_message E stream (outside w) = (Inr (Some m), x)"
    and "\<not> is_set (rt_shutdown t) w" and "\<not> is_set (tc_stop_event (c_store c ! rt_consumer t)) w"
    and "length (c_queues c ! rt_queue t) < RECEIVE_CHANNEL_BUFFER"
  shows "\<exists>s1. recv_step E i (c, w) s1 \<and> recv_step E i s1
    (c\<lparr>c_queues := (c_queues c)[rt_queue t := c_queues c ! rt_queue t @ [m]]\<rparr>, w\<lparr>outside := x\<rparr>)"
proof -
  let ?s1 = "(c\<lparr>c_tasks := (c_tasks c)[i := t\<lparr>rt_pc := Putting stream m\<rparr>]\<rparr>, w\<lparr>outside := x\<rparr>)"
  let ?s2 = "(c\<lparr>c_queues := (c_queues c)[rt_queue t := c_queues c ! rt_queue t @ [m]]\<rparr>, w\<lparr>outside := x\<rparr>)"
  have set: "is_set e (w\<lparr>outside := x\<rparr>) = is_set e w" for e by (simp add: is_set_def)
  have "turn i (recv_read E t stream) (c, w) = ?s1"
    using assms(1,2,5-7) set
    by (simp add: turn_def recv_read_def run_simps shut_down_def stop_set_def set_task_def)
  then have one: "recv_step E i (c, w) ?s1"
    using recv_step.read_turn [of i "(c, w)" t stream E] assms(1-4) by simp
  have "t\<lparr>rt_pc := Reading stream\<rparr> = t" using assms(3) by simp
  then have "turn i (recv_put (t\<lparr>rt_pc := Putting stream m\<rparr>) stream m) ?s1 = ?s2"
    using assms(1,2) by (simp add: turn_def recv_put_def run_simps set_task_def)
  then have "recv_step E i ?s1 ?s2"
    using recv_step.put_turn [of i ?s1 "t\<lparr>rt_pc := Putting stream m\<rparr>" stream m E] assms(1,2,4,8) by simp
  with one show ?thesis by blast
qed

theorem close_signal_resubscribes_witness:
  "let w = snd (demo_receiving (Reading 5) True);
       E = refusing\<lparr>next_message := (\<lambda>stream x. (Inr (Some demo_message), x))\<rparr>;
       s' = turn 0 (recv_read E (demo_task_at (Reading 5)) 5) (demo_receiving (Reading 5) True)
   in rt_pc (c_tasks (fst s') ! 0) \<in> {Finished, OpenStream} \<and> \<not> is_set 1 (snd s') \<and> c_queues (fst s') = [[]]"
proof -
  let ?E = "refusing\<lparr>next_message := (\<lambda>stream x. (Inr (Some demo_message), x))\<rparr> :: nat Outside"
  let ?s = "demo_receiving (Reading 5) True"
  obtain c w where s: "?s = (c, w)" by (meson surj_pair)
  have c: "c_tasks c = [demo_task_at (Reading 5)]" "c_store c = [demo_tc]" "c_queues c = [[]]"
    and w: "events w = [False, True]" "outside w = 0"
    using arg_cong [OF s, of fst] arg_cong [OF s, of snd] by (auto dest: sym)
  obtain r tc' w' where sub: "tc_subscribe ?E (demo_tc, w\<lparr>outside := 0, events := [False, False]\<rparr>) = (r, (tc', w'))"
    by (metis surj_pair)
  have step: "recv_step ?E 0 (c, w) (turn 0 (recv_read ?E (demo_task_at (Reading 5)) 5) (c, w))"
    by (rule recv_step.read_turn) (simp_all add: c)
  have "turn 0 (recv_read ?E (demo_task_at (Reading 5)) 5) (c, w)
      = (c\<lparr>c_store := (c_store c)[0 := tc'], c_tasks := (c_tasks c)[0 :=
        (demo_task_at (Reading 5))\<lparr>rt_pc := (case r of Inl _ \<Rightarrow> Finished | Inr _ \<Rightarrow> OpenStream)\<rparr>]\<rparr>, w')
      \<and> \<not> is_set (tc_stop_event (c_store c ! 0)) w'"
    by (rule close_signal_resubscribes [OF _ _ _ _ _ _ _ _ _ _ _ step, where stream = 5 and m = demo_message and x = 0])
       (use sub in \<open>simp_all add: c w is_set_def demo_tc_def\<close>)
  then show ?thesis by (cases r) (simp_all add: s c Let_def)
qed

theorem message_is_delivered_witness:
  "let E = refusing\<lparr>next_message := (\<lambda>stream x. (Inr (Some demo_message), x))\<rparr> in
   \<exists>s1 s2. recv_step E 0 (demo_receiving (Reading 5) False) s1 \<and> recv_step E 0 s1 s2
     \<and> c_queues (fst s2) = [[demo_message]]"
proof -
  let ?E = "refusing\<lparr>next_message := (\<lambda>stream x. (Inr (Some demo_message), x))\<rparr> :: nat Outside"
  obtain c w where s: "demo_receiving (Reading 5) False = (c, w)" by (meson surj_pair)
  have c: "c_tasks c = [demo_task_at (Reading 5)]" "c_store c = [demo_tc]" "c_queues c = [[]]"
    and w: "events w = [False, False]" "outside w = 0"
    using arg_cong [OF s, of fst] arg_cong [OF s, of snd] by (auto dest: sym)
  have "\<exists>s1. recv_step ?E 0 (c, w) s1 \<and> recv_step ?E 0 s1
    (c\<lparr>c_queues := (c_queues c)[rt_queue (demo_task_at (Reading 5)) :=
        c_queues c ! rt_queue (demo_task_at (Reading 5)) @ [demo_message]]\<rparr>, w\<lparr>outside := 0\<rparr>)"
    by (rule message_is_delivered [where stream = 5])
       (simp_all add: c w is_set_def RECEIVE_CHANNEL_BUFFER_def)
  then show ?thesis unfolding Let_def s by (fastforce simp: c)
qed

section \<open>Dropped streams\<close>

fun is_receive :: "obs \<Rightarrow> bool" where
  "is_receive (Rpc _ (ReceiveMessages _)) = True"
| "is_receive _ = False"

text \<open>A task that is about to open a stream and that nobody stops.\<close>

definition reopening :: "nat \<Rightarrow> 'w c_state \<Rightarrow> bool" where
  "reopening i s \<longleftrightarrow> i < length (c_tasks (fst s)) \<and> (let t = c_tasks (fst s) ! i in
     rt_pc t = OpenStream \<and> \<not> rt_cancelled t \<and> rt_consumer t < length (c_store (fst s))
     \<and> tc_stub (c_store (fst s) ! rt_consumer t) \<noteq> None \<and> static_token (snd s)
     \<and> \<not> shut_down t s \<and> \<not> stop_set t s)"

lemma reopen_once:
  assumes "reopening i s" and "\<And>call q x. \<exists>stream x'. answer_ReceiveMessages E call q x = (Inr stream, x')"
    and "\<And>stream x. \<exists>e x'. next_message E stream x = (Inl e, x')"
  shows "\<exists>s1 s2 call q. recv_step E i s s1 \<and> recv_step E i s1 s2 \<and> reopening i s2
    \<and> trace (snd s2) = trace (snd s) @ [Rpc call (ReceiveMessages q)]"
proof -
  obtain c w where s: "s = (c, w)" by (meson surj_pair)
  define t where "t = c_tasks c ! i"
  define k where "k = rt_consumer t"
  from assms(1) have i: "i < length (c_tasks c)" and t: "rt_pc t = OpenStream" "\<not> rt_cancelled t"
    and k: "k < length (c_store c)" and static: "static_token w"
    and off: "\<not> is_set (rt_shutdown t) w" "\<not> is_set (tc_stop_event (c_store c ! k)) w"
    by (simp_all add: reopening_def s t_def k_def Let_def shut_down_def stop_set_def)
  from assms(1) obtain ch where ch: "tc_stub (c_store c ! k) = Some ch"
    by (auto simp: reopening_def s t_def k_def Let_def)
  define q where "q = \<lparr>rr_request_id = tc_request_id (c_store c ! k), rr_consumer_id = tc_consumer_id (c_store c ! k)\<rparr>"
  obtain stream x where ans: "answer_ReceiveMessages E (tc_call (c_store c ! k) w ch) q (outside w) = (Inr stream, x)"
    using assms(2) by blast
  obtain e x' where nxt: "next_message E stream x = (Inl e, x')" using assms(3) by blast
  define tc where "tc = (c_store c ! k)\<lparr>tc_request_id := Suc (tc_request_id (c_store c ! k))\<rparr>"
  define c1 where "c1 = c\<lparr>c_store := (c_store c)[k := tc]\<rparr>"
  let ?w1 = "w\<lparr>trace := trace w @ [Rpc (tc_call (c_store c ! k) w ch) (ReceiveMessages q)], outside := x\<rparr>"
  let ?t1 = "t\<lparr>rt_attempts := 0, rt_pc := Reading stream\<rparr>" and ?t2 = "t\<lparr>rt_attempts := 0, rt_pc := OpenStream\<rparr>"
  let ?s1 = "(c1\<lparr>c_tasks := (c_tasks c)[i := ?t1]\<rparr>, ?w1)"
  let ?s2 = "(c1\<lparr>c_tasks := (c_tasks c)[i := ?t2]\<rparr>, ?w1\<lparr>outside := x'\<rparr>)"
  have set: "is_set ev ?w1 = is_set ev w" "is_set ev (?w1\<lparr>outside := x'\<rparr>) = is_set ev w" for ev
    by (simp_all add: is_set_def)
  have "tc_receive E (c_store c ! k, w) = (Inr stream, (tc, ?w1))"
    using tc_receive_run [OF static ch, of E "Inr stream" x] ans by (simp add: q_def tc_def)
  then have "turn i (recv_open E t) (c, w) = ?s1"
    using i off by (simp add: turn_def recv_open_def run_simps shut_down_def on_tc_def k_def [symmetric]
      set_task_def c1_def t_def [symmetric])
  then have one: "recv_step E i s ?s1"
    using recv_step.open_turn [of i "(c, w)" t E] i t by (simp add: t_def s)
  have stop: "tc_stop_event (c_store c1 ! k) = tc_stop_event (c_store c ! k)"
    using k by (simp add: c1_def tc_def)
  have "turn i (recv_read E ?t1 stream) ?s1 = ?s2"
    using i off set stop nxt k_def
    by (simp add: turn_def recv_read_def after_stream_def run_simps shut_down_def stop_set_def set_task_def)
  then have two: "recv_step E i ?s1 ?s2"
    using recv_step.read_turn [of i ?s1 ?t1 stream E] i t by simp
  have "reopening i ?s2"
    using i t k off ch static set stop
    by (simp add: reopening_def Let_def shut_down_def stop_set_def k_def [symmetric] static_token_def)
       (simp add: c1_def tc_def)
  moreover have "trace (snd ?s2) = trace (snd s) @ [Rpc (tc_call (c_store c ! k) w ch) (ReceiveMessages q)]"
    by (simp add: s)
  ultimately show ?thesis using one two by blast
qed

text \<open>C21: A broker that accepts every stream and drops it at once is asked again without any wait or
  limit: for every \<open>n\<close> the task makes \<open>n\<close> calls in \<open>2 * n\<close> steps, with no sleep, no lookup and no
  new subscription in between.\<close>

theorem dropped_streams_reopen_at_once:
  assumes "reopening i s" and "\<And>call q x. \<exists>stream x'. answer_ReceiveMessages E call q x = (Inr stream, x')"
    and "\<And>stream x. \<exists>e x'. next_message E stream x = (Inl e, x')"
  shows "\<exists>s' tr. (recv_step E i ^^ (2 * n)) s s' \<and> trace (snd s') = trace (snd s) @ tr \<and> length tr = n
    \<and> list_all is_receive tr"
proof -
  have "\<exists>s' tr. (recv_step E i ^^ (2 * n)) s s' \<and> reopening i s' \<and> trace (snd s') = trace (snd s) @ tr
    \<and> length tr = n \<and> list_all is_receive tr"
  proof (induction n)
    case 0
    show ?case using assms(1) by auto
  next
    case (Suc n)
    then obtain s1 tr where IH: "(recv_step E i ^^ (2 * n)) s s1" "reopening i s1"
      "trace (snd s1) = trace (snd s) @ tr" "length tr = n" "list_all is_receive tr" by blast
    obtain s2 s3 call q where new: "recv_step E i s1 s2" "recv_step E i s2 s3" "reopening i s3"
      "trace (snd s3) = trace (snd s1) @ [Rpc call (ReceiveMessages q)]"
      using reopen_once [OF IH(2) assms(2,3)] by blast
    have "(recv_step E i ^^ (2 * Suc n)) s s3" using IH(1) new(1,2) by auto
    with IH new show ?case
      by (intro exI [of _ s3] exI [of _ "tr @ [Rpc call (ReceiveMessages q)]"]) simp
  qed
  then show ?thesis by blast
qed

theorem dropped_streams_reopen_at_once_witness:
  "let E = refusing\<lparr>answer_ReceiveMessages := always (Inr 5),
       next_message := (\<lambda>stream x. (Inl (AioRpcError UNAVAILABLE ''''), x))\<rparr> in
   \<exists>s' tr. (recv_step E 0 ^^ 200) (demo_receiving OpenStream False) s'
     \<and> trace (snd s') = trace (snd (demo_receiving OpenStream False)) @ tr \<and> length tr = 100 \<and> list_all is_receive tr"
proof -
  let ?E = "refusing\<lparr>answer_ReceiveMessages := always (Inr 5),
       next_message := (\<lambda>stream x. (Inl (AioRpcError UNAVAILABLE ''''), x))\<rparr> :: nat Outside"
  have "reopening 0 (demo_receiving OpenStream False)"
    by (simp add: reopening_def shut_down_def stop_set_def is_set_def Let_def)
  then show ?thesis
    using dropped_streams_reopen_at_once [of 0 "demo_receiving OpenStream False" ?E 100]
    by (simp add: always_def Let_def)
qed

section \<open>Subscribing\<close>

text \<open>C4: A subscription registers every partition. If \<open>subscribe\<close> returns, the dictionary has exactly
  the partitions that the broker named, each once, each with a topic consumer of its own that was
  made for it with the consumer's name, subscription and options, is connected, and has a health
  check watching it.\<close>

theorem subscribe_registers_partitions:
  assumes "\<And>n. schedule (order n) n" and "c_subscribe E order (c, w) = (Inr (), (c', w'))"
  shows "\<exists>ps w1. topic_partitions E (uri w) (c_topic_name c) w = (Inr ps, w1) \<and> ps \<noteq> []
    \<and> fst ` set (c_consumers c') = set ps \<and> distinct (map fst (c_consumers c'))
    \<and> distinct (map snd (c_consumers c'))
    \<and> (\<forall>(part, k) \<in> set (c_consumers c'). k < length (c_store c') \<and> tc_for c part (c_store c' ! k) w')"
  by (rule c_subscribe_registers [OF assms])

theorem subscribe_registers_partitions_witness:
  "\<exists>c' w'. c_subscribe demo_subscribing (\<lambda>n. [0..<n]) (demo_consumer, demo_world\<lparr>lists := [[]]\<rparr>) = (Inr (), (c', w'))
    \<and> fst ` set (c_consumers c') = {''/default/t-part-0'', ''/default/t-part-1''}"
proof -
  let ?w = "demo_world\<lparr>lists := [[]]\<rparr> :: nat World"
  have "static_token ?w" "uri ?w = demo_uri"
    using demo_static by (simp_all add: static_token_def demo_world_def new_World_def)
  then obtain w1 c' w' where parts: "topic_partitions demo_subscribing (uri ?w) (c_topic_name demo_consumer) ?w
      = (Inr [''/default/t-part-0'', ''/default/t-part-1''], w1)"
    and sub: "c_subscribe demo_subscribing (\<lambda>n. [0..<n]) (demo_consumer, ?w) = (Inr (), (c', w'))"
    by (rule demo_subscribed)
  from subscribe_registers_partitions [OF _ sub] parts show ?thesis
    using sub by (simp add: schedule_upt)
qed

section \<open>Acknowledgements\<close>

text \<open>C19: An acknowledgement goes back over the partition it came from. For a message of a partition the
  consumer holds, \<open>ack\<close> and \<open>nack\<close> are each one call on that partition's channel with the message's
  own identifiers and the consumer's subscription, and the broker's error is the caller's; a
  message of any other topic is ignored without a call or an error.\<close>

theorem ack_goes_to_its_partition:
  assumes "map_of (c_consumers c) (mi_topic_name (sm_msg_id m)) = Some k" and "static_token w"
    and "tc_stub (c_store c ! k) = Some ch" and "opt_field u64_field delay = Inr d"
    and "map_of (c_consumers c) (mi_topic_name (sm_msg_id other)) = None"
  shows "(let call = tc_call (c_store c ! k) w ch;
         q = \<lparr>ar_request_id = sm_request_id m, ar_msg_id = sm_msg_id m, ar_subscription_name = c_subscription c\<rparr>;
         n = \<lparr>nr_request_id = sm_request_id m, nr_msg_id = sm_msg_id m, nr_subscription_name = c_subscription c,
              nr_delay_ms = d, nr_reason = reason\<rparr> in
       c_ack E m (c, w) = (map_sum id (\<lambda>_. ()) (fst (answer_Ack E call q (outside w))),
         (c, w\<lparr>trace := trace w @ [Rpc call (Ack q)], outside := snd (answer_Ack E call q (outside w))\<rparr>))
       \<and> c_nack E m delay reason (c, w) = (map_sum id (\<lambda>_. ()) (fst (answer_Nack E call n (outside w))),
         (c, w\<lparr>trace := trace w @ [Rpc call (Nack n)], outside := snd (answer_Nack E call n (outside w))\<rparr>)))
    \<and> c_ack E other (c, w) = (Inr (), (c, w)) \<and> c_nack E other delay reason (c, w) = (Inr (), (c, w))"
proof -
  let ?tc = "c_store c ! k" and ?call = "tc_call (c_store c ! k) w ch"
  let ?q = "\<lparr>ar_request_id = sm_request_id m, ar_msg_id = sm_msg_id m, ar_subscription_name = c_subscription c\<rparr>"
  let ?n = "\<lparr>nr_request_id = sm_request_id m, nr_msg_id = sm_msg_id m, nr_subscription_name = c_subscription c,
      nr_delay_ms = d, nr_reason = reason\<rparr>"
  have same: "c\<lparr>c_store := (c_store c)[k := ?tc]\<rparr> = c" by simp
  obtain r x where a: "answer_Ack E ?call ?q (outside w) = (r, x)" by (meson surj_pair)
  obtain r' x' where n: "answer_Nack E ?call ?n (outside w) = (r', x')" by (meson surj_pair)
  have "c_ack E m (c, w) = (map_sum id (\<lambda>_. ()) r, (c, w\<lparr>trace := trace w @ [Rpc ?call (Ack ?q)], outside := x\<rparr>))"
    using assms(1) tc_send_ack_run [OF assms(2,3) refl a] same
    by (cases r) (simp_all add: c_ack_def run_simps on_tc_def)
  moreover have "c_nack E m delay reason (c, w) =
      (map_sum id (\<lambda>_. ()) r', (c, w\<lparr>trace := trace w @ [Rpc ?call (Nack ?n)], outside := x'\<rparr>))"
    using assms(1) tc_send_nack_run [OF assms(2-4) refl n] same
    by (cases r') (simp_all add: c_nack_def run_simps on_tc_def)
  moreover have "c_ack E other (c, w) = (Inr (), (c, w))" "c_nack E other delay reason (c, w) = (Inr (), (c, w))"
    using assms(5) by (simp_all add: c_ack_def c_nack_def run_simps)
  ultimately show ?thesis using a n by (simp add: Let_def)
qed

theorem ack_goes_to_its_partition_witness:
  "let s = demo_receiving OpenStream False in
   fst (c_ack refusing demo_message s) = Inl (AioRpcError UNIMPLEMENTED '''')
   \<and> length (trace (snd (snd (c_ack refusing demo_message s)))) = Suc (length (trace (snd s)))"
proof -
  obtain c w where s: "demo_receiving OpenStream False = (c, w)" by (meson surj_pair)
  have c: "c_consumers c = [(''/default/t'', 0)]" "c_store c = [demo_tc]" and static: "static_token w"
    using arg_cong [OF s, of fst] arg_cong [OF s, of snd] demo_receiving_static [of OpenStream False]
    by (auto dest: sym)
  define other where "other = demo_message\<lparr>sm_msg_id := (sm_msg_id demo_message)\<lparr>mi_topic_name := ''x''\<rparr>\<rparr>"
  have topic: "mi_topic_name (sm_msg_id demo_message) = ''/default/t''" by (simp add: demo_message_def)
  have none: "map_of (c_consumers c) (mi_topic_name (sm_msg_id other)) = None" by (simp add: other_def c)
  have some: "map_of (c_consumers c) (mi_topic_name (sm_msg_id demo_message)) = Some 0" by (simp add: topic c)
  have stub: "tc_stub (c_store c ! 0) = Some \<lparr>ch_target = ''h'', ch_credentials = None, ch_serial = 0\<rparr>"
    by (simp add: c)
  have "opt_field u64_field None = Inr None" by (simp add: opt_field_def)
  from ack_goes_to_its_partition [OF some static stub this none, where E = refusing and reason = None]
  show ?thesis by (simp add: s Let_def refusing_def refuse_def)
qed

section \<open>Key filters\<close>

text \<open>C37: The filters of a consumer are those of its builder, by reference. A pattern that is added to
  the builder after \<open>build\<close> also reaches the consumer that was built, unless the builder had no
  pattern at all, when the consumer keeps an empty list of its own.\<close>

theorem filters_shared_with_builder:
  assumes "cb_key_filters b < length (lists w)" and "cb_build (b, w) = (Inr c, (b, w1))"
    and "cb_with_key_filters ps (b, w1) = (Inr (), (b', w2))"
  shows "list_at (c_key_filters c) w2 =
      (if list_at (cb_key_filters b) w = [] then [] else list_at (cb_key_filters b) w @ ps)
    \<and> list_at (cb_key_filters b') w2 = list_at (cb_key_filters b) w @ ps"
proof -
  let ?fl = "cb_key_filters b"
  have w2: "w2 = w1\<lparr>lists := (lists w1)[?fl := list_at ?fl w1 @ ps]\<rparr>" "b' = b"
    using assms(3) by (auto simp: cb_with_key_filters_def run_simps)
  show ?thesis
  proof (cases "list_at ?fl w = []")
    case True
    then have "c_key_filters c = length (lists w)" "lists w1 = lists w @ [[]]"
      using assms(2) by (auto simp: cb_build_def new_Consumer_def list_or_new_def run_simps split: if_splits)
    with assms(1) True w2 show ?thesis by (simp add: list_at_def nth_append)
  next
    case False
    then have "c_key_filters c = ?fl" "lists w1 = lists w"
      using assms(2) by (auto simp: cb_build_def new_Consumer_def list_or_new_def run_simps split: if_splits)
    with assms(1) False w2 show ?thesis by (simp add: list_at_def)
  qed
qed

definition demo_builder :: ConsumerBuilder where
  "demo_builder = \<lparr>cb_topic = ''/default/t'', cb_consumer_name = ''c'', cb_subscription = ''s'',
     cb_subscription_type = KEY_SHARED, cb_options = default_ConsumerOptions, cb_key_filters = 0\<rparr>"

theorem filters_shared_with_builder_witness:
  "\<exists>c w1 w2. cb_build (demo_builder, demo_world\<lparr>lists := [[''eu-*'']]\<rparr>) = (Inr c, (demo_builder, w1))
    \<and> cb_with_key_filters [''us-*''] (demo_builder, w1) = (Inr (), (demo_builder, w2))
    \<and> list_at (c_key_filters c) w2 = [''eu-*'', ''us-*'']"
proof -
  let ?w = "demo_world\<lparr>lists := [[''eu-*'']]\<rparr> :: nat World"
  obtain c w1 where build: "cb_build (demo_builder, ?w) = (Inr c, (demo_builder, w1))"
    by (simp add: cb_build_def demo_builder_def new_Consumer_def list_or_new_def list_at_def run_simps)
  obtain w2 where added: "cb_with_key_filters [''us-*''] (demo_builder, w1) = (Inr (), (demo_builder, w2))"
    by (simp add: cb_with_key_filters_def run_simps)
  from filters_shared_with_builder [OF _ build added] build added show ?thesis
    by (auto simp: demo_builder_def list_at_def)
qed

end
