(* ===== verification/Client.thy ===== *)
theory Client
  imports Producer Consumer
begin

text \<open>
  \<open>danube/client.py\<close>: the builder of a client, its TLS and token options, and what a client hands
  out. A \<open>DanubeClient\<close> is the world of its shared objects. The builder works on the pair of its
  own state and the outside, where the certificate files are.
\<close>

record 'w DanubeClientBuilder =
  dcb_uri :: string
  dcb_options :: "'w ConnectionOptions"

definition new_DanubeClientBuilder :: "'w DanubeClientBuilder" where
  "new_DanubeClientBuilder = \<lparr>dcb_uri = '''', dcb_options = default_ConnectionOptions\<rparr>"

type_synonym 'w dcb_state = "'w DanubeClientBuilder \<times> 'w"

definition set_options ::
  "('w ConnectionOptions \<Rightarrow> 'w ConnectionOptions) \<Rightarrow> ('w dcb_state, unit) py" where
  "set_options f = modify (\<lambda>(b, w). (b\<lparr>dcb_options := f (dcb_options b)\<rparr>, w))"

definition service_url :: "string \<Rightarrow> ('w dcb_state, unit) py" where
  "service_url url = modify (\<lambda>(b, w). (b\<lparr>dcb_uri := url\<rparr>, w))"

definition with_tls :: "'w Outside \<Rightarrow> string \<Rightarrow> ('w dcb_state, unit) py" where
  "with_tls E ca_cert_path =
     bnd (on_snd (read_file E ca_cert_path)) (\<lambda>ca_data.
     seq (set_options (\<lambda>opts. opts\<lparr>tls_credentials := Some (ssl_channel_credentials
            \<lparr>root_certificates := Some ca_data\<rparr>)\<rparr>))
         (set_options (\<lambda>opts. opts\<lparr>use_tls := True\<rparr>)))"

definition with_mtls :: "'w Outside \<Rightarrow> string \<Rightarrow> string \<Rightarrow> string \<Rightarrow> ('w dcb_state, unit) py" where
  "with_mtls E ca_cert_path client_cert_path client_key_path =
     bnd (on_snd (read_file E ca_cert_path)) (\<lambda>ca_data.
     bnd (on_snd (read_file E client_cert_path)) (\<lambda>cert_data.
     bnd (on_snd (read_file E client_key_path)) (\<lambda>key_data.
     seq (set_options (\<lambda>opts. opts\<lparr>tls_credentials := Some (ssl_channel_credentials
            \<lparr>root_certificates := Some ca_data, private_key := Some key_data,
             certificate_chain := Some cert_data\<rparr>)\<rparr>))
         (set_options (\<lambda>opts. opts\<lparr>use_tls := True\<rparr>)))))"

text \<open>\<open>if self._options.tls_credentials is None: ... = grpc.ssl_channel_credentials()\<close>\<close>

definition default_credentials :: "'w ConnectionOptions \<Rightarrow> 'w ConnectionOptions" where
  "default_credentials opts =
     (if tls_credentials opts = None
      then opts\<lparr>tls_credentials := Some ssl_channel_credentials\<rparr> else opts)"

definition with_token :: "string \<Rightarrow> ('w dcb_state, unit) py" where
  "with_token tok =
     seq (set_options (\<lambda>opts. opts\<lparr>token := tok\<rparr>)) (
     seq (set_options (\<lambda>opts. opts\<lparr>use_tls := True\<rparr>))
         (set_options default_credentials))"

definition with_token_supplier :: "('w \<Rightarrow> (exn + string) \<times> 'w) \<Rightarrow> ('w dcb_state, unit) py" where
  "with_token_supplier supplier =
     seq (set_options (\<lambda>opts. opts\<lparr>token_supplier := Some supplier\<rparr>)) (
     seq (set_options (\<lambda>opts. opts\<lparr>use_tls := True\<rparr>))
         (set_options default_credentials))"

text \<open>\<open>build\<close>: the client and its services over one connection manager.\<close>

definition build_client :: "'w dcb_state \<Rightarrow> 'w World" where
  "build_client s = (case s of (b, x) \<Rightarrow> new_World (dcb_uri b) (dcb_options b) x)"

text \<open>What a client hands out: builders, and the schema registry operations on its own world.\<close>

definition new_producer :: "('w World, ProducerBuilder) py" where
  "new_producer = ret new_ProducerBuilder"

definition new_consumer :: "('w World, ConsumerBuilder) py" where
  "new_consumer = new_ConsumerBuilder"

end
