(* ===== verification/ClientProperties.thy ===== *)
theory ClientProperties
  imports Client Scenario
begin

text \<open>
  What the builder of a client promises: which calls make its channels secure, with which
  credentials, and which token is kept.
\<close>

text \<open>The calls of the builder, and the method behind each.\<close>

datatype 'w setting =
    Url string | Tls string | Mtls string string string | Token string
  | Supplier "'w \<Rightarrow> (exn + string) \<times> 'w"

fun set_up :: "'w Outside \<Rightarrow> 'w setting \<Rightarrow> ('w dcb_state, unit) py" where
  "set_up E (Url u) = service_url u"
| "set_up E (Tls ca) = with_tls E ca"
| "set_up E (Mtls ca cert key) = with_mtls E ca cert key"
| "set_up E (Token t) = with_token t"
| "set_up E (Supplier f) = with_token_supplier f"

fun is_url :: "'w setting \<Rightarrow> bool" where
  "is_url (Url _) = True"
| "is_url _ = False"

fun is_cert :: "'w setting \<Rightarrow> bool" where
  "is_cert (Tls _) = True"
| "is_cert (Mtls _ _ _) = True"
| "is_cert _ = False"

fun last_token :: "string \<Rightarrow> 'w setting list \<Rightarrow> string" where
  "last_token tok [] = tok"
| "last_token tok (Token t # calls) = last_token t calls"
| "last_token tok (_ # calls) = last_token tok calls"

definition has_roots :: "'w ConnectionOptions \<Rightarrow> bool" where
  "has_roots opts \<longleftrightarrow> (\<exists>creds. tls_credentials opts = Some creds \<and> root_certificates creds \<noteq> None)"

lemma set_up_once:
  assumes "set_up E call (b, x) = (Inr u, (b', x'))"
  shows "use_tls (dcb_options b') \<longleftrightarrow> use_tls (dcb_options b) \<or> \<not> is_url call"
    and "tls_credentials (dcb_options b') = None \<longleftrightarrow> tls_credentials (dcb_options b) = None \<and> is_url call"
    and "has_roots (dcb_options b) \<or> is_cert call \<Longrightarrow> has_roots (dcb_options b')"
    and "token (dcb_options b') = last_token (token (dcb_options b)) [call]"
  using assms
  by (cases call; auto simp: service_url_def with_tls_def with_mtls_def with_token_def
      with_token_supplier_def set_options_def default_credentials_def has_roots_def run_simps
      split: prod.splits sum.splits)+

lemma set_up_calls:
  assumes "for_each (set_up E) calls (b, x) = (Inr us, (b', x'))"
  shows "(use_tls (dcb_options b') \<longleftrightarrow> use_tls (dcb_options b) \<or> (\<exists>c \<in> set calls. \<not> is_url c))
    \<and> (tls_credentials (dcb_options b') = None \<longleftrightarrow>
         tls_credentials (dcb_options b) = None \<and> (\<forall>c \<in> set calls. is_url c))
    \<and> (has_roots (dcb_options b) \<or> (\<exists>c \<in> set calls. is_cert c) \<longrightarrow> has_roots (dcb_options b'))
    \<and> token (dcb_options b') = last_token (token (dcb_options b)) calls"
  using assms
proof (induction calls arbitrary: b x us)
  case Nil
  then show ?case by (simp add: run_simps)
next
  case (Cons call calls)
  obtain r b1 x1 where run: "set_up E call (b, x) = (r, (b1, x1))" by (metis surj_pair)
  with Cons.prems obtain u us1 where r: "r = Inr u"
    and rest: "for_each (set_up E) calls (b1, x1) = (Inr us1, (b', x'))"
    by (auto simp: run_simps split: sum.splits prod.splits)
  note step = set_up_once [OF run [unfolded r]]
  have "last_token (token (dcb_options b)) (call # calls) = last_token (token (dcb_options b1)) calls"
    using step(4) by (cases call) simp_all
  with Cons.IH [OF rest] step(1-3) show ?case by auto
qed

text \<open>C38: The security of a client is decided by the calls on its builder, in any order: if a
  certificate or a token was given, every channel is made with the builder's credentials, and
  they are never lost again; without, every channel is insecure. A CA certificate survives a
  later token, and the last token is the one that is kept.\<close>

theorem client_security:
  assumes "for_each (set_up E) calls (new_DanubeClientBuilder, x) = (Inr us, (b, x'))"
  shows "(\<forall>url n. ch_credentials (create_channel (cm_options (conn_mgr (build_client (b, x')))) url n)
        = tls_credentials (dcb_options b))
    \<and> (tls_credentials (dcb_options b) \<noteq> None \<longleftrightarrow> (\<exists>c \<in> set calls. \<not> is_url c))
    \<and> ((\<exists>c \<in> set calls. is_cert c) \<longrightarrow> has_roots (dcb_options b))
    \<and> token (dcb_options b) = last_token '''' calls"
proof -
  have "use_tls (dcb_options b) \<longleftrightarrow> tls_credentials (dcb_options b) \<noteq> None"
    using set_up_calls [OF assms] by (auto simp: new_DanubeClientBuilder_def default_ConnectionOptions_def)
  then have "ch_credentials (create_channel (cm_options (conn_mgr (build_client (b, x')))) url n)
      = tls_credentials (dcb_options b)" for url n
    by (auto simp: build_client_def new_World_def new_ConnectionManager_def create_channel_def Let_def)
  with set_up_calls [OF assms] show ?thesis
    by (auto simp: new_DanubeClientBuilder_def default_ConnectionOptions_def)
qed

theorem client_security_witness:
  "\<exists>us b x'. for_each (set_up (refusing\<lparr>read_file := (\<lambda>path x. (Inr [1, 2], x))\<rparr>))
      [Url demo_uri, Tls ''ca.pem'', Token ''jwt''] (new_DanubeClientBuilder, 0 :: nat) = (Inr us, (b, x'))
    \<and> has_roots (dcb_options b) \<and> token (dcb_options b) = ''jwt''"
proof -
  let ?E = "refusing\<lparr>read_file := (\<lambda>path x. (Inr [1, 2], x))\<rparr> :: nat Outside"
  obtain us b x' where run: "for_each (set_up ?E) [Url demo_uri, Tls ''ca.pem'', Token ''jwt'']
      (new_DanubeClientBuilder, 0) = (Inr us, (b, x'))"
    by (simp add: service_url_def with_tls_def with_token_def set_options_def run_simps)
  from client_security [OF run] run show ?thesis by simp
qed

end
