(* ===== verification/ServiceProperties.thy ===== *)
theory ServiceProperties
  imports Scenario Lookup SchemaRegistry
begin

text \<open>
  What the services under the producers and consumers promise: the backoff, the pool of
  connections, the lookup of a broker, the names of schema types and the schema registry.
\<close>

section \<open>Backoff\<close>

text \<open>C34: The backoff never raises and is jittered within bounds: for every manager the constructor
  makes, every attempt and every random draw, the delay is a whole number of milliseconds
  between half of the linear delay (at least 1) and the linear delay, which grows with the
  attempt and never exceeds the cap; and every such number is drawn by some draw.\<close>

theorem backoff_within_bounds:
  assumes "rm_ok rm" and "0 \<le> attempt"
  shows "(\<exists>j. calculate_backoff rm attempt u = Inr (of_int j / 1000)
      \<and> max (linear_ms rm attempt div 2) 1 \<le> j \<and> j \<le> linear_ms rm attempt)
    \<and> linear_ms rm attempt \<le> linear_ms rm (attempt + 1) \<and> linear_ms rm attempt \<le> max_backoff_ms rm
    \<and> {r. \<exists>u. calculate_backoff rm attempt u = Inr r}
        = (\<lambda>j. of_int j / 1000) ` {max (linear_ms rm attempt div 2) 1 .. linear_ms rm attempt}"
proof -
  have "r \<in> {r. \<exists>u. calculate_backoff rm attempt u = Inr r} \<longleftrightarrow>
    r \<in> (\<lambda>j. of_int j / 1000) ` {max (linear_ms rm attempt div 2) 1 .. linear_ms rm attempt}" for r
  proof
    assume "r \<in> {r. \<exists>u. calculate_backoff rm attempt u = Inr r}"
    then obtain u where u: "calculate_backoff rm attempt u = Inr r" by blast
    obtain j where j: "calculate_backoff rm attempt u = Inr (of_int j / 1000)"
      "max (linear_ms rm attempt div 2) 1 \<le> j" "j \<le> linear_ms rm attempt"
      using assms by (rule calculate_backoff_cases)
    from u j(1) have "r = of_int j / 1000" by simp
    with j(2,3) show "r \<in> (\<lambda>j. of_int j / 1000) ` {max (linear_ms rm attempt div 2) 1 .. linear_ms rm attempt}"
      by auto
  next
    assume "r \<in> (\<lambda>j. of_int j / 1000) ` {max (linear_ms rm attempt div 2) 1 .. linear_ms rm attempt}"
    then obtain j where "r = of_int j / 1000" "max (linear_ms rm attempt div 2) 1 \<le> j"
      "j \<le> linear_ms rm attempt" by auto
    then have "calculate_backoff rm attempt (nat (j - max (linear_ms rm attempt div 2) 1)) = Inr r"
      unfolding calculate_backoff_eq by (subst randint_reaches) simp_all
    then show "r \<in> {r. \<exists>u. calculate_backoff rm attempt u = Inr r}" by blast
  qed
  then have reach: "{r. \<exists>u. calculate_backoff rm attempt u = Inr r}
      = (\<lambda>j. of_int j / 1000) ` {max (linear_ms rm attempt div 2) 1 .. linear_ms rm attempt}" by blast
  obtain j where "calculate_backoff rm attempt u = Inr (of_int j / 1000)"
    "max (linear_ms rm attempt div 2) 1 \<le> j" "j \<le> linear_ms rm attempt"
    using assms by (rule calculate_backoff_cases)
  with reach show ?thesis
    using linear_ms_mono [OF assms(1), of attempt "attempt + 1"] linear_ms_le_cap by auto
qed

theorem backoff_within_bounds_witness:
  "(\<exists>j. calculate_backoff (new_RetryManager 0 0 0) 2 12345 = Inr (of_int j / 1000) \<and> 300 \<le> j \<and> j \<le> 600)
   \<and> linear_ms (new_RetryManager 0 0 0) 100 = 5000"
proof -
  have lin: "linear_ms (new_RetryManager 0 0 0) n = min (200 * (n + 1)) 5000" for n
    by (simp add: linear_ms_def new_RetryManager_def DEFAULT_BASE_BACKOFF_MS_def DEFAULT_MAX_BACKOFF_MS_def)
  show ?thesis
    using backoff_within_bounds [OF new_RetryManager_ok [of 0 0 0], of 2 12345]
    by (simp add: lin min_def)
qed

section \<open>Connections\<close>

text \<open>C35: The pool shares connections exactly: in any sequence of requests to the manager of a
  client, two requests get the same connection if and only if they name the same broker and
  connect addresses. No request fails.\<close>

theorem pool_shares_by_address:
  assumes "pool_ok cm"
  shows "\<exists>cs cm'. for_each (\<lambda>bc. get_connection (fst bc) (snd bc)) reqs cm = (Inr cs, cm')
    \<and> length cs = length reqs
    \<and> (\<forall>i < length reqs. \<forall>j < length reqs. cs ! i = cs ! j \<longleftrightarrow> reqs ! i = reqs ! j)"
proof -
  obtain cs cm' where run: "for_each (\<lambda>bc. get_connection (fst bc) (snd bc)) reqs cm = (Inr cs, cm')"
    and "list_all2 (\<lambda>k c. cm_connections cm' (pool_key k) = Some c) reqs cs"
    using cm.obtain_all [of reqs cm] by blast
  then have "length cs = length reqs" by (simp add: list_all2_lengthD)
  with run cm.sharing [OF assms run] show ?thesis by blast
qed

theorem pool_shares_by_address_witness:
  "\<exists>cs cm'. for_each (\<lambda>bc. get_connection (fst bc) (snd bc))
      [(''b'', ''c''), (''b'', ''b''), (''b'', ''c'')] (new_ConnectionManager default_ConnectionOptions :: nat ConnectionManager)
      = (Inr cs, cm') \<and> cs ! 0 = cs ! 2 \<and> cs ! 0 \<noteq> cs ! 1"
proof -
  let ?reqs = "[(''b'', ''c''), (''b'', ''b''), (''b'', ''c'')]"
  let ?cm = "new_ConnectionManager default_ConnectionOptions :: nat ConnectionManager"
  have "pool_ok ?cm" by (rule pool_ok_new)
  from pool_shares_by_address [OF this, of ?reqs]
  obtain cs cm' where run: "for_each (\<lambda>bc. get_connection (fst bc) (snd bc)) ?reqs ?cm = (Inr cs, cm')"
    and same: "\<forall>i < length ?reqs. \<forall>j < length ?reqs. cs ! i = cs ! j \<longleftrightarrow> ?reqs ! i = ?reqs ! j"
    by blast
  from same [rule_format, of 0 2] same [rule_format, of 0 1]
  have "cs ! 0 = cs ! 2 \<and> cs ! 0 \<noteq> cs ! 1" by simp
  with run show ?thesis by blast
qed

text \<open>A channel is made for the host of its address and with the client's security: one leading
  scheme is removed, \<open>https\<close> tested first, anything else is left as it is; the channel is secure
  if and only if TLS is on, with the configured credentials or else the system's.\<close>

theorem channel_of_address:
  "ch_target (create_channel opts (''https://'' @ host) n) = host
   \<and> ch_target (create_channel opts (''http://'' @ host) n) = host
   \<and> (\<forall>url. (\<nexists>rest. url = ''https://'' @ rest \<or> url = ''http://'' @ rest)
        \<longrightarrow> ch_target (create_channel opts url n) = url)
   \<and> (\<forall>url. ch_credentials (create_channel opts url n) =
        (if use_tls opts
         then Some (case tls_credentials opts of Some c \<Rightarrow> c | None \<Rightarrow> ssl_channel_credentials)
         else None))"
proof -
  have rest: "\<exists>rest. s = p @ rest" if "take (length p) s = p" for p s :: string
    using that append_take_drop_id [of "length p" s] by metis
  have "ch_target (create_channel opts url n) = url"
    if "\<nexists>rest. url = ''https://'' @ rest \<or> url = ''http://'' @ rest" for url
  proof -
    have "\<not> starts_with ''https://'' url" "\<not> starts_with ''http://'' url"
      unfolding starts_with_def using that rest by blast+
    then show ?thesis by (simp add: create_channel_def Let_def)
  qed
  then show ?thesis
    by (auto simp: create_channel_def Let_def starts_with_def)
qed

theorem channel_of_address_witness:
  "ch_target (create_channel (default_ConnectionOptions :: nat ConnectionOptions) ''h:1'' 0) = ''h:1''"
proof -
  have "\<nexists>rest. ''h:1'' = ''https://'' @ rest \<or> ''h:1'' = ''http://'' @ rest" by simp
  with channel_of_address show ?thesis by blast
qed

section \<open>Lookup\<close>

text \<open>A lookup makes one call, on the connection to the given address, about the given topic, and
  its outcome is decided by the reply alone: the addresses for Redirect and Connect, an error of
  the client's own class for Failed and for any code outside the enumeration, and the broker's
  error unchanged.\<close>

theorem lookup_outcome:
  assumes "static_token w"
  shows "\<exists>call q w'. lookup_topic E addr topic w = (fst (answer_TopicLookup E call q (outside w)), w')
    \<and> tlr_topic q = topic \<and> tlr_request_id q = lookup_request_id w
    \<and> trace w' = trace w @ [Rpc call (TopicLookup q)]
    \<and> cm_connections (conn_mgr w') (pool_key (addr, addr)) = Some \<lparr>rc_channel = call_channel call\<rparr>
    \<and> handle_lookup E addr topic w =
       (case fst (answer_TopicLookup E call q (outside w)) of
          Inl err \<Rightarrow> Inl err
        | Inr r \<Rightarrow>
            if tls_response_type r \<in> {0, 1}
            then Inr \<lparr>connect_url = tls_connect_url r, broker_url = tls_broker_url r, proxy = tls_proxy r\<rparr>
            else if tls_response_type r = 2 then Inl lookup_failed
            else Inl (LookupError ''unknown lookup type''), w')"
proof -
  obtain conn cm' where c: "on_conn_mgr (get_connection addr addr) w = (Inr conn, w\<lparr>conn_mgr := cm'\<rparr>)"
    and opts: "cm_options cm' = cm_options (conn_mgr w)"
    and look: "cm_connections cm' (pool_key (addr, addr)) = Some conn"
    by (rule get_connection_run)
  have static: "static_token (w\<lparr>conn_mgr := cm'\<rparr>)" using assms opts by (simp add: static_token_def)
  define md where "md = (let md = auth_metadata (token (cm_options cm')) (internal_broker (cm_options cm'))
      in if md \<noteq> [] then Some md else None)"
  define call where "call = \<lparr>call_channel = rc_channel conn, call_metadata = md\<rparr>"
  define q where "q = \<lparr>tlr_request_id = lookup_request_id w, tlr_topic = topic\<rparr>"
  obtain r x where ans: "answer_TopicLookup E call q (outside w) = (r, x)" by (meson surj_pair)
  have run: "lookup_topic E addr topic w = (r, w\<lparr>conn_mgr := cm',
      lookup_request_id := Suc (lookup_request_id w),
      trace := trace w @ [Rpc call (TopicLookup q)], outside := x\<rparr>)"
    using c attach_token_static [OF static] ans
    by (simp add: lookup_topic_def run_simps call_def q_def md_def)
  show ?thesis
    using run ans look
    by (intro exI [of _ call] exI [of _ q] exI [of _ "snd (lookup_topic E addr topic w)"])
       (simp add: handle_lookup_result q_def call_def split: sum.split)
qed

theorem lookup_outcome_witness:
  "fst (handle_lookup (refusing\<lparr>answer_TopicLookup := always (Inr
       \<lparr>tls_request_id = 1, tls_response_type = 7, tls_connect_url = '''', tls_broker_url = '''', tls_proxy = False\<rparr>)\<rparr>)
     ''a'' ''t'' demo_world) = Inl (LookupError ''unknown lookup type'')"
  using lookup_outcome [of demo_world "refusing\<lparr>answer_TopicLookup := always (Inr
       \<lparr>tls_request_id = 1, tls_response_type = 7, tls_connect_url = '''', tls_broker_url = '''', tls_proxy = False\<rparr>)\<rparr>" "''a''" "''t''"]
  by (auto simp: always_def)

section \<open>Names of schema types and modes\<close>

text \<open>C36: The names that the client puts on the wire parse back to what they name, and the parsers
  accept nothing else: a mode's name in any case, a type's name in any case or one of the two
  aliases; the error of any other text carries the text.\<close>

theorem schema_names_roundtrip:
  "compat_parse (compat_as_string mode) = Inr mode \<and> schema_parse (schema_as_string ty) = Inr ty
   \<and> (\<forall>s m. compat_parse s = Inr m \<longleftrightarrow> lower s = compat_as_string m)
   \<and> (\<forall>s t. schema_parse s = Inr t \<longleftrightarrow> lower s = schema_as_string t
        \<or> t = JSON_SCHEMA \<and> lower s = ''jsonschema'' \<or> t = PROTOBUF \<and> lower s = ''proto'')
   \<and> (\<forall>s. (\<exists>m. compat_parse s = Inr m) \<or> compat_parse s = Inl (ValueError (''unknown compatibility mode: '' @ s)))
   \<and> (\<forall>s. (\<exists>t. schema_parse s = Inr t) \<or> schema_parse s = Inl (ValueError (''unknown schema type: '' @ s)))"
proof -
  have "(\<exists>m. compat_parse s = Inr m) \<or> compat_parse s = Inl (ValueError (''unknown compatibility mode: '' @ s))" for s
    using compat_parse_error [of s] by (cases "compat_parse s") auto
  moreover have "(\<exists>t. schema_parse s = Inr t) \<or> schema_parse s = Inl (ValueError (''unknown schema type: '' @ s))" for s
    using schema_parse_error [of s] by (cases "schema_parse s") auto
  ultimately show ?thesis
    using compat_parse_as_string schema_parse_as_string compat_parse_iff schema_parse_iff by blast
qed

section \<open>The schema registry\<close>

text \<open>A registration is sent only if it is complete: without a type or without data it raises
  \<open>ValueError\<close> and nothing leaves the client, not even a connection is opened; otherwise it is
  exactly one call on the connection to the client's own address, with \<open>danube-py\<close> as its author
  if none was given, and its result is the identifier in the broker's reply.\<close>

theorem registration_needs_type_and_data:
  assumes "static_token w"
  shows "(sb_schema_type b = None \<or> sb_schema_data b = [] \<longrightarrow>
      (\<exists>msg. sb_execute E b w = (Inl (ValueError msg), w)))
    \<and> (\<forall>ty. sb_schema_type b = Some ty \<and> sb_schema_data b \<noteq> [] \<longrightarrow>
      (\<exists>call w'. let q = \<lparr>rs_subject = sb_subject b, rs_schema_type = schema_as_string ty,
           rs_schema_definition = sb_schema_data b, rs_description = sb_description b,
           rs_created_by = (if sb_created_by b = '''' then ''danube-py'' else sb_created_by b),
           rs_tags = sb_tags b\<rparr> in
         sb_execute E b w = (map_sum id rsr_schema_id (fst (answer_RegisterSchema E call q (outside w))), w')
         \<and> trace w' = trace w @ [Rpc call (RegisterSchema q)]
         \<and> cm_connections (conn_mgr w') (pool_key (uri w, uri w)) = Some \<lparr>rc_channel = call_channel call\<rparr>))"
proof -
  obtain call cm' where prep: "prepare (uri w) w = (Inr call, w\<lparr>conn_mgr := cm'\<rparr>)"
    and "cm_options cm' = cm_options (conn_mgr w)"
    and look: "cm_connections cm' (pool_key (uri w, uri w)) = Some \<lparr>rc_channel = call_channel call\<rparr>"
    using assms by (rule prepare_run)
  have run: "\<exists>w'. (bnd (gets uri) (\<lambda>u. bnd (prepare u) (\<lambda>call.
        bnd (rpc (answer_RegisterSchema E) RegisterSchema call q) (\<lambda>resp. ret (rsr_schema_id resp))))) w
      = (map_sum id rsr_schema_id (fst (answer_RegisterSchema E call q (outside w))), w')
    \<and> trace w' = trace w @ [Rpc call (RegisterSchema q)]
    \<and> cm_connections (conn_mgr w') (pool_key (uri w, uri w)) = Some \<lparr>rc_channel = call_channel call\<rparr>" for q
    using prep look by (auto simp: run_simps split: prod.split sum.split)
  show ?thesis
  proof (intro conjI allI impI)
    show "\<exists>msg. sb_execute E b w = (Inl (ValueError msg), w)"
      if "sb_schema_type b = None \<or> sb_schema_data b = []"
      using that by (auto simp: sb_execute_def throw_run split: option.split)
    fix ty
    assume ty: "sb_schema_type b = Some ty \<and> sb_schema_data b \<noteq> []"
    let ?q = "\<lparr>rs_subject = sb_subject b, rs_schema_type = schema_as_string ty,
      rs_schema_definition = sb_schema_data b, rs_description = sb_description b,
      rs_created_by = (if sb_created_by b = '''' then ''danube-py'' else sb_created_by b),
      rs_tags = sb_tags b\<rparr>"
    have "sb_execute E b w = (bnd (gets uri) (\<lambda>u. bnd (prepare u) (\<lambda>call.
        bnd (rpc (answer_RegisterSchema E) RegisterSchema call ?q) (\<lambda>resp. ret (rsr_schema_id resp))))) w"
      using ty by (simp add: sb_execute_def Let_def)
    with run [of ?q] show "\<exists>call w'. let q = ?q in
         sb_execute E b w = (map_sum id rsr_schema_id (fst (answer_RegisterSchema E call q (outside w))), w')
         \<and> trace w' = trace w @ [Rpc call (RegisterSchema q)]
         \<and> cm_connections (conn_mgr w') (pool_key (uri w, uri w)) = Some \<lparr>rc_channel = call_channel call\<rparr>"
      unfolding Let_def by (intro exI [of _ call]) (simp only:)
  qed
qed

theorem registration_needs_type_and_data_witness:
  "\<exists>msg. sb_execute refusing (sb_with_type AVRO (register_schema ''orders'')) demo_world
     = (Inl (ValueError msg), demo_world)"
  using registration_needs_type_and_data [OF demo_static, of "sb_with_type AVRO (register_schema ''orders'')" refusing]
  by (simp add: register_schema_def sb_with_type_def)

text \<open>An identifier or version that does not fit its field is rejected before any call is made:
  \<open>get_schema_version\<close> raises \<open>ValueError\<close> exactly for arguments outside 64 and 32 bits, and
  otherwise asks for exactly the schema and version it was given.\<close>

theorem schema_version_in_range:
  assumes "static_token w"
  shows "(\<not> (0 \<le> sid \<and> sid < 2 ^ 64 \<and> 0 \<le> ver \<and> ver < 2 ^ 32) \<longrightarrow>
      (\<exists>msg w'. get_schema_version E sid (Some ver) w = (Inl (ValueError msg), w') \<and> trace w' = trace w))
    \<and> (0 \<le> sid \<and> sid < 2 ^ 64 \<and> 0 \<le> ver \<and> ver < 2 ^ 32 \<longrightarrow>
      (\<exists>call q w'. get_schema_version E sid (Some ver) w =
           (map_sum id schema_info_from_proto (fst (answer_GetSchema E call q (outside w))), w')
         \<and> trace w' = trace w @ [Rpc call (GetSchema q)]
         \<and> uint (gs_schema_id q) = sid \<and> map_option uint (gs_version q) = Some ver))"
proof -
  obtain call cm' where prep: "prepare (uri w) w = (Inr call, w\<lparr>conn_mgr := cm'\<rparr>)"
    and "cm_options cm' = cm_options (conn_mgr w)"
    and "cm_connections cm' (pool_key (uri w, uri w)) = Some \<lparr>rc_channel = call_channel call\<rparr>"
    using assms by (rule prepare_run)
  let ?fits = "0 \<le> sid \<and> sid < 2 ^ 64 \<and> 0 \<le> ver \<and> ver < 2 ^ 32"
  have "\<exists>msg w'. get_schema_version E sid (Some ver) w = (Inl (ValueError msg), w') \<and> trace w' = trace w"
    if "\<not> ?fits"
    using prep that
    by (auto simp: get_schema_version_def run_simps u64_field_def u32_field_def opt_field_Some)
  moreover have "\<exists>call q w'. get_schema_version E sid (Some ver) w =
           (map_sum id schema_info_from_proto (fst (answer_GetSchema E call q (outside w))), w')
         \<and> trace w' = trace w @ [Rpc call (GetSchema q)]
         \<and> uint (gs_schema_id q) = sid \<and> map_option uint (gs_version q) = Some ver" if ?fits
  proof -
    define q where "q = \<lparr>gs_schema_id = word_of_int sid, gs_version = Some (word_of_int ver)\<rparr>"
    obtain r x where ans: "answer_GetSchema E call q (outside w) = (r, x)" by (meson surj_pair)
    have "get_schema_version E sid (Some ver) w = (map_sum id schema_info_from_proto r,
        w\<lparr>conn_mgr := cm', trace := trace w @ [Rpc call (GetSchema q)], outside := x\<rparr>)"
      using prep that ans
      by (cases r) (simp_all add: get_schema_version_def run_simps u64_field_def u32_field_def
          opt_field_Some q_def)
    moreover have "uint (gs_schema_id q) = sid" "map_option uint (gs_version q) = Some ver"
      using that by (simp_all add: q_def uint_word_of_int_eq take_bit_int_eq_self)
    ultimately show ?thesis using ans by (intro exI [of _ call] exI [of _ q]) simp
  qed
  ultimately show ?thesis by blast
qed

theorem schema_version_in_range_witness:
  "\<exists>msg w'. get_schema_version refusing 7 (Some (2 ^ 32)) demo_world = (Inl (ValueError msg), w') \<and> trace w' = []"
  using schema_version_in_range [OF demo_static, of 7 "2 ^ 32" refusing] by simp

section \<open>The metadata of a call\<close>

text \<open>What a call carries: the token that the supplier gives for this very call, or else the static
  one, as a bearer; the internal broker's name if it is configured; the broker's address, if and
  only if the call goes through the proxy; and no metadata at all if there is nothing to carry.\<close>

theorem metadata_of_call:
  assumes "resolve_token (cm_options (conn_mgr w)) (outside w) = (Inr tok, x)"
  shows "\<exists>md. call_headers connect broker is_proxy w = (Inr md, w\<lparr>outside := x\<rparr>)
    \<and> (let header = map_of (case md of None \<Rightarrow> [] | Some m \<Rightarrow> m);
           internal = internal_broker (cm_options (conn_mgr w)) in
       header ''authorization'' = (if tok = '''' then None else Some (''Bearer '' @ tok))
       \<and> header INTERNAL_BROKER_HEADER = (if internal = '''' then None else Some internal)
       \<and> header ''x-danube-broker-url'' = (if is_proxy then Some broker else None)
       \<and> (md = None \<longleftrightarrow> tok = '''' \<and> internal = '''' \<and> \<not> is_proxy))"
  using assms
  by (simp add: call_headers_def attach_token_if_needed_def run_simps Let_def auth_metadata_def
      insert_proxy_header_def INTERNAL_BROKER_HEADER_def)

theorem metadata_of_call_witness:
  "fst (call_headers ''c'' ''b'' True (demo_world\<lparr>conn_mgr := (conn_mgr demo_world)\<lparr>cm_options :=
      default_ConnectionOptions\<lparr>token_supplier := Some (\<lambda>x. (Inr ''jwt'', x + 1))\<rparr>\<rparr>\<rparr>))
   = Inr (Some [(''authorization'', ''Bearer jwt''), (''x-danube-broker-url'', ''b'')])"
proof -
  let ?w = "demo_world\<lparr>conn_mgr := (conn_mgr demo_world)\<lparr>cm_options :=
      default_ConnectionOptions\<lparr>token_supplier := Some (\<lambda>x. (Inr ''jwt'', x + 1))\<rparr>\<rparr>\<rparr>"
  have "resolve_token (cm_options (conn_mgr ?w)) (outside ?w) = (Inr ''jwt'', 1)"
    by (simp add: resolve_token_def)
  from metadata_of_call [OF this, of "''c''" "''b''" True]
  show ?thesis
    by (simp add: call_headers_def attach_token_if_needed_def run_simps Let_def auth_metadata_def
        insert_proxy_header_def default_ConnectionOptions_def resolve_token_def)
qed

end
