(* ===== verification/Json.thy ===== *)
theory Json
  imports PyText
begin

text \<open>
  Python's \<open>json\<close> module as the example scripts use it: \<open>json.dumps(value)\<close> with its defaults and
  \<open>json.loads(data)\<close> on \<open>bytes\<close>. A \<open>str\<close> is the UTF-8 encoding of its code points (theory
  \<open>PyText\<close>), and the decoder works on it character by character, as \<open>scanner\<close> and
  \<open>scanstring\<close> do. A number with a fraction or an exponent, \<open>NaN\<close> and \<open>Infinity\<close> keep their
  spelling. The error of the decoder carries no message. The interpreter's own limits, on nesting
  and on the length of a decimal integer, are not modelled.
\<close>

datatype json =
    JNull
  | JBool bool
  | JInt int
  | JFloat string
  | JStr string
  | JArr "json list"
  | JObj "(string \<times> json) list"

section \<open>Code points\<close>

definition utf8_enc :: "nat \<Rightarrow> string" where
  "utf8_enc n =
     (if n < 0x80 then [char_of n]
      else if n < 0x800 then [char_of (0xC0 + n div 0x40), char_of (0x80 + n mod 0x40)]
      else if n < 0x10000
      then [char_of (0xE0 + n div 0x1000), char_of (0x80 + n div 0x40 mod 0x40),
            char_of (0x80 + n mod 0x40)]
      else [char_of (0xF0 + n div 0x40000), char_of (0x80 + n div 0x1000 mod 0x40),
            char_of (0x80 + n div 0x40 mod 0x40), char_of (0x80 + n mod 0x40)])"

abbreviation tail_bits :: "char \<Rightarrow> nat" where
  "tail_bits c \<equiv> of_char c - 0x80"

fun code_points :: "string \<Rightarrow> nat list" where
  "code_points [] = []"
| "code_points (a # r) =
     (if of_char a < (0x80 :: nat) then of_char a # code_points r
      else if of_char a < (0xE0 :: nat) then
        (case r of b # s \<Rightarrow> ((of_char a - 0xC0) * 0x40 + tail_bits b) # code_points s | _ \<Rightarrow> [])
      else if of_char a < (0xF0 :: nat) then
        (case r of b # c # s \<Rightarrow>
            ((of_char a - 0xE0) * 0x1000 + tail_bits b * 0x40 + tail_bits c) # code_points s
         | _ \<Rightarrow> [])
      else
        (case r of b # c # d # s \<Rightarrow>
            ((of_char a - 0xF0) * 0x40000 + tail_bits b * 0x1000 + tail_bits c * 0x40 + tail_bits d)
            # code_points s
         | _ \<Rightarrow> []))"

definition high_surrogate :: "nat \<Rightarrow> bool" where
  "high_surrogate n \<longleftrightarrow> 0xD800 \<le> n \<and> n \<le> 0xDBFF"

definition low_surrogate :: "nat \<Rightarrow> bool" where
  "low_surrogate n \<longleftrightarrow> 0xDC00 \<le> n \<and> n \<le> 0xDFFF"

definition join_surrogates :: "nat \<Rightarrow> nat \<Rightarrow> nat" where
  "join_surrogates h l = 0x10000 + (h - 0xD800) * 0x400 + (l - 0xDC00)"

section \<open>Printing\<close>

abbreviation quote :: char where "quote \<equiv> CHR 0x22"
abbreviation backslash :: char where "backslash \<equiv> CHR 0x5C"

definition hex_digit :: "nat \<Rightarrow> char" where
  "hex_digit d = ''0123456789abcdef'' ! d"

definition u_escape :: "nat \<Rightarrow> string" where
  "u_escape n = [backslash, CHR ''u'', hex_digit (n div 0x1000), hex_digit (n div 0x100 mod 16),
     hex_digit (n div 16 mod 16), hex_digit (n mod 16)]"

text \<open>\<open>ESCAPE_DCT\<close>, and \<open>\\u\<close> with one or two UTF-16 units for what is not printable ASCII.\<close>

definition escape :: "nat \<Rightarrow> string" where
  "escape n =
     (if n = 0x22 then [backslash, quote] else if n = 0x5C then [backslash, backslash]
      else if n = 0x0A then [backslash, CHR ''n''] else if n = 0x0D then [backslash, CHR ''r'']
      else if n = 0x09 then [backslash, CHR ''t''] else if n = 0x0C then [backslash, CHR ''f'']
      else if n = 0x08 then [backslash, CHR ''b'']
      else if 0x20 \<le> n \<and> n \<le> 0x7E then [char_of n]
      else if n < 0x10000 then u_escape n
      else u_escape (0xD800 + (n - 0x10000) div 0x400) @ u_escape (0xDC00 + (n - 0x10000) mod 0x400))"

definition dumps_str :: "string \<Rightarrow> string" where
  "dumps_str s = [quote] @ concat (map escape (code_points s)) @ [quote]"

fun comma_sep :: "string list \<Rightarrow> string" where
  "comma_sep [] = []"
| "comma_sep [x] = x"
| "comma_sep (x # xs) = x @ '', '' @ comma_sep xs"

fun dumps :: "json \<Rightarrow> string" where
  "dumps JNull = ''null''"
| "dumps (JBool b) = (if b then ''true'' else ''false'')"
| "dumps (JInt i) = str_int i"
| "dumps (JFloat t) = t"
| "dumps (JStr s) = dumps_str s"
| "dumps (JArr vs) = ''['' @ comma_sep (map dumps vs) @ '']''"
| "dumps (JObj ps) = ''{'' @ comma_sep (map (\<lambda>(k, v). dumps_str k @ '': '' @ dumps v) ps) @ ''}''"

section \<open>Decoding of bytes\<close>

text \<open>\<open>detect_encoding\<close>: the byte order mark if there is one, else the pattern of zero bytes. An
  encoding is its unit in bytes and whether the units are big-endian; with it the bytes to decode.\<close>

datatype encoding = Utf8 | Utf16 bool | Utf32 bool

definition detect_encoding :: "bytes \<Rightarrow> encoding \<times> bytes" where
  "detect_encoding b =
     (if take 4 b = [0, 0, 0xFE, 0xFF] then (Utf32 True, drop 4 b)
      else if take 4 b = [0xFF, 0xFE, 0, 0] then (Utf32 False, drop 4 b)
      else if take 2 b = [0xFE, 0xFF] then (Utf16 True, drop 2 b)
      else if take 2 b = [0xFF, 0xFE] then (Utf16 False, drop 2 b)
      else if take 3 b = [0xEF, 0xBB, 0xBF] then (Utf8, drop 3 b)
      else if length b \<ge> 4 then
        (if b ! 0 = 0 then (if b ! 1 \<noteq> 0 then Utf16 True else Utf32 True, b)
         else if b ! 1 = 0 then (if b ! 2 \<noteq> 0 \<or> b ! 3 \<noteq> 0 then Utf16 False else Utf32 False, b)
         else (Utf8, b))
      else if length b = 2 then
        (if b ! 0 = 0 then (Utf16 True, b) else if b ! 1 = 0 then (Utf16 False, b) else (Utf8, b))
      else (Utf8, b))"

fun units16 :: "bool \<Rightarrow> bytes \<Rightarrow> nat list option" where
  "units16 be [] = Some []"
| "units16 be (a # b # r) =
     map_option ((#) (if be then unat a * 0x100 + unat b else unat b * 0x100 + unat a)) (units16 be r)"
| "units16 be [_] = None"

fun join_units :: "nat list \<Rightarrow> nat list" where
  "join_units (h # l # r) =
     (if high_surrogate h \<and> low_surrogate l then join_surrogates h l # join_units r
      else h # join_units (l # r))"
| "join_units ns = ns"

fun units32 :: "bool \<Rightarrow> bytes \<Rightarrow> nat list option" where
  "units32 be [] = Some []"
| "units32 be (a # b # c # d # r) =
     (let n = (if be then unat a * 0x1000000 + unat b * 0x10000 + unat c * 0x100 + unat d
               else unat d * 0x1000000 + unat c * 0x10000 + unat b * 0x100 + unat a)
      in if n > 0x10FFFF then None else map_option ((#) n) (units32 be r))"
| "units32 be _ = None"

definition text_of_points :: "nat list option \<Rightarrow> exn + string" where
  "text_of_points ns =
     (case ns of None \<Rightarrow> Inl UnicodeDecodeError | Some ns \<Rightarrow> Inr (concat (map utf8_enc ns)))"

text \<open>\<open>s.decode(detect_encoding(s), 'surrogatepass')\<close>\<close>

definition decode_json :: "bytes \<Rightarrow> exn + string" where
  "decode_json b =
     (case detect_encoding b of (enc, r) \<Rightarrow>
       (case enc of
          Utf8 \<Rightarrow> if utf8_wf True r then Inr (text_of r) else Inl UnicodeDecodeError
        | Utf16 be \<Rightarrow> text_of_points (map_option join_units (units16 be r))
        | Utf32 be \<Rightarrow> text_of_points (units32 be r)))"

section \<open>Parsing\<close>

text \<open>A parser returns what it recognised and the rest of the text; \<open>None\<close> is \<open>JSONDecodeError\<close>.\<close>

definition is_ws :: "char \<Rightarrow> bool" where
  "is_ws c \<longleftrightarrow> c \<in> {CHR '' '', CHR 0x09, CHR 0x0A, CHR 0x0D}"

abbreviation skip_ws :: "string \<Rightarrow> string" where
  "skip_ws \<equiv> dropWhile is_ws"

definition is_digit :: "char \<Rightarrow> bool" where
  "is_digit c \<longleftrightarrow> c \<in> set ''0123456789''"

definition digit_val :: "char \<Rightarrow> nat" where
  "digit_val c = of_char c - 48"

definition num_of :: "string \<Rightarrow> nat" where
  "num_of ds = fold (\<lambda>c n. 10 * n + digit_val c) ds 0"

text \<open>\<open>(-?(?:0|[1-9][0-9]*))(\.[0-9]+)?([eE][-+]?[0-9]+)?\<close>\<close>

definition lex_int :: "string \<Rightarrow> (string \<times> string) option" where
  "lex_int s =
     (case s of
        [] \<Rightarrow> None
      | c # r \<Rightarrow> if c = CHR ''0'' then Some ([c], r)
                 else if is_digit c then Some (takeWhile is_digit s, dropWhile is_digit s) else None)"

definition lex_frac :: "string \<Rightarrow> string \<times> string" where
  "lex_frac s =
     (case s of
        c # d # r \<Rightarrow> if c = CHR ''.'' \<and> is_digit d
          then (c # takeWhile is_digit (d # r), dropWhile is_digit (d # r)) else ([], s)
      | _ \<Rightarrow> ([], s))"

definition lex_exp :: "string \<Rightarrow> string \<times> string" where
  "lex_exp s =
     (case s of
        c # r \<Rightarrow>
          if c \<in> {CHR ''e'', CHR ''E''} then
            (let (sign, r1) = (case r of d # r1 \<Rightarrow> if d \<in> {CHR ''-'', CHR ''+''} then ([d], r1) else ([], r)
                               | [] \<Rightarrow> ([], r))
             in if takeWhile is_digit r1 = [] then ([], s)
                else (c # sign @ takeWhile is_digit r1, dropWhile is_digit r1))
          else ([], s)
      | [] \<Rightarrow> ([], s))"

definition lex_number :: "string \<Rightarrow> (json \<times> string) option" where
  "lex_number s =
     (let neg = (s \<noteq> [] \<and> hd s = CHR ''-'') in
      (case lex_int (if neg then tl s else s) of
         None \<Rightarrow> None
       | Some (ds, r) \<Rightarrow>
           (case lex_frac r of (fp, r1) \<Rightarrow>
             (case lex_exp r1 of (ex, r2) \<Rightarrow>
               Some (if fp = [] \<and> ex = []
                     then JInt (if neg then - int (num_of ds) else int (num_of ds))
                     else JFloat ((if neg then ''-'' else []) @ ds @ fp @ ex), r2)))))"

definition hex_val :: "char \<Rightarrow> nat option" where
  "hex_val c =
     (let n = of_char c in
      if 48 \<le> n \<and> n \<le> 57 then Some (n - 48)
      else if 97 \<le> n \<and> n \<le> 102 then Some (n - 87)
      else if 65 \<le> n \<and> n \<le> 70 then Some (n - 55) else None)"

fun hex4 :: "string \<Rightarrow> (nat \<times> string) option" where
  "hex4 (a # b # c # d # r) =
     (case (hex_val a, hex_val b, hex_val c, hex_val d) of
        (Some a, Some b, Some c, Some d) \<Rightarrow> Some (a * 0x1000 + b * 0x100 + c * 16 + d, r)
      | _ \<Rightarrow> None)"
| "hex4 _ = None"

text \<open>The escape sequence after a backslash: the code point and the rest.\<close>

definition simple_escape :: "char \<Rightarrow> char option" where
  "simple_escape c = map_of [(quote, quote), (backslash, backslash), (CHR ''/'', CHR ''/''),
     (CHR ''b'', CHR 0x08), (CHR ''f'', CHR 0x0C), (CHR ''n'', CHR 0x0A), (CHR ''r'', CHR 0x0D),
     (CHR ''t'', CHR 0x09)] c"

definition unescape :: "string \<Rightarrow> (string \<times> string) option" where
  "unescape s =
     (case s of
        [] \<Rightarrow> None
      | c # r \<Rightarrow>
          if c = CHR ''u'' then
            (case hex4 r of
               None \<Rightarrow> None
             | Some (h, r1) \<Rightarrow>
                 (case (if high_surrogate h \<and> take 2 r1 = [backslash, CHR ''u''] then hex4 (drop 2 r1) else None) of
                    Some (l, r2) \<Rightarrow>
                      if low_surrogate l then Some (utf8_enc (join_surrogates h l), r2)
                      else Some (utf8_enc h, r1)
                  | None \<Rightarrow> Some (utf8_enc h, r1)))
          else map_option (\<lambda>d. ([d], r)) (simple_escape c))"

lemma hex4_length: "hex4 s = Some (n, r) \<Longrightarrow> length r < length s"
  by (induction s rule: hex4.induct) (auto split: option.splits)

lemma unescape_length: "unescape s = Some (t, r) \<Longrightarrow> length r < length s"
  by (auto simp: unescape_def split: list.splits if_splits option.splits dest!: hex4_length)

text \<open>\<open>scanstring\<close> in its strict mode, after the opening quote.\<close>

function scan_string :: "string \<Rightarrow> (string \<times> string) option" where
  "scan_string s =
     (case s of
        [] \<Rightarrow> None
      | c # r \<Rightarrow>
          if c = quote then Some ([], r)
          else if c = backslash then
            (case unescape r of
               None \<Rightarrow> None
             | Some (t, r1) \<Rightarrow> map_option (apfst ((@) t)) (scan_string r1))
          else if of_char c < (0x20 :: nat) then None
          else map_option (apfst ((#) c)) (scan_string r))"
  by pat_completeness auto
termination
  by (relation "measure length") (auto dest: unescape_length)

declare scan_string.simps [simp del]

text \<open>The constants of \<open>scan_once\<close>.\<close>

definition constants :: "(string \<times> json) list" where
  "constants = [(''null'', JNull), (''true'', JBool True), (''false'', JBool False),
     (''NaN'', JFloat ''NaN''), (''Infinity'', JFloat ''Infinity''), (''-Infinity'', JFloat ''-Infinity'')]"

definition constant_at :: "string \<Rightarrow> (json \<times> string) option" where
  "constant_at s =
     map_option (\<lambda>(name, v). (v, drop (length name) s))
       (find (\<lambda>(name, v). take (length name) s = name) constants)"

text \<open>The next character that is not white space.\<close>

definition next_char :: "string \<Rightarrow> (char \<times> string) option" where
  "next_char s = (case skip_ws s of [] \<Rightarrow> None | c # r \<Rightarrow> Some (c, r))"

fun parse_value :: "nat \<Rightarrow> string \<Rightarrow> (json \<times> string) option"
  and parse_items :: "nat \<Rightarrow> string \<Rightarrow> (json list \<times> string) option"
  and parse_members :: "nat \<Rightarrow> string \<Rightarrow> ((string \<times> json) list \<times> string) option" where
  "parse_value 0 s = None"
| "parse_value (Suc n) s =
     (case s of
        [] \<Rightarrow> None
      | c # r \<Rightarrow>
          if c = quote then map_option (apfst JStr) (scan_string r)
          else if c = CHR ''{'' then
            Option.bind (next_char r) (\<lambda>(d, r1).
            if d = CHR ''}'' then Some (JObj [], r1)
            else map_option (apfst (\<lambda>ps. JObj (dict_of ps))) (parse_members n (d # r1)))
          else if c = CHR ''['' then
            Option.bind (next_char r) (\<lambda>(d, r1).
            if d = CHR '']'' then Some (JArr [], r1)
            else map_option (apfst JArr) (parse_items n (d # r1)))
          else (case constant_at s of Some vr \<Rightarrow> Some vr | None \<Rightarrow> lex_number s))"
| "parse_items 0 s = None"
| "parse_items (Suc n) s =
     Option.bind (parse_value n s) (\<lambda>(v, r).
     Option.bind (next_char r) (\<lambda>(d, r1).
     if d = CHR '']'' then Some ([v], r1)
     else if d = CHR '','' then map_option (apfst ((#) v)) (parse_items n (skip_ws r1))
     else None))"
| "parse_members 0 s = None"
| "parse_members (Suc n) s =
     (case s of
        [] \<Rightarrow> None
      | c # r \<Rightarrow>
          if c \<noteq> quote then None
          else
            Option.bind (scan_string r) (\<lambda>(k, r1).
            Option.bind (next_char r1) (\<lambda>(d, r2).
            if d \<noteq> CHR '':'' then None
            else
              Option.bind (parse_value n (skip_ws r2)) (\<lambda>(v, r3).
              Option.bind (next_char r3) (\<lambda>(e, r4).
              if e = CHR ''}'' then Some ([(k, v)], r4)
              else if e = CHR '','' then map_option (apfst ((#) (k, v))) (parse_members n (skip_ws r4))
              else None)))))"

text \<open>\<open>json.loads(data)\<close>\<close>

definition enough :: "string \<Rightarrow> nat" where
  "enough s = 2 * length s + 1"

definition loads :: "bytes \<Rightarrow> exn + json" where
  "loads b =
     (case decode_json b of
        Inl e \<Rightarrow> Inl e
      | Inr s \<Rightarrow>
          (case parse_value (enough (skip_ws s)) (skip_ws s) of
             None \<Rightarrow> Inl JSONDecodeError
           | Some (v, r) \<Rightarrow> if skip_ws r = [] then Inr v else Inl JSONDecodeError))"


section \<open>Enough fuel\<close>

text \<open>Every parser consumes, so twice the length of the text bounds the depth of the recursion:
  with more fuel the result is the same.\<close>

lemma map_apfst_Some: "map_option (apfst f) m = Some (y, r) \<longleftrightarrow> (\<exists>x. m = Some (x, r) \<and> y = f x)"
  by (cases m) auto

lemma scan_string_Cons:
  "scan_string [] = None"
  "scan_string (c # r) =
     (if c = quote then Some ([], r)
      else if c = backslash then
        (case unescape r of
           None \<Rightarrow> None
         | Some (t, r1) \<Rightarrow> map_option (apfst ((@) t)) (scan_string r1))
      else if of_char c < (0x20 :: nat) then None
      else map_option (apfst ((#) c)) (scan_string r))"
  by (subst scan_string.simps, simp)+

lemma scan_string_length: "scan_string s = Some (t, r) \<Longrightarrow> length r < length s"
proof (induction "length s" arbitrary: s t r rule: less_induct)
  case less
  show ?case
  proof (cases s)
    case (Cons c cs)
    consider "c = quote" | "c = backslash" | "c \<noteq> quote" "c \<noteq> backslash" by blast
    then show ?thesis
    proof cases
      case 1
      then show ?thesis using less.prems Cons by (simp add: scan_string_Cons)
    next
      case 2
      with less.prems Cons obtain u r1 t1 where u: "unescape cs = Some (u, r1)"
        and t1: "scan_string r1 = Some (t1, r)"
        by (auto simp: scan_string_Cons map_apfst_Some split: option.splits)
      from unescape_length [OF u] less.hyps [OF _ t1] Cons show ?thesis by simp
    next
      case 3
      with less.prems Cons obtain t1 where t1: "scan_string cs = Some (t1, r)"
        by (auto simp: scan_string_Cons map_apfst_Some split: if_splits)
      from less.hyps [OF _ t1] Cons show ?thesis by simp
    qed
  qed (use less.prems in \<open>simp add: scan_string_Cons\<close>)
qed

lemma skip_ws_length: "length (skip_ws s) \<le> length s"
  by (rule length_dropWhile_le)

lemma next_char_length: "next_char s = Some (c, r) \<Longrightarrow> length r < length s"
  using skip_ws_length [of s] by (auto simp: next_char_def split: list.splits)

lemma constant_at_length: "constant_at s = Some (v, r) \<Longrightarrow> length r < length s"
  by (cases s) (auto simp: constant_at_def constants_def split: if_splits)

lemma lex_int_length: "lex_int s = Some (ds, r) \<Longrightarrow> length r < length s"
  using length_dropWhile_le [of is_digit "tl s"]
  by (auto simp: lex_int_def split: list.splits if_splits)

lemma lex_tail_length: "length (snd (lex_frac s)) \<le> length s" "length (snd (lex_exp s)) \<le> length s"
proof -
  show "length (snd (lex_frac s)) \<le> length s"
    using length_dropWhile_le [of is_digit "tl (tl s)"]
    by (auto simp: lex_frac_def split: list.splits)
  show "length (snd (lex_exp s)) \<le> length s"
    using length_dropWhile_le [of is_digit "tl s"] length_dropWhile_le [of is_digit "tl (tl s)"]
    by (auto simp: lex_exp_def Let_def split: list.splits)
qed

lemma lex_number_length: "lex_number s = Some (v, r) \<Longrightarrow> length r < length s"
proof -
  assume a: "lex_number s = Some (v, r)"
  then obtain ds r0 where i: "lex_int (if s \<noteq> [] \<and> hd s = CHR ''-'' then tl s else s) = Some (ds, r0)"
    and r: "r = snd (lex_exp (snd (lex_frac r0)))"
    by (auto simp: lex_number_def Let_def split: option.splits prod.splits)
  from lex_int_length [OF i] have "length r0 < length s" by (auto split: if_splits)
  with r lex_tail_length(1) [of r0] lex_tail_length(2) [of "snd (lex_frac r0)"] show ?thesis by simp
qed

lemma parse_value_shorter:
  assumes "\<And>s vs r. parse_items n s = Some (vs, r) \<Longrightarrow> length r < length s"
    and "\<And>s ps r. parse_members n s = Some (ps, r) \<Longrightarrow> length r < length s"
    and "parse_value (Suc n) s = Some (v, r)"
  shows "length r < length s"
proof (cases s)
  case (Cons c cs)
  consider "c = quote" | "c = CHR ''{''" | "c = CHR ''[''"
    | "c \<noteq> quote" "c \<noteq> CHR ''{''" "c \<noteq> CHR ''[''" by blast
  then show ?thesis
  proof cases
    case 1
    then show ?thesis using assms(3) Cons by (auto dest: scan_string_length)
  next
    case 2
    then show ?thesis using assms(3) Cons
      by (auto simp: bind_eq_Some_conv split: if_splits dest!: next_char_length assms(2))
  next
    case 3
    then show ?thesis using assms(3) Cons
      by (auto simp: bind_eq_Some_conv split: if_splits dest!: next_char_length assms(1))
  next
    case 4
    then show ?thesis using assms(3) Cons
      by (auto split: option.splits dest!: constant_at_length lex_number_length)
  qed
qed (use assms(3) in simp)

lemma parse_shorter:
  "(\<forall>s v r. parse_value n s = Some (v, r) \<longrightarrow> length r < length s) \<and>
   (\<forall>s vs r. parse_items n s = Some (vs, r) \<longrightarrow> length r < length s) \<and>
   (\<forall>s ps r. parse_members n s = Some (ps, r) \<longrightarrow> length r < length s)"
proof (induction n)
  case (Suc n)
  then have v: "\<And>s v r. parse_value n s = Some (v, r) \<Longrightarrow> length r < length s"
    and i: "\<And>s vs r. parse_items n s = Some (vs, r) \<Longrightarrow> length r < length s"
    and m: "\<And>s ps r. parse_members n s = Some (ps, r) \<Longrightarrow> length r < length s"
    by blast+
  have v': "length r < length s" if "parse_value n (skip_ws s) = Some (v, r)" for s v r
    using v [OF that] skip_ws_length [of s] by simp
  have i': "length r < length s" if "parse_items n (skip_ws s) = Some (vs, r)" for s vs r
    using i [OF that] skip_ws_length [of s] by simp
  have m': "length r < length s" if "parse_members n (skip_ws s) = Some (ps, r)" for s ps r
    using m [OF that] skip_ws_length [of s] by simp
  have "length r < length s" if items: "parse_items (Suc n) s = Some (vs, r)" for s vs r
  proof -
    from items obtain x r1 d r2 where 1: "parse_value n s = Some (x, r1)" "next_char r1 = Some (d, r2)"
      and 2: "r2 = r \<or> (\<exists>ys. parse_items n (skip_ws r2) = Some (ys, r))"
      by (fastforce simp: bind_eq_Some_conv map_apfst_Some split: if_splits)
    from 2 i' have "length r \<le> length r2" by (auto intro: less_imp_le)
    with v [OF 1(1)] next_char_length [OF 1(2)] show ?thesis by simp
  qed
  moreover have "length r < length s" if members: "parse_members (Suc n) s = Some (ps, r)" for s ps r
  proof -
    from members obtain k c cs r1 d r2 x r3 e r4 where 1: "s = c # cs" "scan_string cs = Some (k, r1)"
      "next_char r1 = Some (d, r2)" "parse_value n (skip_ws r2) = Some (x, r3)" "next_char r3 = Some (e, r4)"
      and 2: "r4 = r \<or> (\<exists>ys. parse_members n (skip_ws r4) = Some (ys, r))"
      by (fastforce simp: bind_eq_Some_conv map_apfst_Some split: if_splits list.splits)
    from 2 m' have "length r \<le> length r4" by (auto intro: less_imp_le)
    with 1(1) scan_string_length [OF 1(2)] next_char_length [OF 1(3)] v' [OF 1(4)] next_char_length [OF 1(5)]
    show ?thesis by simp
  qed
  moreover have "length r < length s" if "parse_value (Suc n) s = Some (v, r)" for s v r
    using parse_value_shorter [of n s v r] i m that by blast
  ultimately show ?case by blast
qed simp

lemmas parse_lengths = parse_shorter [THEN conjunct1, rule_format]
  parse_shorter [THEN conjunct2, THEN conjunct1, rule_format]
  parse_shorter [THEN conjunct2, THEN conjunct2, rule_format]

lemma bind_cong_Some: "(\<And>x. m = Some x \<Longrightarrow> f x = g x) \<Longrightarrow> Option.bind m f = Option.bind m g"
  by (cases m) simp_all

lemma parse_stable:
  "(\<forall>s. 2 * length s + 1 \<le> n \<longrightarrow> parse_value (Suc n) s = parse_value n s) \<and>
   (\<forall>s. 2 * length s + 2 \<le> n \<longrightarrow> parse_items (Suc n) s = parse_items n s) \<and>
   (\<forall>s. 2 * length s + 2 \<le> n \<longrightarrow> parse_members (Suc n) s = parse_members n s)"
proof (induction n)
  case (Suc n)
  then have v: "\<And>s. 2 * length s + 1 \<le> n \<Longrightarrow> parse_value (Suc n) s = parse_value n s"
    and i: "\<And>s. 2 * length s + 2 \<le> n \<Longrightarrow> parse_items (Suc n) s = parse_items n s"
    and m: "\<And>s. 2 * length s + 2 \<le> n \<Longrightarrow> parse_members (Suc n) s = parse_members n s"
    by blast+
  have "parse_value (Suc (Suc n)) s = parse_value (Suc n) s" if len: "2 * length s + 1 \<le> Suc n" for s
  proof (cases s)
    case (Cons c cs)
    have "parse_members (Suc n) (d # r) = parse_members n (d # r)"
      and "parse_items (Suc n) (d # r) = parse_items n (d # r)" if "next_char cs = Some (d, r)" for d r
      using next_char_length [OF that] Cons len by (intro m i; simp)+
    then show ?thesis
      unfolding Cons parse_value.simps(2) list.case by (auto intro!: if_cong bind_cong_Some)
  qed simp
  moreover have "parse_items (Suc (Suc n)) s = parse_items (Suc n) s" if len: "2 * length s + 2 \<le> Suc n" for s
  proof -
    have "parse_items (Suc n) (skip_ws r1) = parse_items n (skip_ws r1)"
      if "parse_value n s = Some (x, r)" "next_char r = Some (d, r1)" for x r d r1
      using parse_lengths(1) [OF that(1)] next_char_length [OF that(2)] skip_ws_length [of r1] len
      by (intro i) simp
    moreover have "parse_value (Suc n) s = parse_value n s" using len by (intro v) simp
    ultimately show ?thesis
      unfolding parse_items.simps(2)
      by (auto intro!: if_cong bind_cong_Some)
  qed
  moreover have "parse_members (Suc (Suc n)) s = parse_members (Suc n) s" if len: "2 * length s + 2 \<le> Suc n" for s
  proof (cases s)
    case (Cons c cs)
    have val: "parse_value (Suc n) (skip_ws r2) = parse_value n (skip_ws r2)"
      if "scan_string cs = Some (k, r1)" "next_char r1 = Some (d, r2)" for k r1 d r2
      using scan_string_length [OF that(1)] next_char_length [OF that(2)] skip_ws_length [of r2] len Cons
      by (intro v) simp
    moreover have "parse_members (Suc n) (skip_ws r4) = parse_members n (skip_ws r4)"
      if "scan_string cs = Some (k, r1)" "next_char r1 = Some (d, r2)"
        "parse_value n (skip_ws r2) = Some (x, r3)" "next_char r3 = Some (e, r4)" for k r1 d r2 x r3 e r4
      using scan_string_length [OF that(1)] next_char_length [OF that(2)] skip_ws_length [of r2]
        parse_lengths(1) [OF that(3)] next_char_length [OF that(4)] skip_ws_length [of r4] len Cons
      by (intro m) simp
    ultimately show ?thesis
      unfolding Cons parse_members.simps(2) list.case by (auto intro!: if_cong bind_cong_Some)
  qed simp
  ultimately show ?case by blast
qed simp

lemma parse_enough: "enough s \<le> n \<Longrightarrow> parse_value n s = parse_value (enough s) s"
proof (induction n rule: dec_induct)
  case (step n)
  then show ?case using parse_stable [of n] by (simp add: enough_def)
qed simp


section \<open>Reading back a printed text\<close>

text \<open>A text without surrogates: its bytes are the encoding of Unicode scalar values.\<close>

definition scalar :: "nat \<Rightarrow> bool" where
  "scalar n \<longleftrightarrow> n < 0x110000 \<and> \<not> (0xD800 \<le> n \<and> n \<le> 0xDFFF)"

definition text_wf :: "string \<Rightarrow> bool" where
  "text_wf s \<longleftrightarrow> list_all scalar (code_points s) \<and> concat (map utf8_enc (code_points s)) = s"

lemma hex_val_digit: "d < 16 \<Longrightarrow> hex_val (hex_digit d) = Some d"
proof -
  assume "d < 16"
  moreover have "list_all (\<lambda>d. hex_val (hex_digit d) = Some d) [0..<16]" by code_simp
  ultimately show ?thesis by (simp add: list_all_iff)
qed

lemma hex4_digits:
  assumes "n < 0x10000"
  shows "hex4 (hex_digit (n div 0x1000) # hex_digit (n div 0x100 mod 16) # hex_digit (n div 16 mod 16)
    # hex_digit (n mod 16) # r) = Some (n, r)"
proof -
  have "n div 0x1000 < 16" using assms by simp
  moreover have "n div 0x1000 * 0x1000 + n div 0x100 mod 16 * 0x100 + n div 16 mod 16 * 16 + n mod 16 = n"
  proof -
    have "n div 0x100 = n div 16 div 16" "n div 0x1000 = n div 0x100 div 16"
      by (simp_all flip: div_mult2_eq)
    with div_mult_mod_eq [of n 16] div_mult_mod_eq [of "n div 16" 16] div_mult_mod_eq [of "n div 0x100" 16]
    show ?thesis by linarith
  qed
  ultimately show ?thesis by (simp add: hex_val_digit)
qed

lemma scan_u_escape:
  assumes "n < 0x10000" and "\<not> high_surrogate n"
  shows "scan_string (u_escape n @ r) = map_option (apfst ((@) (utf8_enc n))) (scan_string r)"
  using assms by (simp add: u_escape_def scan_string_Cons unescape_def hex4_digits del: hex4.simps)

lemma scan_surrogate_pair:
  assumes "high_surrogate h" and "low_surrogate l"
  shows "scan_string (u_escape h @ u_escape l @ r)
    = map_option (apfst ((@) (utf8_enc (join_surrogates h l)))) (scan_string r)"
proof -
  have "h < 0x10000" "l < 0x10000" using assms by (simp_all add: high_surrogate_def low_surrogate_def)
  with assms show ?thesis by (simp add: u_escape_def scan_string_Cons unescape_def hex4_digits del: hex4.simps)
qed

lemma scan_escape:
  assumes "scalar n"
  shows "scan_string (escape n @ r) = map_option (apfst ((@) (utf8_enc n))) (scan_string r)"
proof -
  consider "n \<in> {0x22, 0x5C, 0x0A, 0x0D, 0x09, 0x0C, 0x08}"
    | "n \<notin> {0x22, 0x5C, 0x0A, 0x0D, 0x09, 0x0C, 0x08}" "0x20 \<le> n" "n \<le> 0x7E"
    | "n \<notin> {0x22, 0x5C, 0x0A, 0x0D, 0x09, 0x0C, 0x08}" "\<not> (0x20 \<le> n \<and> n \<le> 0x7E)" "n < 0x10000"
    | "0x10000 \<le> n" by fastforce
  then show ?thesis
  proof cases
    case 1
    have "escape 0x22 = [backslash, quote]" "escape 0x5C = [backslash, backslash]"
      "escape 0x0A = [backslash, CHR ''n'']" "escape 0x0D = [backslash, CHR ''r'']"
      "escape 0x09 = [backslash, CHR ''t'']" "escape 0x0C = [backslash, CHR ''f'']"
      "escape 0x08 = [backslash, CHR ''b'']"
      by (simp_all add: escape_def)
    moreover have "utf8_enc 0x22 = [quote]" "utf8_enc 0x5C = [backslash]" "utf8_enc 0x0A = [CHR 0x0A]"
      "utf8_enc 0x0D = [CHR 0x0D]" "utf8_enc 0x09 = [CHR 0x09]" "utf8_enc 0x0C = [CHR 0x0C]"
      "utf8_enc 0x08 = [CHR 0x08]"
      by code_simp+
    ultimately show ?thesis
      using 1 by (elim insertE emptyE) (simp_all add: scan_string_Cons unescape_def simple_escape_def)
  next
    case 2
    then have "(of_char (char_of n) :: nat) = n" by simp
    moreover from this 2 have "char_of n \<noteq> quote" "char_of n \<noteq> backslash"
      by (auto dest: arg_cong [of _ _ "of_char :: char \<Rightarrow> nat"])
    moreover have "(#) c = (@) [c]" for c :: char by (simp add: fun_eq_iff)
    ultimately show ?thesis
      using 2 by (simp add: escape_def scan_string_Cons utf8_enc_def)
  next
    case 3
    then have "escape n = u_escape n" by (auto simp: escape_def)
    moreover have "\<not> high_surrogate n" using assms by (auto simp: scalar_def high_surrogate_def)
    ultimately show ?thesis using 3 scan_u_escape by simp
  next
    case 4
    let ?h = "0xD800 + (n - 0x10000) div 0x400" and ?l = "0xDC00 + (n - 0x10000) mod 0x400"
    have "high_surrogate ?h" "low_surrogate ?l"
      using assms 4 by (auto simp: scalar_def high_surrogate_def low_surrogate_def)
    moreover have "join_surrogates ?h ?l = n" using 4 by (simp add: join_surrogates_def)
    ultimately show ?thesis using 4 scan_surrogate_pair [of ?h ?l r] by (simp add: escape_def)
  qed
qed

lemma scan_dumps_str:
  assumes "text_wf s"
  shows "scan_string (concat (map escape (code_points s)) @ quote # r) = Some (s, r)"
proof -
  have "scan_string (concat (map escape ns) @ quote # r) = Some (concat (map utf8_enc ns), r)"
    if "list_all scalar ns" for ns
    using that by (induction ns) (simp_all add: scan_string_Cons scan_escape)
  from this [of "code_points s"] assms show ?thesis by (simp add: text_wf_def)
qed

text \<open>Decimal numbers.\<close>

lemma num_of_snoc: "num_of (ds @ [c]) = 10 * num_of ds + digit_val c"
  by (simp add: num_of_def)

lemma digit_facts: "d < 10 \<Longrightarrow> is_digit (digit d) \<and> digit_val (digit d) = d"
proof -
  assume "d < 10"
  moreover have "list_all (\<lambda>d. is_digit (digit d) \<and> digit_val (digit d) = d) [0..<10]" by code_simp
  ultimately show ?thesis by (simp add: list_all_iff)
qed

lemma num_of_dec: "num_of (dec n) = n"
proof (induction n rule: dec.induct)
  case (1 n)
  show ?case
  proof (cases "n < 10")
    case True
    then show ?thesis by (subst dec.simps) (simp add: num_of_def digit_facts)
  next
    case False
    then show ?thesis using 1 by (subst dec.simps) (simp add: num_of_snoc digit_facts)
  qed
qed

lemma dec_head: "\<exists>k r. dec n = digit k # r \<and> k < 10 \<and> (k = 0 \<longrightarrow> n = 0)"
proof (induction n rule: dec.induct)
  case (1 n)
  show ?case
  proof (cases "n < 10")
    case True
    then show ?thesis by (subst dec.simps) auto
  next
    case False
    then obtain k r where "dec (n div 10) = digit k # r" "k < 10" "k = 0 \<longrightarrow> n div 10 = 0"
      using 1 by blast
    with False show ?thesis by (subst dec.simps) (auto simp: div_eq_0_iff)
  qed
qed

lemma dec_digits: "list_all is_digit (dec n)"
  using dec_chars [of n] unfolding list_all_iff is_digit_def by blast

text \<open>What follows a printed value: the end, a comma or a closing bracket.\<close>

definition stops :: "string \<Rightarrow> bool" where
  "stops r \<longleftrightarrow> r = [] \<or> hd r \<in> set '',]}''"

lemma lex_int_dec: "stops r \<Longrightarrow> lex_int (dec n @ r) = Some (dec n, r)"
proof -
  assume r: "stops r"
  obtain k ds where d: "dec n = digit k # ds" "k < 10" "k = 0 \<longrightarrow> n = 0" using dec_head by blast
  have "takeWhile is_digit r = []" "dropWhile is_digit r = r"
    using r by (cases r; auto simp: stops_def is_digit_def)+
  then have split: "takeWhile is_digit (dec n @ r) = dec n" "dropWhile is_digit (dec n @ r) = r"
    using dec_digits [of n] by (simp_all add: list_all_iff takeWhile_append dropWhile_append)
  show ?thesis
  proof (cases "digit k = CHR ''0''")
    case True
    then have "k = 0" using digit_facts [OF d(2)] by (simp add: digit_val_def)
    with d have "dec n = ''0''" by (subst dec.simps) (simp add: digit_def)
    then show ?thesis by (simp add: lex_int_def)
  next
    case False
    then show ?thesis using split d(1) digit_facts [OF d(2)] by (simp add: lex_int_def)
  qed
qed

lemma lex_number_str_int:
  assumes "stops r"
  shows "lex_number (str_int i @ r) = Some (JInt i, r)"
proof -
  have tail: "lex_frac r = ([], r)" "lex_exp r = ([], r)"
    using assms by (cases r; auto simp: stops_def lex_frac_def lex_exp_def split: list.splits)+
  have "hd (dec n @ r) \<noteq> CHR ''-''" for n
  proof -
    obtain k ds where "dec n = digit k # ds" "k < 10" using dec_head by blast
    with digit_facts [of k] show ?thesis by (auto simp: is_digit_def)
  qed
  then show ?thesis
    using lex_int_dec [OF assms] tail by (auto simp: lex_number_def str_int_def num_of_dec)
qed

lemma str_int_head: "\<exists>c t. str_int i @ r = c # t \<and> (is_digit c \<or> c = CHR ''-'' \<and> t \<noteq> [] \<and> is_digit (hd t))"
proof -
  obtain k ds where "dec (nat \<bar>i\<bar>) = digit k # ds" "k < 10" using dec_head by blast
  with digit_facts [of k] show ?thesis by (auto simp: str_int_def)
qed

section \<open>Reading back a printed value\<close>

text \<open>A value that \<open>dumps\<close> prints faithfully: no surrogates, no float, keys of an object distinct
  as in every \<open>dict\<close>.\<close>

fun json_wf :: "json \<Rightarrow> bool" where
  "json_wf (JFloat t) = False"
| "json_wf (JStr s) = text_wf s"
| "json_wf (JArr vs) = list_all json_wf vs"
| "json_wf (JObj ps) = (distinct (map fst ps) \<and> list_all (\<lambda>(k, v). text_wf k \<and> json_wf v) ps)"
| "json_wf v = True"

lemma stops_simps [simp]: "stops []" "stops (CHR '','' # r)" "stops (CHR '']'' # r)" "stops (CHR ''}'' # r)"
  by (simp_all add: stops_def)

lemma dumps_head:
  assumes "json_wf v"
  shows "\<exists>c t. dumps v = c # t \<and> \<not> is_ws c \<and> c \<notin> set '']}''"
proof (cases v)
  case (JInt i)
  with str_int_head [of i "[]"] show ?thesis by (auto simp: is_digit_def is_ws_def)
qed (use assms in \<open>auto simp: dumps_str_def is_ws_def\<close>)

lemma skip_dumps: "json_wf v \<Longrightarrow> skip_ws (dumps v @ r) = dumps v @ r"
  using dumps_head by fastforce

lemma next_char_Cons: "\<not> is_ws c \<Longrightarrow> next_char (c # r) = Some (c, r)"
  by (simp add: next_char_def)

lemma comma_not_ws [simp]: "\<not> is_ws CHR '',''" "\<not> is_ws CHR '']''" "\<not> is_ws CHR ''}''" "\<not> is_ws CHR '':''"
  by (simp_all add: is_ws_def)

lemma constant_at_number: "constant_at (str_int i @ r) = None"
proof -
  obtain c t where "str_int i @ r = c # t" "is_digit c \<or> c = CHR ''-'' \<and> t \<noteq> [] \<and> is_digit (hd t)"
    using str_int_head by blast
  then show ?thesis
    by (cases t) (auto simp: constant_at_def constants_def is_digit_def)
qed

lemma parse_items_dumps:
  assumes "\<And>v n r. v \<in> set vs \<Longrightarrow> stops r \<Longrightarrow> enough (dumps v @ r) \<le> n
      \<Longrightarrow> parse_value n (dumps v @ r) = Some (v, r)"
    and "list_all json_wf vs" and "vs \<noteq> []"
    and "2 * length (comma_sep (map dumps vs) @ '']'' @ r) + 2 \<le> n"
  shows "parse_items n (comma_sep (map dumps vs) @ '']'' @ r) = Some (vs, r)"
  using assms
proof (induction vs arbitrary: n rule: induct_list012)
  case (2 v)
  then obtain m where m: "n = Suc m" by (cases n) simp_all
  with 2 have "parse_value m (dumps v @ '']'' @ r) = Some (v, '']'' @ r)"
    by (intro "2.prems"(1)) (simp_all add: enough_def)
  then show ?case by (simp add: m next_char_Cons)
next
  case (3 v v2 vs)
  let ?rest = "comma_sep (map dumps (v2 # vs)) @ '']'' @ r"
  obtain m where m: "n = Suc m" using "3.prems"(4) by (cases n) simp_all
  with 3 have val: "parse_value m (dumps v @ '','' @ '' '' @ ?rest) = Some (v, '','' @ '' '' @ ?rest)"
    by (intro "3.prems"(1)) (simp_all add: enough_def)
  obtain c t where "?rest = c # t" "\<not> is_ws c"
    using dumps_head [of v2] "3.prems"(2) by (cases vs) auto
  then have skip: "skip_ws ('' '' @ ?rest) = ?rest" by (simp add: is_ws_def)
  have "parse_items m ?rest = Some (v2 # vs, r)"
    using "3.prems" m by (intro "3.IH"(2)) simp_all
  with val skip show ?case by (simp add: m next_char_Cons)
qed simp

lemma parse_members_dumps:
  assumes "\<And>k v n r. (k, v) \<in> set ps \<Longrightarrow> stops r \<Longrightarrow> enough (dumps v @ r) \<le> n
      \<Longrightarrow> parse_value n (dumps v @ r) = Some (v, r)"
    and "list_all (\<lambda>(k, v). text_wf k \<and> json_wf v) ps" and "ps \<noteq> []"
    and "2 * length (comma_sep (map (\<lambda>(k, v). dumps_str k @ '': '' @ dumps v) ps) @ ''}'' @ r) + 2 \<le> n"
  shows "parse_members n (comma_sep (map (\<lambda>(k, v). dumps_str k @ '': '' @ dumps v) ps) @ ''}'' @ r)
    = Some (ps, r)"
  using assms
proof (induction ps arbitrary: n rule: induct_list012)
  case (2 p)
  obtain k v where p: "p = (k, v)" by (meson surj_pair)
  obtain m where m: "n = Suc m" using "2.prems"(4) by (cases n) simp_all
  with 2 p have val: "parse_value m (dumps v @ ''}'' @ r) = Some (v, ''}'' @ r)"
    by (intro "2.prems"(1) [of k]) (simp_all add: enough_def dumps_str_def)
  have "skip_ws ('' '' @ dumps v @ ''}'' @ r) = dumps v @ ''}'' @ r"
    using skip_dumps [of v "''}'' @ r"] "2.prems"(2) p by (simp add: is_ws_def)
  with val "2.prems"(2) show ?case
    by (simp add: m p next_char_Cons dumps_str_def scan_dumps_str)
next
  case (3 p p2 ps)
  let ?rest = "comma_sep (map (\<lambda>(k, v). dumps_str k @ '': '' @ dumps v) (p2 # ps)) @ ''}'' @ r"
  obtain k v where p: "p = (k, v)" by (meson surj_pair)
  obtain m where m: "n = Suc m" using "3.prems"(4) by (cases n) simp_all
  with 3 p have val: "parse_value m (dumps v @ '','' @ '' '' @ ?rest) = Some (v, '','' @ '' '' @ ?rest)"
    by (intro "3.prems"(1) [of k]) (simp_all add: enough_def dumps_str_def)
  have skip1: "skip_ws ('' '' @ dumps v @ '','' @ '' '' @ ?rest) = dumps v @ '','' @ '' '' @ ?rest"
    using skip_dumps [of v "'','' @ '' '' @ ?rest"] "3.prems"(2) p by (simp add: is_ws_def)
  have "\<exists>t. ?rest = quote # t" by (cases ps; cases p2) (simp_all add: dumps_str_def)
  then have skip2: "skip_ws ('' '' @ ?rest) = ?rest" by (auto simp: is_ws_def)
  have "parse_members m ?rest = Some (p2 # ps, r)"
  proof (intro "3.IH"(2))
    show "parse_value n (dumps v @ r) = Some (v, r)"
      if "(k, v) \<in> set (p2 # ps)" "stops r" "enough (dumps v @ r) \<le> n" for k v n r
      using "3.prems"(1) [of k v r n] that by simp
  qed (use "3.prems" m in simp_all)
  with val skip1 skip2 "3.prems"(2) show ?case
    by (simp add: m p next_char_Cons dumps_str_def scan_dumps_str)
qed simp

text \<open>The members of a dictionary are found again.\<close>

lemma dict_of_same: "distinct (map fst ps) \<Longrightarrow> dict_of ps = ps"
proof -
  assume d: "distinct (map fst ps)"
  have "fold (\<lambda>(k, v). AList.update k v) ps al = al @ ps"
    if "fst ` set al \<inter> fst ` set ps = {}" for al
    using that d
  proof (induction ps arbitrary: al)
    case (Cons p ps)
    obtain k v where p: "p = (k, v)" by (meson surj_pair)
    have "AList.update k v al = al @ [(k, v)]"
      using Cons.prems(1) by (induction al) (auto simp: p)
    moreover have "fst ` set (al @ [(k, v)]) \<inter> fst ` set ps = {}" using Cons.prems p by auto
    ultimately show ?case using Cons.IH [of "al @ [(k, v)]"] Cons.prems(2) p by simp
  qed simp
  from this [of "[]"] show ?thesis by (simp add: dict_of_def)
qed

lemma parse_dumps:
  "json_wf v \<Longrightarrow> stops r \<Longrightarrow> enough (dumps v @ r) \<le> n \<Longrightarrow> parse_value n (dumps v @ r) = Some (v, r)"
proof (induction v arbitrary: n r)
  case JNull
  then obtain m where "n = Suc m" by (cases n) (simp_all add: enough_def)
  then show ?case by (simp add: constant_at_def constants_def)
next
  case (JBool b)
  then obtain m where "n = Suc m" by (cases n) (simp_all add: enough_def)
  then show ?case by (simp add: constant_at_def constants_def)
next
  case (JInt i)
  then obtain m where m: "n = Suc m" by (cases n) (simp_all add: enough_def)
  obtain c t where c: "str_int i @ r = c # t" "is_digit c \<or> c = CHR ''-''" using str_int_head by blast
  with m constant_at_number [of i r] lex_number_str_int [OF JInt(2), of i] show ?case
    by (auto simp: is_digit_def)
next
  case (JStr s)
  then obtain m where m: "n = Suc m" by (cases n) (simp_all add: enough_def)
  with JStr show ?case by (simp add: dumps_str_def scan_dumps_str)
next
  case (JArr vs)
  then obtain m where m: "n = Suc m" by (cases n) (simp_all add: enough_def)
  show ?case
  proof (cases "vs = []")
    case False
    have "parse_items m (comma_sep (map dumps vs) @ '']'' @ r) = Some (vs, r)"
    proof (rule parse_items_dumps [OF _ _ False])
      show "parse_value n (dumps v @ r) = Some (v, r)"
        if "v \<in> set vs" "stops r" "enough (dumps v @ r) \<le> n" for v n r
        using JArr that by (auto simp: list_all_iff)
    qed (use JArr.prems m in \<open>simp_all add: enough_def\<close>)
    moreover obtain c t where "comma_sep (map dumps vs) @ '']'' @ r = c # t" "\<not> is_ws c" "c \<noteq> CHR '']''"
      using False dumps_head [of "hd vs"] JArr.prems(1) by (cases vs; cases "tl vs") auto
    ultimately show ?thesis by (simp add: m next_char_Cons)
  qed (simp add: m next_char_Cons)
next
  case (JObj ps)
  then obtain m where m: "n = Suc m" by (cases n) (simp_all add: enough_def)
  let ?ms = "map (\<lambda>(k, v). dumps_str k @ '': '' @ dumps v) ps"
  show ?case
  proof (cases "ps = []")
    case False
    have "parse_members m (comma_sep ?ms @ ''}'' @ r) = Some (ps, r)"
    proof (rule parse_members_dumps [OF _ _ False])
      show "parse_value n (dumps v @ r) = Some (v, r)"
        if "(k, v) \<in> set ps" "stops r" "enough (dumps v @ r) \<le> n" for k v n r
        using JObj.IH [OF that(1), of v r n] JObj.prems that by (auto simp: list_all_iff)
    qed (use JObj.prems m in \<open>simp_all add: enough_def\<close>)
    moreover obtain t where "comma_sep ?ms @ ''}'' @ r = quote # t"
      using False by (cases ps; cases "tl ps"; cases "hd ps") (auto simp: dumps_str_def)
    moreover have "dict_of ps = ps" using JObj.prems by (simp add: dict_of_same)
    moreover have "\<not> is_ws quote" by (simp add: is_ws_def)
    ultimately show ?thesis by (simp add: m next_char_Cons)
  qed (simp add: m next_char_Cons)
qed simp

text \<open>A printed value is printable ASCII, so its bytes are taken for UTF-8 and decoded unchanged.\<close>

definition printable :: "string \<Rightarrow> bool" where
  "printable s \<longleftrightarrow> list_all (\<lambda>c. 0x20 \<le> (of_char c :: nat) \<and> of_char c \<le> (0x7E :: nat)) s"

lemma printable_append [simp]: "printable (s @ t) \<longleftrightarrow> printable s \<and> printable t"
  by (simp add: printable_def)

lemma printable_concat: "(\<And>s. s \<in> set ss \<Longrightarrow> printable s) \<Longrightarrow> printable (concat ss)"
  by (induction ss) (simp_all add: printable_def)

lemma printable_comma_sep: "(\<And>s. s \<in> set ss \<Longrightarrow> printable s) \<Longrightarrow> printable (comma_sep ss)"
  by (induction ss rule: comma_sep.induct) (simp_all add: printable_def)

lemma printable_hex: "d < 16 \<Longrightarrow> printable [hex_digit d]"
proof -
  assume "d < 16"
  moreover have "list_all (\<lambda>d. printable [hex_digit d]) [0..<16]" by code_simp
  ultimately show ?thesis by (simp add: list_all_iff)
qed

lemma printable_u_escape: "n < 0x10000 \<Longrightarrow> printable (u_escape n)"
proof -
  assume "n < 0x10000"
  then have "n div 0x1000 < 16" by simp
  then show ?thesis
    using printable_hex [of "n div 0x1000"] printable_hex [of "n div 0x100 mod 16"]
      printable_hex [of "n div 16 mod 16"] printable_hex [of "n mod 16"]
    by (simp add: u_escape_def printable_def)
qed

lemma printable_escape: "scalar n \<Longrightarrow> printable (escape n)"
proof -
  assume n: "scalar n"
  have "(n - 0x10000) div 0x400 < 0x400" using n by (simp add: scalar_def) linarith
  then have "0xD800 + (n - 0x10000) div 0x400 < 0x10000" "0xDC00 + (n - 0x10000) mod 0x400 < 0x10000"
    by (simp_all add: mod_less_divisor [THEN less_trans])
  then show ?thesis
    by (auto simp: escape_def printable_u_escape) (simp_all add: printable_def)
qed

lemma printable_dumps_str: "text_wf s \<Longrightarrow> printable (dumps_str s)"
proof -
  assume "text_wf s"
  then have "printable (concat (map escape (code_points s)))"
    by (intro printable_concat) (auto simp: text_wf_def list_all_iff printable_escape)
  then show ?thesis by (simp add: dumps_str_def) (simp add: printable_def)
qed

lemma printable_dec: "printable (dec n)"
proof -
  have "list_all (\<lambda>c. 0x20 \<le> (of_char c :: nat) \<and> of_char c \<le> (0x7E :: nat)) ''0123456789''" by code_simp
  with dec_chars [of n] show ?thesis unfolding printable_def list_all_iff by blast
qed

lemma printable_dumps: "json_wf v \<Longrightarrow> printable (dumps v)"
proof (induction v)
  case (JInt i)
  have "printable (''-'' @ dec n)" for n by (simp only: printable_append printable_dec) (simp add: printable_def)
  then show ?case by (simp only: dumps.simps str_int_def printable_dec split: if_split) simp
next
  case (JStr s)
  then show ?case by (simp add: printable_dumps_str)
next
  case (JArr vs)
  then have "printable (comma_sep (map dumps vs))"
    by (intro printable_comma_sep) (auto simp: list_all_iff)
  then show ?case by simp (simp add: printable_def)
next
  case (JObj ps)
  have "printable (dumps_str k @ '': '' @ dumps v)" if "(k, v) \<in> set ps" for k v
  proof -
    have "text_wf k" "json_wf v" using JObj.prems that by (auto simp: list_all_iff)
    moreover have "printable '': ''" by (simp add: printable_def)
    ultimately show ?thesis
      using JObj.IH [OF that, of v] by (simp only: printable_append printable_dumps_str) simp
  qed
  then have "printable (comma_sep (map (\<lambda>(k, v). dumps_str k @ '': '' @ dumps v) ps))"
    by (intro printable_comma_sep) auto
  then show ?case by simp (simp add: printable_def)
qed (simp_all add: printable_def)

lemma unat_of_char [simp]: "unat (of_char c :: 8 word) = (of_char c :: nat)"
proof -
  have "(of_char c :: 8 word) = word_of_nat (of_char c)" by (simp add: of_char_def of_nat_of_char)
  moreover have "(of_char c :: nat) mod 256 < 256" by simp
  then have "(of_char c :: nat) < 256" by (simp only: of_char_mod_256)
  ultimately show ?thesis by (simp add: unat_of_nat)
qed

lemma text_of_encode [simp]: "text_of (encode s) = s"
  by (simp add: text_of_def encode_def comp_def)

lemma printable_byte:
  assumes "printable s" and "b \<in> set (encode s)"
  shows "b \<le> 0x7F" and "b \<noteq> 0"
proof -
  from assms obtain c where "b = of_char c" "0x20 \<le> (of_char c :: nat)" "of_char c \<le> (0x7E :: nat)"
    by (auto simp: encode_def printable_def list_all_iff)
  then have "unat b \<le> 0x7F" "unat b \<noteq> 0" by auto
  then show "b \<le> 0x7F" "b \<noteq> 0" by (auto simp: word_le_nat_alt)
qed

lemma utf8_printable: "printable s \<Longrightarrow> utf8_wf p (encode s)"
proof -
  have "utf8_wf p bs" if "\<forall>b \<in> set bs. b \<le> 0x7F" for bs
    using that by (induction bs) simp_all
  then show "printable s \<Longrightarrow> utf8_wf p (encode s)" using printable_byte(1) by blast
qed

lemma detect_printable: "printable s \<Longrightarrow> detect_encoding (encode s) = (Utf8, encode s)"
proof -
  assume p: "printable s"
  have "b \<noteq> 0 \<and> b \<noteq> 0xFE \<and> b \<noteq> 0xFF \<and> b \<noteq> 0xEF" if "b \<in> set (encode s)" for b
    using printable_byte [OF p that] by auto
  then have hd: "b \<noteq> 0 \<and> b \<noteq> 0xFE \<and> b \<noteq> 0xFF \<and> b \<noteq> 0xEF" if "encode s = b # bs" for b bs
    using that by simp
  consider "encode s = []" | a where "encode s = [a]" | a b bs where "encode s = a # b # bs"
    by (metis neq_Nil_conv)
  then show ?thesis
  proof cases
    case (3 a b bs)
    with printable_byte(2) [OF p, of b] hd [of a "b # bs"] show ?thesis by (simp add: detect_encoding_def)
  qed (use hd in \<open>simp_all add: detect_encoding_def\<close>)
qed

text \<open>\<open>json.loads(json.dumps(value).encode())\<close> is \<open>value\<close>.\<close>

lemma loads_dumps: "json_wf v \<Longrightarrow> loads (encode (dumps v)) = Inr v"
proof -
  assume v: "json_wf v"
  then have p: "printable (dumps v)" by (rule printable_dumps)
  have "skip_ws (dumps v) = dumps v" using skip_dumps [OF v, of "[]"] by simp
  moreover have "parse_value (enough (dumps v)) (dumps v) = Some (v, [])"
    using parse_dumps [OF v, of "[]"] by simp
  ultimately show ?thesis
    by (simp add: loads_def decode_json_def detect_printable [OF p] utf8_printable [OF p])
qed

end
