(* ===== verification/Examples.thy ===== *)
theory Examples
  imports Client Json
begin

text \<open>
  What the scripts under \<open>examples/\<close> share: programs that may not return, the client every script
  builds, and the steps by which it gets a producer or a consumer. A script prints what it does;
  printing is left out. A script that is interrupted has \<open>asyncio.CancelledError\<close> raised at the
  \<open>await\<close> where its main task waits; \<open>except Exception\<close> does not catch it.
\<close>

section \<open>Programs that may not return\<close>

type_synonym ('s, 'a) prog = "'s \<Rightarrow> ((exn + 'a) \<times> 's) option"

text \<open>A method that always returns or raises, \<open>x = m; f(x)\<close>, \<open>try: m except E as e: h(e)\<close>,
  \<open>try: m finally: k\<close>, and \<open>for x in xs: f(x)\<close>.\<close>

definition run_py :: "('s, 'a) py \<Rightarrow> ('s, 'a) prog" where
  "run_py m = (\<lambda>s. Some (m s))"

definition and_then :: "('s, 'a) prog \<Rightarrow> ('a \<Rightarrow> ('s, 'b) prog) \<Rightarrow> ('s, 'b) prog" where
  "and_then m f = (\<lambda>s. case m s of
      None \<Rightarrow> None
    | Some (r, s1) \<Rightarrow> (case r of Inl e \<Rightarrow> Some (Inl e, s1) | Inr x \<Rightarrow> f x s1))"

definition catching :: "('s, 'a) prog \<Rightarrow> (exn \<Rightarrow> bool) \<Rightarrow> (exn \<Rightarrow> ('s, 'a) prog) \<Rightarrow> ('s, 'a) prog" where
  "catching m P h = (\<lambda>s. case m s of
      None \<Rightarrow> None
    | Some (r, s1) \<Rightarrow> (case r of Inl e \<Rightarrow> if P e then h e s1 else Some (Inl e, s1) | Inr x \<Rightarrow> Some (Inr x, s1)))"

definition ensuring :: "('s, 'a) prog \<Rightarrow> ('s, 'b) py \<Rightarrow> ('s, 'a) prog" where
  "ensuring m k = (\<lambda>s. case m s of
      None \<Rightarrow> None
    | Some (r, s1) \<Rightarrow> (case k s1 of (Inl e, s2) \<Rightarrow> Some (Inl e, s2) | (Inr _, s2) \<Rightarrow> Some (r, s2)))"

fun each :: "('b \<Rightarrow> ('s, unit) prog) \<Rightarrow> 'b list \<Rightarrow> ('s, unit) prog" where
  "each f [] = run_py (ret ())"
| "each f (x # xs) = and_then (f x) (\<lambda>_. each f xs)"

text \<open>\<open>except Exception\<close> and \<open>except asyncio.CancelledError\<close>\<close>

definition is_Exception :: "exn \<Rightarrow> bool" where
  "is_Exception e \<longleftrightarrow> e \<noteq> CancelledError"

text \<open>\<open>await asyncio.sleep(seconds)\<close> in round \<open>i\<close> of a script: an interrupt may reach it there.\<close>

definition nap :: "nat option \<Rightarrow> nat \<Rightarrow> rat \<Rightarrow> ('w World, unit) py" where
  "nap interrupt i seconds =
     seq (asleep seconds) (if interrupt = Some i then throw CancelledError else ret ())"

lemma run_py_run [run_simps]: "run_py m s = Some (m s)"
  by (simp add: run_py_def)

lemma and_then_run [run_simps]:
  "and_then m f s = (case m s of
      None \<Rightarrow> None
    | Some (r, s1) \<Rightarrow> (case r of Inl e \<Rightarrow> Some (Inl e, s1) | Inr x \<Rightarrow> f x s1))"
  by (simp add: and_then_def)

lemma catching_run [run_simps]:
  "catching m P h s = (case m s of
      None \<Rightarrow> None
    | Some (r, s1) \<Rightarrow> (case r of Inl e \<Rightarrow> if P e then h e s1 else Some (Inl e, s1) | Inr x \<Rightarrow> Some (Inr x, s1)))"
  by (simp add: catching_def)

lemma ensuring_run [run_simps]:
  "ensuring m k s = (case m s of
      None \<Rightarrow> None
    | Some (r, s1) \<Rightarrow> (case k s1 of (Inl e, s2) \<Rightarrow> Some (Inl e, s2) | (Inr _, s2) \<Rightarrow> Some (r, s2)))"
  by (simp add: ensuring_def)

section \<open>The client and its objects\<close>

definition example_client :: "'w \<Rightarrow> 'w World" where
  "example_client x =
     build_client (snd (service_url ''http://127.0.0.1:6650'' (new_DanubeClientBuilder, x)))"

text \<open>Methods of a local object, and of a builder that works on nothing else.\<close>

definition inside :: "'t \<Rightarrow> ('t \<times> 'w, 'a) py \<Rightarrow> ('w, 'a \<times> 't) py" where
  "inside t m = (\<lambda>w. case m (t, w) of (r, (t', w')) \<Rightarrow>
     (case r of Inl e \<Rightarrow> (Inl e, w') | Inr x \<Rightarrow> (Inr (x, t'), w')))"

definition of_builder :: "'b \<Rightarrow> ('b, 'a) py \<Rightarrow> ('w, 'a) py" where
  "of_builder b m = of_result (fst (m b))"

text \<open>\<open>client.new_consumer().with_topic(...)....build()\<close>\<close>

definition build_consumer ::
  "string \<Rightarrow> string \<Rightarrow> string \<Rightarrow> SubType \<Rightarrow> string list \<Rightarrow> ('w World, Consumer) py" where
  "build_consumer topic name subscription sub_type filters =
     bnd new_consumer (\<lambda>b.
     bnd (inside b (
       seq (cb_with_topic topic) (
       seq (cb_with_consumer_name name) (
       seq (cb_with_subscription subscription) (
       seq (cb_with_subscription_type sub_type) (
       bnd (for_each cb_with_key_filter filters) (\<lambda>_.
       cb_build))))))) (\<lambda>(c, b).
     ret c))"

text \<open>\<open>await consumer.subscribe(); queue = await consumer.receive()\<close>\<close>

definition listen_from :: "'w Outside \<Rightarrow> (nat \<Rightarrow> nat list) \<Rightarrow> Consumer \<Rightarrow> ('w World, nat \<times> Consumer) py" where
  "listen_from E order c = inside c (bnd (c_subscribe E order) (\<lambda>_. c_receive))"

text \<open>\<open>schema_client.register_schema(subject).with_type(...).with_schema_data(...).execute()\<close>\<close>

definition register :: "'w Outside \<Rightarrow> string \<Rightarrow> SchemaType \<Rightarrow> json \<Rightarrow> ('w World, 64 word) py" where
  "register E subject schema_type schema =
     sb_execute E (sb_with_schema_data (encode (dumps schema))
       (sb_with_type schema_type (register_schema subject)))"

section \<open>Reading a decoded value\<close>

text \<open>\<open>value[key]\<close> and \<open>value.get(key)\<close>\<close>

fun item :: "json \<Rightarrow> string \<Rightarrow> exn + json" where
  "item (JObj ps) key = (case map_of ps key of Some v \<Rightarrow> Inr v | None \<Rightarrow> Inl (KeyError key))"
| "item _ key = Inl TypeError"

fun get_item :: "json \<Rightarrow> string \<Rightarrow> exn + json" where
  "get_item (JObj ps) key = Inr (case map_of ps key of Some v \<Rightarrow> v | None \<Rightarrow> JNull)"
| "get_item _ key = Inl AttributeError"

end
