(* ===== verification/ExampleConsumers.thy ===== *)
theory ExampleConsumers
  imports Examples ConsumerRuns
begin

text \<open>
  The consumer scripts of \<open>examples/\<close>: each builds a consumer, subscribes, receives, and handles the
  messages of its queue one by one until it is interrupted or a message's handling raises; then it
  closes the consumer. A script is its start, the value of its own variables and the handling of
  a message. Its run is a step relation: the main task takes a message, the receive tasks and the
  health checks go on in between, an interrupt reaches the main task while it waits for a message.
\<close>

record ('w, 'l) consumer_script =
  cs_start :: "('w World, nat \<times> Consumer) py"
  cs_local :: 'l
  cs_body :: "'l \<Rightarrow> StreamMessage \<Rightarrow> ('w c_state, 'l) py"

section \<open>The scripts\<close>

definition catch_some :: "('s, 'a) py \<Rightarrow> (exn \<Rightarrow> bool) \<Rightarrow> 'a \<Rightarrow> ('s, 'a) py" where
  "catch_some m P x = handle m (\<lambda>e. if P e then ret x else throw e)"

text \<open>\<open>examples/json_consumer.py\<close>\<close>

definition json_consumer :: "'w Outside \<Rightarrow> (nat \<Rightarrow> nat list) \<Rightarrow> ('w, unit) consumer_script" where
  "json_consumer E order =
     \<lparr>cs_start = bnd (build_consumer ''/default/test_topic'' ''cons_json'' ''subs_json'' EXCLUSIVE [])
        (listen_from E order),
      cs_local = (),
      cs_body = (\<lambda>_ message.
        catch_some
          (bnd (of_result (loads (sm_payload message))) (\<lambda>decoded. c_ack E message))
          (\<lambda>e. e = JSONDecodeError) ())\<rparr>"

text \<open>\<open>examples/avro_consumer.py\<close>\<close>

definition is_KeyError :: "exn \<Rightarrow> bool" where
  "is_KeyError e \<longleftrightarrow> (\<exists>key. e = KeyError key)"

definition avro_consumer :: "'w Outside \<Rightarrow> (nat \<Rightarrow> nat list) \<Rightarrow> ('w, unit) consumer_script" where
  "avro_consumer E order =
     \<lparr>cs_start = bnd (build_consumer ''/default/user_events'' ''user_events_consumer''
          ''user_events_subscription'' EXCLUSIVE [])
        (listen_from E order),
      cs_local = (),
      cs_body = (\<lambda>_ message.
        catch_some
          (bnd (of_result (loads (sm_payload message))) (\<lambda>event.
           bnd (of_result (item event ''user_id'')) (\<lambda>_.
           bnd (of_result (item event ''action'')) (\<lambda>_.
           bnd (of_result (item event ''timestamp'')) (\<lambda>_.
           bnd (of_result (get_item event ''metadata'')) (\<lambda>_.
           c_ack E message))))))
          (\<lambda>e. e = JSONDecodeError \<or> is_KeyError e) ())\<rparr>"

text \<open>\<open>examples/json_consumer_validated.py\<close>. The third-party package \<open>jsonschema\<close> is the argument
  \<open>iter_errors\<close>: the messages of the errors of a value against a schema.\<close>

definition validate_dict_against_registry ::
  "'w Outside \<Rightarrow> (json \<Rightarrow> json \<Rightarrow> exn + string list) \<Rightarrow> string \<Rightarrow> json \<Rightarrow> ('w World, 32 word) py" where
  "validate_dict_against_registry E iter_errors subject sample =
     bnd (get_latest_schema E subject) (\<lambda>schema_response.
     bnd (of_result (loads (si_schema_definition schema_response))) (\<lambda>schema_def.
     bnd (of_result (iter_errors schema_def sample)) (\<lambda>errors.
     if errors \<noteq> []
     then throw (RuntimeError ''Sample validation failed - consumer cannot start'')
     else ret (si_version schema_response))))"

definition json_consumer_validated ::
  "'w Outside \<Rightarrow> (json \<Rightarrow> json \<Rightarrow> exn + string list) \<Rightarrow> (nat \<Rightarrow> nat list) \<Rightarrow> ('w, unit) consumer_script" where
  "json_consumer_validated E iter_errors order =
     \<lparr>cs_start =
        bnd (validate_dict_against_registry E iter_errors ''my-app-events''
          (JObj [(''field1'', JStr ''validation_test''), (''field2'', JInt 0)])) (\<lambda>schema_version.
        bnd (build_consumer ''/default/test_topic'' ''cons_json_validated'' ''subs_json_validated''
          EXCLUSIVE [])
        (listen_from E order)),
      cs_local = (),
      cs_body = (\<lambda>_ message.
        catch_some
          (bnd (of_result (loads (sm_payload message))) (\<lambda>decoded.
           bnd (of_result (get_item decoded ''field1'')) (\<lambda>_.
           bnd (of_result (get_item decoded ''field2'')) (\<lambda>_.
           c_ack E message))))
          (\<lambda>e. e = JSONDecodeError) ())\<rparr>"

text \<open>\<open>examples/key_shared_consumer.py\<close> and \<open>examples/key_shared_filtered_consumer.py\<close>\<close>

definition key_shared_consumer :: "'w Outside \<Rightarrow> (nat \<Rightarrow> nat list) \<Rightarrow> ('w, unit) consumer_script" where
  "key_shared_consumer E order =
     \<lparr>cs_start = bnd (build_consumer ''/default/topic_key_shared'' ''consumer_key_shared''
          ''sub_key_shared'' KEY_SHARED [])
        (listen_from E order),
      cs_local = (),
      cs_body = (\<lambda>_ message.
        bnd (of_result (decode_utf8 (sm_payload message))) (\<lambda>payload. c_ack E message))\<rparr>"

definition key_shared_filtered_consumer ::
  "'w Outside \<Rightarrow> (nat \<Rightarrow> nat list) \<Rightarrow> ('w, unit) consumer_script" where
  "key_shared_filtered_consumer E order =
     \<lparr>cs_start = bnd (build_consumer ''/default/topic_key_shared'' ''consumer_payments_only''
          ''sub_key_shared'' KEY_SHARED [''payment'', ''invoice''])
        (listen_from E order),
      cs_local = (),
      cs_body = (\<lambda>_ message.
        bnd (of_result (decode_utf8 (sm_payload message))) (\<lambda>payload. c_ack E message))\<rparr>"

text \<open>\<open>examples/partitions_consumer.py\<close>\<close>

definition partitions_consumer :: "'w Outside \<Rightarrow> (nat \<Rightarrow> nat list) \<Rightarrow> ('w, unit) consumer_script" where
  "partitions_consumer E order =
     \<lparr>cs_start = bnd (build_consumer ''/default/partitioned_topic'' ''cons_part'' ''subs_part''
          EXCLUSIVE [])
        (listen_from E order),
      cs_local = (),
      cs_body = (\<lambda>_ message.
        catch_some
          (bnd (of_result (decode_utf8 (sm_payload message))) (\<lambda>message_str. c_ack E message))
          (\<lambda>e. e = UnicodeDecodeError) ())\<rparr>"

text \<open>\<open>examples/reliable_dispatch_consumer.py\<close>: its variable is \<open>total_received_size\<close>.\<close>

definition reliable_dispatch_consumer :: "'w Outside \<Rightarrow> (nat \<Rightarrow> nat list) \<Rightarrow> ('w, nat) consumer_script" where
  "reliable_dispatch_consumer E order =
     \<lparr>cs_start = bnd (build_consumer ''/default/reliable_topic'' ''cons_reliable'' ''subs_reliable''
          EXCLUSIVE [])
        (listen_from E order),
      cs_local = 0,
      cs_body = (\<lambda>total_received_size message.
        let total_received_size = total_received_size + length (sm_payload message) in
        catch_some
          (bnd (of_result (decode_utf8 (sm_payload message))) (\<lambda>message_str.
           seq (c_ack E message) (ret total_received_size)))
          (\<lambda>e. e = UnicodeDecodeError) total_received_size)\<rparr>"

section \<open>Runs of a script\<close>

text \<open>Where a script stands: its start raised; it waits for a message of its queue; its main task has
  ended, by returning or by an exception.\<close>

datatype ('w, 'l) script_state =
    NotStarted exn "'w World"
  | Listening nat 'l "'w c_state"
  | Over "exn option" "'w c_state"

definition script_start :: "('w, 'l) consumer_script \<Rightarrow> 'w \<Rightarrow> ('w, 'l) script_state" where
  "script_start scr x =
     (case cs_start scr (example_client x) of
        (Inl e, w) \<Rightarrow> NotStarted e w
      | (Inr (q, c), w) \<Rightarrow> Listening q (cs_local scr) (c, w))"

text \<open>\<open>finally: await consumer.close()\<close>\<close>

definition script_end :: "exn option \<Rightarrow> 'w c_state \<Rightarrow> ('w, 'l) script_state" where
  "script_end r s =
     (case c_close s of (Inl e, s1) \<Rightarrow> Over (Some e) s1 | (Inr _, s1) \<Rightarrow> Over r s1)"

text \<open>\<open>message = await queue.get()\<close> and the handling of the message.\<close>

definition script_take ::
  "('w, 'l) consumer_script \<Rightarrow> nat \<Rightarrow> 'l \<Rightarrow> StreamMessage \<Rightarrow> StreamMessage list \<Rightarrow> 'w c_state
     \<Rightarrow> ('w, 'l) script_state" where
  "script_take scr q l m ms s =
     (case cs_body scr l m ((fst s)\<lparr>c_queues := (c_queues (fst s))[q := ms]\<rparr>, snd s) of
        (Inr l', s1) \<Rightarrow> Listening q l' s1
      | (Inl e, s1) \<Rightarrow> script_end (if e = CancelledError then None else Some e) s1)"

text \<open>A run, with the messages the main task took, in order.\<close>

inductive script_run ::
  "'w Outside \<Rightarrow> ('w, 'l) consumer_script \<Rightarrow> ('w, 'l) script_state \<Rightarrow> StreamMessage list
     \<Rightarrow> ('w, 'l) script_state \<Rightarrow> bool"
  for E :: "'w Outside" and scr :: "('w, 'l) consumer_script" and st0 :: "('w, 'l) script_state" where
  start: "script_run E scr st0 [] st0"
| message: "script_run E scr st0 taken (Listening q l s) \<Longrightarrow> q < length (c_queues (fst s)) \<Longrightarrow>
     c_queues (fst s) ! q = m # ms \<Longrightarrow>
     script_run E scr st0 (taken @ [m]) (script_take scr q l m ms s)"
| interrupt: "script_run E scr st0 taken (Listening q l s) \<Longrightarrow>
     script_run E scr st0 taken (script_end None s)"
| receiving: "script_run E scr st0 taken (Listening q l s) \<Longrightarrow> recv_step E i s s' \<Longrightarrow>
     script_run E scr st0 taken (Listening q l s')"
| health: "script_run E scr st0 taken (Listening q l (c, w)) \<Longrightarrow> health_own E i w w' \<Longrightarrow>
     script_run E scr st0 taken (Listening q l (c, w'))"

end
