(* ===== verification/ScriptRuns.thy ===== *)
theory ScriptRuns
  imports ExampleConsumers Traffic
begin

text \<open>
  What the runs of the consumer scripts keep, step by step: the topic consumers that were
  subscribed stay connected, and an acknowledgement is sent by the handling of a message only.
\<close>

section \<open>What the receiving side keeps\<close>

text \<open>What the methods of a topic consumer keep while the consumer receives: its identity, a
  connection once there is one, the shared objects, and no acknowledgement.\<close>

definition tc_serves :: "'w tc_state \<Rightarrow> 'w tc_state \<Rightarrow> bool" where
  "tc_serves s s' \<longleftrightarrow> fixed_tc s s' \<and> on_world grows s s' \<and> on_world (emits quiet) s s'
     \<and> (tc_stub (fst s) \<noteq> None \<longrightarrow> tc_stub (fst s') \<noteq> None)"

interpretation tc_serves: evolution tc_serves
proof
  show "tc_serves s s" for s :: "'w tc_state"
    by (simp add: tc_serves_def ow_grows.refl ow_emits.refl same.refl)
  show "tc_serves s t \<Longrightarrow> tc_serves t u \<Longrightarrow> tc_serves s u" for s t u :: "'w tc_state"
    unfolding tc_serves_def
    by (blast intro: ow_grows.trans ow_emits.trans same.trans)
qed

lemma tc_serves_primitive [stays_rules]:
  "stays tc_serves (get_self f)"
  "(\<And>t. tc_identity (g t) = tc_identity t) \<Longrightarrow> (\<And>t. tc_stub t \<noteq> None \<Longrightarrow> tc_stub (g t) \<noteq> None)
     \<Longrightarrow> stays tc_serves (set_self g)"
  "stays grows m \<Longrightarrow> stays (emits quiet) m \<Longrightarrow> stays tc_serves (on_snd m)"
proof -
  show "stays tc_serves (get_self f)" unfolding get_self_def by (rule tc_serves.gets)
  show "stays tc_serves (set_self g)"
    if "\<And>t. tc_identity (g t) = tc_identity t" "\<And>t. tc_stub t \<noteq> None \<Longrightarrow> tc_stub (g t) \<noteq> None"
    using that by (auto simp: set_self_def tc_serves_def same_def on_world_def grows.refl emits.refl
        intro!: stays_modify)
  show "stays tc_serves (on_snd m)" if "stays grows m" "stays (emits quiet) m"
    using that by (auto simp: tc_serves_def on_snd_def same_def on_world_def intro!: staysI
        split: prod.split dest: staysD)
qed

lemma quiet_calls:
  "stays (emits quiet) (rpc (answer_Subscribe E) Subscribe call q)"
  "stays (emits quiet) (rpc (answer_ReceiveMessages E) ReceiveMessages call r)"
  "stays (emits quiet) (handle_lookup E a topic)" "stays (emits quiet) (asleep d)"
proof -
  show "stays (emits quiet) (handle_lookup E a topic)"
    by (rule handle_lookup_keeps(2)) (use is_lookup_call_is_lookup in auto)
qed (rule stays_rules, simp add: quiet_def)+

lemma tc_serves_parts [stays_rules]:
  "stays tc_serves tc_next_id" "stays tc_serves tc_headers" "stays tc_serves tc_connect"
  "stays tc_serves (tc_lookup_new_broker E)" "stays tc_serves (tc_subscribed resp)"
  "stays tc_serves (connected_stub what)" "stays tc_serves (pause E rm n)"
  unfolding tc_next_id_def tc_headers_def tc_connect_def tc_lookup_new_broker_def tc_subscribed_def
    connected_stub_def pause_def
  by (auto intro!: tc_serves.steps stays_rules quiet_calls split: option.split)

lemma tc_serves_methods [stays_rules]:
  "stays tc_serves (tc_try_subscribe E)" "stays tc_serves (tc_receive E)"
  unfolding tc_try_subscribe_def tc_receive_def
  by (auto intro!: tc_serves.steps stays_rules quiet_calls split: option.split)

lemma tc_subscribe_serves:
  "rm_ok (tc_retry_manager (fst s)) \<Longrightarrow> tc_serves s (snd (tc_subscribe E s))"
  by (rule tc_retry.start_stays [OF tc_serves.evolution_axioms]) (intro stays_rules)+


section \<open>A consumer that receives\<close>

text \<open>Every registered topic consumer is connected, and the receive tasks work on registered ones.\<close>

definition linked :: "TopicConsumer \<Rightarrow> bool" where
  "linked t \<longleftrightarrow> tc_stub t \<noteq> None \<and> rm_ok (tc_retry_manager t)"

definition serving :: "(string \<times> nat) list \<Rightarrow> string \<Rightarrow> 'w c_state \<Rightarrow> bool" where
  "serving cons sub s \<longleftrightarrow> c_consumers (fst s) = cons \<and> c_subscription (fst s) = sub
     \<and> static_token (snd s)
     \<and> (\<forall>k \<in> snd ` set cons. k < length (c_store (fst s)) \<and> linked (c_store (fst s) ! k))
     \<and> (\<forall>t \<in> set (c_tasks (fst s)). rt_consumer t \<in> snd ` set cons)"

definition serves :: "(string \<times> nat) list \<Rightarrow> string \<Rightarrow> 'w c_state \<Rightarrow> 'w c_state \<Rightarrow> bool" where
  "serves cons sub s s' \<longleftrightarrow>
     (serving cons sub s \<longrightarrow> serving cons sub s' \<and> sends [] (snd s) (snd s') \<and> grows (snd s) (snd s'))"

interpretation serves: evolution "serves cons sub" for cons sub
  by unfold_locales (auto simp: serves_def intro: sends_none.trans grows.refl grows.trans)

lemma serves_on_tc:
  fixes m :: "('w tc_state, 'a) py"
  assumes k: "k \<in> snd ` set cons"
    and m: "\<And>s. rm_ok (tc_retry_manager (fst s)) \<Longrightarrow> tc_serves s (snd (m s))"
  shows "stays (serves cons sub) (on_tc k m)"
proof (rule staysI)
  fix s :: "'w c_state"
  obtain c w where s: "s = (c, w)" by (meson surj_pair)
  obtain r t' w' where run: "m (c_store c ! k, w) = (r, (t', w'))" by (metis surj_pair)
  have end': "snd (on_tc k m s) = (c\<lparr>c_store := (c_store c)[k := t']\<rparr>, w')"
    by (simp add: s on_tc_def run)
  show "serves cons sub s (snd (on_tc k m s))"
    unfolding serves_def end'
  proof (intro impI)
    assume inv: "serving cons sub s"
    then have link: "linked (c_store c ! k)" using k by (auto simp: serving_def s)
    have t: "tc_serves (c_store c ! k, w) (t', w')"
      using m [of "(c_store c ! k, w)"] link run by (simp add: linked_def)
    then have "linked t'" and g: "grows w w'" and q: "emits quiet w w'"
      using link by (simp_all add: linked_def tc_serves_def same_def tc_identity_def on_world_def)
    moreover have "static_token w'" using g inv static_token_grows by (auto simp: serving_def s)
    moreover have "linked ((c_store c)[k := t'] ! j)" if "linked (c_store c ! j)" "linked t'" for j
      using that by (cases "k = j"; cases "j < length (c_store c)") (simp_all add: list_update_beyond)
    ultimately have "serving cons sub (c\<lparr>c_store := (c_store c)[k := t']\<rparr>, w')"
      using inv by (simp add: serving_def s)
    with quiet_sends [OF q] show "serving cons sub (c\<lparr>c_store := (c_store c)[k := t']\<rparr>, w')
        \<and> sends [] (snd s) (snd (c\<lparr>c_store := (c_store c)[k := t']\<rparr>, w'))
        \<and> grows (snd s) (snd (c\<lparr>c_store := (c_store c)[k := t']\<rparr>, w'))"
      using g by (simp add: s)
  qed
qed

lemma serves_primitive [stays_rules]:
  fixes m :: "('w World, 'a) py"
  shows "stays (serves cons sub) (get_self f)"
  "stays grows m \<Longrightarrow> stays (emits quiet) m \<Longrightarrow> stays (serves cons sub) (on_snd m)"
proof -
  show "stays (serves cons sub) (get_self f)" unfolding get_self_def by (rule serves.gets)
  show "stays (serves cons sub) (on_snd m)" if m: "stays grows m" "stays (emits quiet) m"
  proof (rule staysI)
    fix s :: "'w c_state"
    obtain c w where s: "s = (c, w)" by (meson surj_pair)
    obtain r w' where run: "m w = (r, w')" by (meson surj_pair)
    from staysD [OF m(1) run] staysD [OF m(2) run]
    have "static_token w \<Longrightarrow> static_token w'" "sends [] w w'" "grows w w'"
      by (auto dest: static_token_grows quiet_sends)
    then show "serves cons sub s (snd (on_snd m s))"
      by (simp add: s run_simps run serves_def serving_def)
  qed
qed

lemma serves_turns:
  assumes "rt_consumer t \<in> snd ` set cons"
  shows "stays (serves cons sub) (resubscribe E t n)" "stays (serves cons sub) (recv_open E t)"
    "stays (serves cons sub) (after_stream E t)" "stays (serves cons sub) (recv_read E t stream)"
proof -
  have sub: "stays (serves cons sub) (on_tc (rt_consumer t) (tc_subscribe E))"
    by (rule serves_on_tc [OF assms tc_subscribe_serves])
  have rec: "stays (serves cons sub) (on_tc (rt_consumer t) (tc_receive E))"
    by (rule serves_on_tc [OF assms]) (rule stays_snd [OF tc_serves_methods(2)])
  show res: "stays (serves cons sub) (resubscribe E t n)" for n
    unfolding resubscribe_def by (intro serves.steps sub)
  show after: "stays (serves cons sub) (after_stream E t)"
    unfolding after_stream_def by (intro serves.steps stays_rules res)
  show "stays (serves cons sub) (recv_open E t)"
    unfolding recv_open_def Let_def by (intro serves.steps stays_rules res rec quiet_calls)
  show "stays (serves cons sub) (recv_read E t stream)"
    unfolding recv_read_def
    by (intro serves.steps stays_rules) (auto intro!: serves.steps after split: option.split)
qed

lemma serves_set_task:
  assumes "rt_consumer (f (c_tasks (fst s) ! i)) = rt_consumer (c_tasks (fst s) ! i)"
    and i: "i < length (c_tasks (fst s))"
  shows "serves cons sub s (set_task i f s)"
proof -
  have "rt_consumer t \<in> snd ` set cons"
    if "\<forall>t \<in> set (c_tasks (fst s)). rt_consumer t \<in> snd ` set cons"
      "t \<in> set ((c_tasks (fst s))[i := f (c_tasks (fst s) ! i)])" for t
    using that assms nth_mem [OF i] by (auto dest!: set_update_subset_insert [THEN subsetD])
  then show ?thesis by (simp add: serves_def serving_def set_task_def grows.refl)
qed

lemma serves_turn:
  assumes "stays (serves cons sub) m" and "stays tc_work m" and "i < length (c_tasks (fst s))"
  shows "serves cons sub s (turn i m s)"
proof -
  obtain r s1 where run: "m s = (r, s1)" by (meson surj_pair)
  have "serves cons sub s s1" by (rule staysD [OF assms(1) run])
  moreover have "c_tasks (fst s1) = c_tasks (fst s)"
    using tc_work_tasks [OF staysD [OF assms(2) run]] by simp
  then have "serves cons sub s1 (turn i m s)"
    using assms(3) run by (auto simp: turn_def split: sum.split prod.split intro!: serves_set_task)
  ultimately show ?thesis by (rule serves.trans)
qed

text \<open>A step of a receive task, and of a health check.\<close>

lemma recv_step_serves:
  assumes "recv_step E i s s'"
  shows "serves cons sub s s'"
proof (unfold serves_def, intro impI)
  assume inv: "serving cons sub s"
  have task: "rt_consumer (c_tasks (fst s) ! i) \<in> snd ` set cons" if "i < length (c_tasks (fst s))"
    using inv nth_mem [OF that] by (auto simp: serving_def)
  have "serves cons sub s s'"
    using assms
  proof cases
    case (open_turn t)
    then show ?thesis
      using serves_turns(2) [of t cons sub E] task by (auto intro!: serves_turn stays_rules)
  next
    case (read_turn t stream)
    then show ?thesis
      using serves_turns(4) [of t cons sub E stream] task by (auto intro!: serves_turn stays_rules)
  next
    case (put_turn t stream m)
    obtain c w where s: "s = (c, w)" by (meson surj_pair)
    let ?s1 = "(c\<lparr>c_queues := (c_queues c)[rt_queue t := c_queues c ! rt_queue t @ [m]]\<rparr>, w)"
    let ?f = "\<lambda>u. u\<lparr>rt_attempts := rt_attempts t, rt_pc := Reading stream\<rparr>"
    have "serves cons sub s ?s1" by (simp add: serves_def serving_def s grows.refl)
    moreover have "serves cons sub ?s1 (set_task i ?f ?s1)"
      using put_turn(2) by (intro serves_set_task) (simp_all add: s)
    moreover have "s' = set_task i ?f ?s1"
      using put_turn(1,3) by (simp add: turn_def recv_put_def run_simps s)
    ultimately show ?thesis using serves.trans by blast
  next
    case (cancelled t)
    then show ?thesis by (auto intro: serves_set_task)
  qed
  with inv show "serving cons sub s' \<and> sends [] (snd s) (snd s') \<and> grows (snd s) (snd s')"
    by (simp add: serves_def)
qed

lemma health_own_quiet: "health_own E i w w' \<Longrightarrow> emits quiet w w'"
proof (erule health_ownE)
  have "stays (emits quiet) (health_round E (tasks w ! i))" "stays (emits quiet) (health_call E (tasks w ! i))"
    by (rule stays_rules, simp)+
  note keeps = stays_snd [OF this(1), of w] stays_snd [OF this(2), of w]
  then show "w' = run_round E i w \<Longrightarrow> emits quiet w w'"
    by (auto simp: run_round_def emits_def split: prod.splits sum.splits)
  show "w' = set_pc i Ended (snd (health_call E (tasks w ! i) w)) \<Longrightarrow> emits quiet w w'"
    using keeps(2) by (simp add: emits_def)
  show "w' = set_pc i AtTop (snd (asleep HEALTH_CHECK_INTERVAL_SECS w)) \<Longrightarrow> emits quiet w w'"
    by (simp add: run_simps emits_def)
qed (simp add: emits_def)

lemma health_own_serves: "health_own E i w w' \<Longrightarrow> serves cons sub (c, w) (c, w')"
  by (auto simp: serves_def serving_def
      dest: health_own_grows health_own_quiet quiet_sends static_token_grows)

end
