(* ===== verification/ScriptContract.thy ===== *)
theory ScriptContract
  imports ScriptRuns
begin

text \<open>
  The contract of a consumer script as a locale: its start leaves a serving consumer and has
  acknowledged nothing, the handling of a message is one acknowledgement if the script accepts
  the message and nothing otherwise. What a whole run has acknowledged follows once for all
  scripts. The interpretations are the scripts of \<open>ExampleConsumers\<close>.
\<close>

section \<open>One acknowledgement\<close>

definition ack_request :: "string \<Rightarrow> StreamMessage \<Rightarrow> AckRequest" where
  "ack_request sub m = \<lparr>ar_request_id = sm_request_id m, ar_msg_id = sm_msg_id m, ar_subscription_name = sub\<rparr>"

definition from_partition :: "(string \<times> nat) list \<Rightarrow> StreamMessage \<Rightarrow> bool" where
  "from_partition cons m \<longleftrightarrow> mi_topic_name (sm_msg_id m) \<in> fst ` set cons"

lemma c_ack_serving:
  assumes inv: "serving cons sub s"
  shows "serving cons sub (snd (c_ack E m s))"
    and "acks (snd (snd (c_ack E m s))) = acks (snd s) @ (if from_partition cons m then [ack_request sub m] else [])"
    and "sent (snd (snd (c_ack E m s))) = sent (snd s)" and "events (snd (snd (c_ack E m s))) = events (snd s)"
proof -
  obtain c w where s: "s = (c, w)" by (meson surj_pair)
  have c: "c_consumers c = cons" "c_subscription c = sub" "static_token w" using inv by (simp_all add: serving_def s)
  have "serving cons sub (snd (c_ack E m s))
      \<and> acks (snd (snd (c_ack E m s))) = acks w @ (if from_partition cons m then [ack_request sub m] else [])
      \<and> sent (snd (snd (c_ack E m s))) = sent w \<and> events (snd (snd (c_ack E m s))) = events w"
  proof (cases "map_of cons (mi_topic_name (sm_msg_id m))")
    case None
    then have "\<not> from_partition cons m" by (simp add: from_partition_def map_of_eq_None_iff)
    with None inv c show ?thesis by (simp add: c_ack_def run_simps s)
  next
    case (Some k)
    then have mem: "(mi_topic_name (sm_msg_id m), k) \<in> set cons" by (rule map_of_SomeD)
    then have "from_partition cons m" unfolding from_partition_def by force
    moreover have "linked (c_store c ! k)" using inv mem by (force simp: serving_def s)
    then obtain ch where ch: "tc_stub (c_store c ! k) = Some ch" by (auto simp: linked_def)
    obtain r x where a: "answer_Ack E (tc_call (c_store c ! k) w ch) (ack_request sub m) (outside w) = (r, x)"
      by (meson surj_pair)
    have "snd (c_ack E m s) =
        (c, w\<lparr>trace := trace w @ [Rpc (tc_call (c_store c ! k) w ch) (Ack (ack_request sub m))], outside := x\<rparr>)"
      using tc_send_ack_run [OF c(3) ch ack_request_def a] c Some
      by (cases r) (simp_all add: c_ack_def run_simps on_tc_def s)
    ultimately show ?thesis
      using inv by (simp add: serving_def s acks_def sent_def map_filter_def static_token_def)
  qed
  then show "serving cons sub (snd (c_ack E m s))"
    "acks (snd (snd (c_ack E m s))) = acks (snd s) @ (if from_partition cons m then [ack_request sub m] else [])"
    "sent (snd (snd (c_ack E m s))) = sent (snd s)" "events (snd (snd (c_ack E m s))) = events (snd s)"
    by (simp_all add: s)
qed

section \<open>Closing\<close>

lemma tc_stop_serves: "stays tc_serves tc_stop"
  unfolding tc_stop_def by (auto intro!: tc_serves.steps stays_rules split: option.split)

lemma c_close_serves: "serves cons sub s (snd (c_close s))"
proof (unfold serves_def, intro impI)
  assume inv: "serving cons sub s"
  obtain c w where s: "s = (c, w)" by (meson surj_pair)
  have cons: "c_consumers c = cons" using inv by (simp add: serving_def s)
  let ?rest = "seq (on_snd (set_event (c_shutdown c))) (
     bnd (for_each (\<lambda>tc. on_tc tc tc_stop) (map snd cons)) (\<lambda>_.
     seq (set_self (\<lambda>c. c\<lparr>c_tasks := map (\<lambda>t. t\<lparr>rt_cancelled := True\<rparr>) (c_tasks c)\<rparr>)) (
     on_snd (asleep GRACEFUL_CLOSE_DELAY_SECS))))"
  have eq: "c_close s = ?rest s" by (simp add: s c_close_def run_simps cons)
  have "stays (serves cons sub) ?rest"
  proof -
    have "stays (serves cons sub) (for_each (\<lambda>tc. on_tc tc tc_stop) (map snd cons))"
      by (rule serves.for_each) (auto intro!: serves_on_tc stays_snd [OF tc_stop_serves])
    moreover have "stays (serves cons sub)
        (set_self (\<lambda>c. c\<lparr>c_tasks := map (\<lambda>t. t\<lparr>rt_cancelled := True\<rparr>) (c_tasks c)\<rparr>))"
      unfolding set_self_def by (rule stays_modify) (simp add: serves_def serving_def grows.refl)
    moreover have "stays (serves cons sub) (on_snd (set_event (c_shutdown c)))"
      by (rule serves_primitive) (rule event_keeps)+
    moreover have "stays (serves cons sub) (on_snd (asleep GRACEFUL_CLOSE_DELAY_SECS))"
      by (rule serves_primitive) (rule asleep_keeps quiet_calls)+
    ultimately show ?thesis by (intro serves.seq serves.bnd)
  qed
  then have "serves cons sub s (snd (c_close s))" unfolding eq by (rule stays_snd)
  with inv show "serving cons sub (snd (c_close s)) \<and> sends [] (snd s) (snd (snd (c_close s)))
      \<and> grows (snd s) (snd (snd (c_close s)))"
    by (simp add: serves_def)
qed

text \<open>\<open>close\<close> clears no event.\<close>

definition sticky :: "'w World \<Rightarrow> 'w World \<Rightarrow> bool" where
  "sticky v w \<longleftrightarrow> (\<forall>i. is_set i v \<longrightarrow> is_set i w)"

interpretation sticky: evolution "on_world sticky"
  by unfold_locales (simp_all add: on_world_def sticky_def)

lemma sticky_primitive [stays_rules]:
  "stays sticky (set_event i)" "stays sticky (cancel_task j)" "stays sticky (asleep d)"
  "stays (on_world sticky) (get_self f)" "stays (on_world sticky) (set_self g)"
  by (auto intro!: staysI simp: set_event_def cancel_task_def run_simps sticky_def on_world_def is_set_def set_stays
      get_self_def set_self_def split: prod.splits if_splits)

lemma on_world_on_tc: "stays (on_world R) m \<Longrightarrow> stays (on_world R) (on_tc k m)"
  by (rule staysI) (auto simp: on_world_def on_tc_def split: prod.split dest: staysD)

lemma c_close_sticky: "sticky (snd s) (snd (snd (c_close s)))"
proof -
  have "stays (on_world sticky) tc_stop"
    unfolding tc_stop_def by (auto intro!: sticky.steps stays_rules split: option.split)
  then have "stays (on_world sticky) c_close"
    unfolding c_close_def
    by (intro sticky.bnd sticky.seq sticky.for_each on_world_on_tc sticky_primitive on_world_on_snd)
  from stays_snd [OF this] show ?thesis by (simp add: on_world_def)
qed

section \<open>The start of a script\<close>

lemma build_consumer_run:
  assumes "topic \<noteq> ''''" and "name \<noteq> ''''" and "sub \<noteq> ''''"
  obtains c w' where "build_consumer topic name sub ty filters w = (Inr c, w')"
    and "grows w w'" and "trace w' = trace w" and "c_subscription c = sub" and "c_consumers c = []"
    and "c_tasks c = []" and "c_store c = []" and "c_queues c = []" and "events w' = events w @ [False]"
proof -
  let ?b0 = "\<lparr>cb_topic = topic, cb_consumer_name = name, cb_subscription = sub, cb_subscription_type = ty,
     cb_options = default_ConsumerOptions, cb_key_filters = length (lists w)\<rparr>"
  have filters: "\<exists>us w2. for_each cb_with_key_filter fs (?b0, w1) = (Inr us, (?b0, w2)) \<and> grows w1 w2 \<and> trace w2 = trace w1
      \<and> events w2 = events w1"
    for fs w1
  proof (induction fs arbitrary: w1)
    case (Cons f fs)
    let ?w = "w1\<lparr>lists := (lists w1)[length (lists w) := list_at (length (lists w)) w1 @ [f]]\<rparr>"
    have "cb_with_key_filter f (?b0, w1) = (Inr (), (?b0, ?w))"
      by (simp add: cb_with_key_filter_def run_simps)
    moreover have "grows w1 ?w" by (simp add: grows_def)
    moreover obtain us w2 where "for_each cb_with_key_filter fs (?b0, ?w) = (Inr us, (?b0, w2))"
      "grows ?w w2" "trace w2 = trace ?w"
      "events w2 = events ?w" using Cons.IH by blast
    ultimately show ?case by (auto simp: run_simps intro: grows.trans)
  qed (simp add: run_simps grows.refl)
  let ?w1 = "w\<lparr>lists := lists w @ [[]]\<rparr>"
  obtain us w2 where fs: "for_each cb_with_key_filter filters (?b0, ?w1) = (Inr us, (?b0, w2))"
    and g2: "grows ?w1 w2" and t2: "trace w2 = trace ?w1" "events w2 = events ?w1" using filters by blast
  obtain fl w3 where fl: "list_or_new (Some (length (lists w))) w2 = (Inr fl, w3)" "grows w2 w3" "trace w3 = trace w2"
    by (rule list_or_new_run)
  have ev: "events w3 = events w2"
    using fl(1) by (auto simp: list_or_new_def run_simps split: if_splits)
  let ?w4 = "w3\<lparr>events := events w3 @ [False]\<rparr>"
  have "grows w ?w1" "grows w3 ?w4" by (simp_all add: grows_def)
  then have "grows w ?w4" using g2 fl(2) by (blast intro: grows.trans)
  moreover define c where "c =
      \<lparr>c_topic_name = topic, c_consumer_name = name, c_subscription = sub, c_subscription_type = ty,
       c_options = default_ConsumerOptions, c_key_filters = fl, c_consumers = [],
       c_shutdown = length (events w3), c_tasks = [], c_store = [], c_queues = []\<rparr>"
  moreover have "build_consumer topic name sub ty filters w = (Inr c, ?w4)"
    using assms fs fl(1)
    by (simp add: c_def build_consumer_def new_consumer_def new_ConsumerBuilder_def inside_def cb_with_topic_def
        cb_with_consumer_name_def cb_with_subscription_def cb_with_subscription_type_def cb_build_def
        new_Consumer_def run_simps)
  ultimately show ?thesis using t2 fl(3) ev by (intro that [of c ?w4]) simp_all
qed

lemma subscribe_one_quiet: "emits quiet (snd s) (snd (snd (subscribe_one E part s)))"
proof -
  obtain c w where s: "s = (c, w)" by (meson surj_pair)
  obtain t w1 where "trace w1 = trace w"
    and ident: "tc_identity t = (part, c_consumer_name c, c_subscription c, int_SubType (c_subscription_type c),
       tc_key_filters t, c_retry_of (c_options c), tc_stop_event t)"
    and one: "subscribe_one E part (c, w) = (case tc_subscribe E (t, w1) of (r, (t', w2)) \<Rightarrow>
       (case r of Inl e \<Rightarrow> Inl e | Inr _ \<Rightarrow> Inr (part, length (c_store c)),
        (c\<lparr>c_store := c_store c @ [t']\<rparr>, w2)))"
    using subscribe_one_run [of w part c E] by blast
  moreover obtain r t' w2 where sub: "tc_subscribe E (t, w1) = (r, (t', w2))" by (metis surj_pair)
  moreover have "rm_ok (tc_retry_manager t)" using ident by (simp add: tc_identity_def)
  then have "emits quiet w1 w2"
    using tc_subscribe_serves [of "(t, w1)" E] sub by (simp add: tc_serves_def on_world_def)
  ultimately show ?thesis by (simp add: s emits_def)
qed

text \<open>What every \<open>subscribe\<close> of a partition does to the world, the \<open>subscribe\<close> of the consumer does.\<close>

lemma c_subscribe_evolves:
  assumes "evolution R" and "\<And>a topic. stays R (topic_partitions E a topic)"
    and "\<And>part s. R (snd s) (snd (snd (subscribe_one E part s)))"
    and "\<And>n. schedule (order n) n" and "c_subscribe E order (c, w) = (r, (c', w'))"
  shows "R w w'"
proof -
  obtain r1 w1 where parts: "topic_partitions E (uri w) (c_topic_name c) w = (r1, w1)" by (meson surj_pair)
  note refl = evolution.refl [OF assms(1)] and trans = evolution.trans [OF assms(1)]
  from staysD [OF assms(2) parts] have q1: "R w w1" .
  show ?thesis
  proof (cases r1)
    case (Inl e)
    with assms(5) parts q1 show ?thesis by (simp add: c_subscribe_def run_simps)
  next
    case (Inr ps)
    obtain r2 c2 w2 where g: "gather (order (length ps)) (map (subscribe_one E) ps) (c, w1) = (r2, (c2, w2))"
      by (metis surj_pair)
    then obtain e xs where run: "gather_run (order (length ps)) (\<lambda>i. map (subscribe_one E) ps ! i) (c, w1) = ((e, xs), (c2, w2))"
      by (rule gather_cases)
    have sched: "distinct (order (length ps))" "set (order (length ps)) \<subseteq> {..<length ps}"
      using assms(4) [of "length ps"] by (auto simp: schedule_def)
    have turn: "R w1 (snd s1)"
      if "i < length ps" "R w1 (snd s)" "(map (subscribe_one E) ps ! i) s = (r, s1)" for i s r s1
      using assms(3) [of s "ps ! i"] that by (auto intro: trans)
    have "R w1 (snd (c2, w2)) \<and> dom xs \<subseteq> set (order (length ps))
        \<and> (e = None \<longrightarrow> dom xs = set (order (length ps)))"
      by (rule gather_run_invar [OF run sched(1), where P = "\<lambda>m s. R w1 (snd s)" and m = Map.empty
            and I = "{..<length ps}"])
         (use sched turn in \<open>auto simp: refl\<close>)
    moreover have "w' = w2" using assms(5) parts g Inr
      by (auto simp: c_subscribe_def run_simps split: sum.splits if_splits)
    ultimately show ?thesis using q1 by (auto intro: trans)
  qed
qed

lemma c_subscribe_quiet:
  assumes "\<And>n. schedule (order n) n" and "c_subscribe E order (c, w) = (r, (c', w'))"
  shows "emits quiet w w'"
proof (rule c_subscribe_evolves [OF emits.evolution_axioms _ _ assms])
  show "stays (emits quiet) (topic_partitions E a topic)" for a topic
    by (rule topic_partitions_keeps(3)) (simp add: quiet_def)
qed (rule subscribe_one_quiet)

text \<open>After \<open>subscribe\<close> and \<open>receive\<close> on a new consumer.\<close>

lemma listen_from_serving:
  assumes order: "\<And>n. schedule (order n) n" and "listen_from E order c w = (r, w')"
    and fresh: "c_consumers c = []" "c_tasks c = []" "c_store c = []" and static: "static_token w"
  shows "sends [] w w'" and "grows w w'"
    and "r = Inr (q, c') \<Longrightarrow> serving (c_consumers c') (c_subscription c) (c', w')"
proof -
  obtain r1 c1 w1 where sub: "c_subscribe E order (c, w) = (r1, (c1, w1))" by (metis surj_pair)
  have w': "w' = w1" using assms(2) sub
    by (cases r1) (simp_all add: listen_from_def inside_def run_simps)
  from c_subscribe_quiet [OF order sub] show "sends [] w w'" by (simp add: w' quiet_sends)
  obtain st cons where c1: "c1 = c\<lparr>c_store := st, c_consumers := cons\<rparr>" and g: "grows w w1"
    and all: "cons = c_consumers c \<or> (\<forall>(part, k) \<in> set cons. k < length st \<and> tc_for c part (st ! k) w1)"
    using c_subscribe_shape [OF order sub] by blast
  from g show "grows w w'" by (simp add: w')
  assume r: "r = Inr (q, c')"
  then obtain u where ok: "r1 = Inr u" using assms(2) sub
    by (cases r1) (simp_all add: listen_from_def inside_def run_simps)
  have c': "c' = c1\<lparr>c_queues := c_queues c1 @ [[]], c_tasks := c_tasks c1
          @ map (receive_task c1 (length (c_queues c1)) \<circ> snd) (c_consumers c1)\<rparr>"
    using assms(2) sub r ok by (auto simp: listen_from_def inside_def run_simps)
  have "k < length st \<and> linked (st ! k)" if "(part, k) \<in> set cons" for part k
    using all that fresh(1) by (auto simp: tc_for_def linked_def tc_ready_def)
  then show "serving (c_consumers c') (c_subscription c) (c', w')"
    using static_token_grows [OF g static] fresh(2)
    by (auto simp: serving_def c' c1 w' receive_task_def)
qed

lemma example_client_facts: "static_token (example_client x)" "trace (example_client x) = []" "acks (example_client x) = []"
  by (simp_all add: example_client_def build_client_def service_url_def run_simps new_DanubeClientBuilder_def
      new_World_def static_token_def new_ConnectionManager_def default_ConnectionOptions_def acks_def map_filter_def)

text \<open>The start of the scripts that begin with their consumer.\<close>

lemma consumer_start:
  assumes order: "\<And>n. schedule (order n) n" and names: "topic \<noteq> ''''" "name \<noteq> ''''" "sub \<noteq> ''''"
    and "static_token w"
    and "bnd (build_consumer topic name sub ty filters) (listen_from E order) w = (r, w')"
  shows "sends [] w w'" and "grows w w'"
    and "r = Inr (q, c) \<Longrightarrow> serving (c_consumers c) sub (c, w')"
proof -
  obtain c0 w0 where build: "build_consumer topic name sub ty filters w = (Inr c0, w0)" "grows w w0"
    "trace w0 = trace w" "c_subscription c0 = sub" "c_consumers c0 = []" "c_tasks c0 = []" "c_store c0 = []"
    using build_consumer_run [OF names] by metis
  have listen: "listen_from E order c0 w0 = (r, w')" using assms(6) build(1) by (simp add: run_simps)
  note facts = listen_from_serving [OF order listen build(5-7) static_token_grows [OF build(2) assms(5)]]
  from sends_nothing [OF build(3)] facts(1) show "sends [] w w'" by (rule sends_none.trans)
  from build(2) facts(2) show "grows w w'" by (rule grows.trans)
  show "r = Inr (q, c) \<Longrightarrow> serving (c_consumers c) sub (c, w')" using facts(3) build(4) by simp
qed

section \<open>The contract\<close>

definition world_of :: "('w, 'l) script_state \<Rightarrow> 'w World" where
  "world_of st = (case st of NotStarted e w \<Rightarrow> w | Listening q l s \<Rightarrow> snd s | Over r s \<Rightarrow> snd s)"

text \<open>The partitions the consumer of a script is registered for.\<close>

definition registered :: "('w, 'l) script_state \<Rightarrow> (string \<times> nat) list" where
  "registered st = (case st of NotStarted e w \<Rightarrow> [] | Listening q l s \<Rightarrow> c_consumers (fst s)
     | Over r s \<Rightarrow> c_consumers (fst s))"

lemma script_end_over [simp]: "script_end r s \<noteq> Listening q l s'"
  by (simp add: script_end_def split: prod.split sum.split)

locale acking =
  fixes E :: "'w Outside" and scr :: "('w, 'l) consumer_script"
    and order :: "nat \<Rightarrow> nat list" and accepts :: "StreamMessage \<Rightarrow> bool" and sub :: string and x :: 'w
  assumes accepted: "accepts m \<Longrightarrow> snd (cs_body scr l m s) = snd (c_ack E m s)"
    and rejected: "\<not> accepts m \<Longrightarrow> snd (cs_body scr l m s) = s"
    and started: "(\<And>n. schedule (order n) n) \<Longrightarrow> cs_start scr (example_client x) = (Inr (q, c), w) \<Longrightarrow> serving (c_consumers c) sub (c, w)"
    and no_ack: "(\<And>n. schedule (order n) n) \<Longrightarrow> cs_start scr (example_client x) = (r, w) \<Longrightarrow> acks w = []"
begin

definition acked :: "StreamMessage list \<Rightarrow> ('w, 'l) script_state \<Rightarrow> bool" where
  "acked taken st \<longleftrightarrow> acks (world_of st) =
     map (ack_request sub) (filter (\<lambda>m. accepts m \<and> from_partition (registered st) m) taken)"

lemma ended:
  assumes "serving (c_consumers (fst s)) sub s"
    and "acks (snd s) = map (ack_request sub) (filter (\<lambda>m. accepts m \<and> from_partition (c_consumers (fst s)) m) taken)"
  shows "acked taken (script_end r s)"
proof -
  from c_close_serves [of "c_consumers (fst s)" sub s] assms(1)
  have "serving (c_consumers (fst s)) sub (snd (c_close s))" "acks (snd (snd (c_close s))) = acks (snd s)"
    by (simp_all add: serves_def sends_def)
  then have "c_consumers (fst (snd (c_close s))) = c_consumers (fst s)" "acks (snd (snd (c_close s))) = acks (snd s)"
    by (simp_all add: serving_def)
  with assms(2) show ?thesis
    by (auto simp: script_end_def acked_def world_of_def registered_def split: prod.split sum.split)
qed

lemma handled:
  assumes inv: "serving (c_consumers (fst s)) sub s"
    and acks: "acks (snd s) = map (ack_request sub) (filter (\<lambda>m. accepts m \<and> from_partition (c_consumers (fst s)) m) taken)"
    and run: "cs_body scr l m ((fst s)\<lparr>c_queues := qs\<rparr>, snd s) = (r, s1)"
  shows "serving (c_consumers (fst s1)) sub s1 \<and> c_consumers (fst s1) = c_consumers (fst s)
    \<and> acks (snd s1) = map (ack_request sub)
        (filter (\<lambda>m. accepts m \<and> from_partition (c_consumers (fst s)) m) (taken @ [m]))"
proof -
  let ?s0 = "((fst s)\<lparr>c_queues := qs\<rparr>, snd s)"
  have inv0: "serving (c_consumers (fst s)) sub ?s0" using inv by (simp add: serving_def)
  have s1: "s1 = (if accepts m then snd (c_ack E m ?s0) else ?s0)"
    using accepted [of m l ?s0] rejected [of m l ?s0] run by auto
  have "serving (c_consumers (fst s)) sub s1"
    using c_ack_serving(1) [OF inv0] inv0 by (simp add: s1)
  moreover have "acks (snd s1) = acks (snd s) @
      (if accepts m \<and> from_partition (c_consumers (fst s)) m then [ack_request sub m] else [])"
    using c_ack_serving(2) [OF inv0, of E m] by (simp add: s1)
  ultimately show ?thesis using acks by (auto simp: serving_def)
qed

definition good :: "StreamMessage list \<Rightarrow> ('w, 'l) script_state \<Rightarrow> bool" where
  "good taken st \<longleftrightarrow> acked taken st
     \<and> (case st of Listening q l s \<Rightarrow> serving (c_consumers (fst s)) sub s | _ \<Rightarrow> True)"

lemma good_listening: "good taken (Listening q l s) \<longleftrightarrow> serving (c_consumers (fst s)) sub s
    \<and> acks (snd s) = map (ack_request sub)
        (filter (\<lambda>m. accepts m \<and> from_partition (c_consumers (fst s)) m) taken)"
  by (auto simp: good_def acked_def world_of_def registered_def)

lemma good_over: "(\<And>q l s. st \<noteq> Listening q l s) \<Longrightarrow> good taken st \<longleftrightarrow> acked taken st"
  by (cases st) (auto simp: good_def)

lemma good_end: "good taken (Listening q l s) \<Longrightarrow> good taken (script_end r s)"
  unfolding good_listening by (subst good_over) (rule script_end_over, blast intro: ended)

lemma good_serves:
  assumes "good taken (Listening q l s)" and "serves (c_consumers (fst s)) sub s s'"
  shows "good taken (Listening q l s')"
  using assms by (simp add: good_listening serves_def sends_def) (simp add: serving_def)

lemma run_good:
  assumes order: "\<And>n. schedule (order n) n"
  shows "script_run E scr (script_start scr x) taken st \<Longrightarrow> good taken st"
proof (induction rule: script_run.induct)
  case start
  obtain r w where "cs_start scr (example_client x) = (r, w)" by (meson surj_pair)
  with started [OF order] no_ack [OF order] show ?case
    by (cases r) (auto simp: script_start_def good_listening good_def acked_def world_of_def registered_def
        split: prod.split)
next
  case (message taken q l s m ms)
  obtain r s1 where run: "cs_body scr l m ((fst s)\<lparr>c_queues := (c_queues (fst s))[q := ms]\<rparr>, snd s) = (r, s1)"
    by (meson surj_pair)
  have "good (taken @ [m]) (Listening q' l' s1)" for q' l'
  proof -
    have inv: "serving (c_consumers (fst s)) sub s"
      and acks: "acks (snd s) = map (ack_request sub)
        (filter (\<lambda>m. accepts m \<and> from_partition (c_consumers (fst s)) m) taken)"
      using message.IH by (simp_all only: good_listening)
    note s1 = handled [OF inv acks run]
    then show ?thesis unfolding good_listening s1 [THEN conjunct2, THEN conjunct1] by blast
  qed
  with run good_end show ?case by (simp add: script_take_def split: sum.split)
next
  case (interrupt taken q l s)
  then show ?case by (intro good_end)
next
  case (receiving taken q l s i s')
  with good_serves [OF receiving.IH recv_step_serves] show ?case by blast
next
  case (health taken q l c w i w')
  from good_serves [OF health.IH health_own_serves] health.hyps show ?case by simp
qed

text \<open>Handling a message does not change where the consumer is registered.\<close>

lemma take_registered:
  assumes "\<And>n. schedule (order n) n" and "script_run E scr (script_start scr x) taken (Listening q l s)"
  shows "registered (script_take scr q l m ms s) = c_consumers (fst s)"
proof -
  obtain r s1 where run: "cs_body scr l m ((fst s)\<lparr>c_queues := (c_queues (fst s))[q := ms]\<rparr>, snd s) = (r, s1)"
    by (meson surj_pair)
  have "good taken (Listening q l s)" by (rule run_good [OF assms])
  then have inv: "serving (c_consumers (fst s)) sub s"
    and acks: "acks (snd s) = map (ack_request sub)
      (filter (\<lambda>m. accepts m \<and> from_partition (c_consumers (fst s)) m) taken)"
    by (simp_all only: good_listening)
  note s1 = handled [OF inv acks run]
  have "registered (script_end e s1 :: ('w, 'l) script_state) = c_consumers (fst s1)" for e
    using c_close_serves [of "c_consumers (fst s1)" sub s1] s1
    by (auto simp: script_end_def registered_def serves_def serving_def split: prod.split sum.split)
  with s1 show ?thesis by (auto simp: script_take_def run registered_def split: sum.split)
qed

text \<open>What a run has acknowledged.\<close>

theorem run_acks:
  assumes "\<And>n. schedule (order n) n" and "script_run E scr (script_start scr x) taken st"
  shows "acks (world_of st) =
     map (ack_request sub) (filter (\<lambda>m. accepts m \<and> from_partition (registered st) m) taken)"
  using run_good [OF assms] by (simp add: good_def acked_def)

end

section \<open>The scripts keep the contract\<close>

definition avro_complete :: "json \<Rightarrow> bool" where
  "avro_complete v \<longleftrightarrow> (\<exists>ps. v = JObj ps \<and> {''user_id'', ''action'', ''timestamp''} \<subseteq> fst ` set ps)"

definition json_decodes :: "(json \<Rightarrow> bool) \<Rightarrow> StreamMessage \<Rightarrow> bool" where
  "json_decodes P m \<longleftrightarrow> (case loads (sm_payload m) of Inl _ \<Rightarrow> False | Inr v \<Rightarrow> P v)"

definition text_decodes :: "StreamMessage \<Rightarrow> bool" where
  "text_decodes m \<longleftrightarrow> (case decode_utf8 (sm_payload m) of Inl _ \<Rightarrow> False | Inr _ \<Rightarrow> True)"

lemma decoded_or_not:
  "json_decodes P m \<longleftrightarrow> (\<exists>v. loads (sm_payload m) = Inr v \<and> P v)"
  "text_decodes m \<longleftrightarrow> (\<exists>t. decode_utf8 (sm_payload m) = Inr t)"
  by (simp_all add: json_decodes_def text_decodes_def split: sum.split)

text \<open>A script that begins with its consumer.\<close>

lemma acking_script:
  fixes E :: "'w Outside" and scr :: "('w, 'l) consumer_script"
  assumes start: "cs_start scr = bnd (build_consumer topic name sub ty filters) (listen_from E order)"
    and names: "topic \<noteq> ''''" "name \<noteq> ''''" "sub \<noteq> ''''"
    and "\<And>l m s. accepts m \<Longrightarrow> snd (cs_body scr l m s) = snd (c_ack E m s)"
    and "\<And>l m s. \<not> accepts m \<Longrightarrow> snd (cs_body scr l m s) = s"
  shows "acking E scr order accepts sub x"
proof
  assume order: "\<And>n. schedule (order n) n"
  fix q c w r
  note run = consumer_start [OF order names example_client_facts(1), of ty filters E x]
  show "cs_start scr (example_client x) = (Inr (q, c), w) \<Longrightarrow> serving (c_consumers c) sub (c, w)"
    unfolding start by (rule run(3)) simp_all
  show "cs_start scr (example_client x) = (r, w) \<Longrightarrow> acks w = []"
    unfolding start using run(1) by (simp add: example_client_facts sends_def)
qed (simp_all add: assms(5,6))

lemmas body_simps = catch_some_def run_simps decoded_or_not

interpretation json_script: acking E "json_consumer E order" order "json_decodes (\<lambda>v. True)" "''subs_json''" x
  by (rule acking_script)
     (auto simp: json_consumer_def body_simps split: sum.splits prod.splits)

interpretation key_shared_script: acking E "key_shared_consumer E order" order text_decodes "''sub_key_shared''" x
  by (rule acking_script)
     (auto simp: key_shared_consumer_def body_simps split: sum.splits prod.splits)

interpretation filtered_script: acking E "key_shared_filtered_consumer E order" order text_decodes "''sub_key_shared''" x
  by (rule acking_script)
     (auto simp: key_shared_filtered_consumer_def body_simps split: sum.splits prod.splits)

interpretation partitions_script: acking E "partitions_consumer E order" order text_decodes "''subs_part''" x
  by (rule acking_script)
     (auto simp: partitions_consumer_def body_simps split: sum.splits prod.splits)

interpretation reliable_script: acking E "reliable_dispatch_consumer E order" order text_decodes "''subs_reliable''" x
  by (rule acking_script)
     (auto simp: reliable_dispatch_consumer_def Let_def body_simps split: sum.splits prod.splits)

lemma item_ok: "(case item v key of Inl _ \<Rightarrow> False | Inr _ \<Rightarrow> True) \<longleftrightarrow> (\<exists>ps. v = JObj ps \<and> key \<in> fst ` set ps)"
  by (cases v) (auto split: option.split simp: map_of_eq_None_iff dest: map_of_SomeD intro: rev_image_eqI)

lemma get_item_ok: "(case get_item v key of Inl _ \<Rightarrow> False | Inr _ \<Rightarrow> True) \<longleftrightarrow> (\<exists>ps. v = JObj ps)"
  by (cases v) auto

lemma avro_body:
  fixes s :: "'w c_state"
  shows "snd (cs_body (avro_consumer E order) l m s) =
     (if json_decodes avro_complete m then snd (c_ack E m s) else s)"
proof (cases "loads (sm_payload m)")
  case (Inr v)
  have complete: "avro_complete v \<longleftrightarrow> (case item v ''user_id'' of Inl _ \<Rightarrow> False | Inr _ \<Rightarrow> True)
      \<and> (case item v ''action'' of Inl _ \<Rightarrow> False | Inr _ \<Rightarrow> True)
      \<and> (case item v ''timestamp'' of Inl _ \<Rightarrow> False | Inr _ \<Rightarrow> True)"
    unfolding item_ok avro_complete_def by blast
  have object: "avro_complete v \<Longrightarrow> (case get_item v ''metadata'' of Inl _ \<Rightarrow> False | Inr _ \<Rightarrow> True)"
    unfolding get_item_ok avro_complete_def by blast
  show ?thesis using complete object Inr
    by (cases "item v ''user_id''"; cases "item v ''action''"; cases "item v ''timestamp''";
        cases "get_item v ''metadata''")
       (auto simp: avro_consumer_def body_simps is_KeyError_def split: sum.splits prod.splits)
qed (simp add: avro_consumer_def json_decodes_def catch_some_def run_simps)

interpretation avro_script: acking E "avro_consumer E order" order "json_decodes avro_complete"
    "''user_events_subscription''" x
proof (rule acking_script)
  show "cs_start (avro_consumer E order) = bnd (build_consumer ''/default/user_events'' ''user_events_consumer''
      ''user_events_subscription'' EXCLUSIVE []) (listen_from E order)" by (simp add: avro_consumer_def)
qed (simp_all add: avro_body)

text \<open>The validated script asks the registry for the schema before it builds its consumer.\<close>

definition json_object :: "json \<Rightarrow> bool" where
  "json_object v \<longleftrightarrow> (\<exists>ps. v = JObj ps)"

lemma validate_run:
  assumes "validate_dict_against_registry E iter_errors subject sample w = (r, w')"
  shows "grows w w'" and "emits quiet w w'"
proof -
  have "stays grows (validate_dict_against_registry E iter_errors subject sample)"
    and "stays (emits quiet) (validate_dict_against_registry E iter_errors subject sample)"
    by (auto simp: validate_dict_against_registry_def intro!: world_methods stays_rules)
  then show "grows w w'" "emits quiet w w'" using assms by (simp_all add: staysD)
qed

lemma validated_script:
  fixes E :: "'w Outside"
  shows "acking E (json_consumer_validated E iter_errors order) order (json_decodes json_object) ''subs_json_validated'' x"
proof
  fix m l and s :: "'w c_state"
  show "json_decodes json_object m \<Longrightarrow>
      snd (cs_body (json_consumer_validated E iter_errors order) l m s) = snd (c_ack E m s)"
    by (auto simp: json_consumer_validated_def json_object_def body_simps split: sum.splits prod.splits)
  show "\<not> json_decodes json_object m \<Longrightarrow> snd (cs_body (json_consumer_validated E iter_errors order) l m s) = s"
    by (auto simp: json_consumer_validated_def json_object_def body_simps elim!: get_item.elims
        split: sum.splits prod.splits)
next
  assume order: "\<And>n. schedule (order n) n"
  fix q c w r
  let ?sample = "JObj [(''field1'', JStr ''validation_test''), (''field2'', JInt 0)]"
  obtain r1 w1 where val: "validate_dict_against_registry E iter_errors ''my-app-events'' ?sample (example_client x) = (r1, w1)"
    by (meson surj_pair)
  note w1 = validate_run [OF this]
  have static: "static_token w1" and quiet: "acks w1 = []"
    using static_token_grows [OF w1(1)] quiet_acks [OF w1(2)] by (simp_all add: example_client_facts)
  note run = consumer_start [OF order _ _ _ static]
  show "cs_start (json_consumer_validated E iter_errors order) (example_client x) = (Inr (q, c), w) \<Longrightarrow>
      serving (c_consumers c) ''subs_json_validated'' (c, w)"
    by (cases r1) (auto simp: json_consumer_validated_def bnd_run val intro!: run(3))
  show "cs_start (json_consumer_validated E iter_errors order) (example_client x) = (r, w) \<Longrightarrow> acks w = []"
  proof (cases r1)
    case (Inr v)
    assume "cs_start (json_consumer_validated E iter_errors order) (example_client x) = (r, w)"
    then have "bnd (build_consumer ''/default/test_topic'' ''cons_json_validated'' ''subs_json_validated'' EXCLUSIVE [])
        (listen_from E order) w1 = (r, w)"
      by (simp add: json_consumer_validated_def bnd_run [of "validate_dict_against_registry E i u p" for i u p] val Inr)
    from run(1) [OF _ _ _ this] quiet show "acks w = []" by (simp add: sends_def)
  qed (use quiet in \<open>auto simp: json_consumer_validated_def bnd_run val\<close>)
qed

interpretation validated_script: acking E "json_consumer_validated E iter_errors order" order
    "json_decodes json_object" "''subs_json_validated''" x
  by (rule validated_script)

end
