(* ===== verification/ScriptDelivery.thy ===== *)
theory ScriptDelivery
  imports ScriptContract Scenario
begin

text \<open>
  How a message reaches a consumer script: from a script that has just started to the message in
  its queue, over the turns of the receive task. A broker that accepts the subscription, opens the
  stream and has a message gives a run in which the script takes that message.
\<close>

section \<open>A start sets no event\<close>

definition idle :: "'w World \<Rightarrow> 'w World \<Rightarrow> bool" where
  "idle v w \<longleftrightarrow> (True \<notin> set (events v) \<longrightarrow> True \<notin> set (events w))"

interpretation idle: evolution idle
  by unfold_locales (simp_all add: idle_def)

lemma idle_events: "stays (same events) m \<Longrightarrow> stays idle m"
  by (erule stays_mono) (simp add: idle_def same_def)

lemma not_set: "True \<notin> set (events w) \<Longrightarrow> \<not> is_set i w"
  by (auto simp: is_set_def dest: nth_mem)

lemma subscribe_one_idle: "idle (snd s) (snd (snd (subscribe_one E part s)))"
proof -
  obtain c w where s: "s = (c, w)" by (meson surj_pair)
  have new: "stays idle (new_TopicConsumer part (c_consumer_name c) (c_subscription c)
      (int_SubType (c_subscription_type c)) (Some (c_key_filters c)) (co_max_retries (c_options c))
      (co_base_backoff_ms (c_options c)) (co_max_backoff_ms (c_options c)))"
    unfolding new_TopicConsumer_def list_or_new_def new_list_def new_event_def
    by (rule staysI) (auto simp: run_simps idle_def split: option.splits if_splits)
  obtain fl w0 where fl: "list_or_new (Some (c_key_filters c)) w = (Inr fl, w0)"
    by (rule list_or_new_run)
  obtain t w1 where t: "new_TopicConsumer part (c_consumer_name c) (c_subscription c)
      (int_SubType (c_subscription_type c)) (Some (c_key_filters c)) (co_max_retries (c_options c))
      (co_base_backoff_ms (c_options c)) (co_max_backoff_ms (c_options c)) w = (Inr t, w1)"
    and rm: "rm_ok (tc_retry_manager t)"
    by (simp add: new_TopicConsumer_def fl run_simps c_retry_of_ok [unfolded c_retry_of_def])
  have "idle w1 (snd (snd (tc_subscribe E (t, w1))))"
    using tc_subscribe_keeps(3) [of "(t, w1)" E] rm by (simp add: on_world_def same_def idle_def)
  with staysD [OF new t] show ?thesis
    by (auto simp: s subscribe_one_def store_tc_def on_tc_def run_simps t split: prod.splits sum.splits
        intro: idle.trans)
qed

lemma c_subscribe_idle:
  assumes "\<And>n. schedule (order n) n" and "c_subscribe E order (c, w) = (r, (c', w'))"
  shows "idle w w'"
proof (rule c_subscribe_evolves [OF idle.evolution_axioms _ _ assms])
  show "stays idle (topic_partitions E a topic)" for a topic
    unfolding topic_partitions_def by (intro idle_events same.steps stays_rules)
qed (rule subscribe_one_idle)

section \<open>Three turns of a receive task\<close>

text \<open>A serving consumer with an empty queue, whose first task is at one of some points of its loop.\<close>

definition at_rest :: "nat \<Rightarrow> (recv_pc \<Rightarrow> bool) \<Rightarrow> 'w c_state \<Rightarrow> bool" where
  "at_rest q point s \<longleftrightarrow> (case s of (c, w) \<Rightarrow>
     c_tasks c \<noteq> [] \<and> q < length (c_queues c) \<and> c_queues c ! q = [] \<and> static_token w
     \<and> True \<notin> set (events w)
     \<and> (let t = c_tasks c ! 0 in point (rt_pc t) \<and> \<not> rt_cancelled t \<and> rt_queue t = q
         \<and> rt_consumer t < length (c_store c) \<and> tc_stub (c_store c ! rt_consumer t) \<noteq> None))"

abbreviation about_to_read :: "nat \<Rightarrow> 'w c_state \<Rightarrow> bool" where
  "about_to_read q \<equiv> at_rest q (\<lambda>pc. pc = OpenStream)"

abbreviation reading :: "nat \<Rightarrow> nat \<Rightarrow> 'w c_state \<Rightarrow> bool" where
  "reading q stream \<equiv> at_rest q (\<lambda>pc. pc = Reading stream)"

definition streams :: "'w Outside \<Rightarrow> StreamMessage \<Rightarrow> bool" where
  "streams E m \<longleftrightarrow> (\<forall>call rq x. \<exists>stream x1 x2. answer_ReceiveMessages E call rq x = (Inr stream, x1)
     \<and> next_message E stream x1 = (Inr (Some m), x2))"

lemma stream_opens:
  assumes ready: "about_to_read q (c, w)" and "streams E m"
  obtains c1 w1 stream x2 where "recv_step E 0 (c, w) (c1, w1)" and "reading q stream (c1, w1)"
    and "next_message E stream (outside w1) = (Inr (Some m), x2)"
    and "c_consumers c1 = c_consumers c" and "length (c_queues c1) = length (c_queues c)"
proof -
  define t where "t = c_tasks c ! 0"
  have len: "c_tasks c \<noteq> []" "q < length (c_queues c)" "rt_consumer t < length (c_store c)"
    and t: "rt_pc t = OpenStream" "\<not> rt_cancelled t" "rt_queue t = q"
    and q: "c_queues c ! q = []" and w: "static_token w" "True \<notin> set (events w)"
    using ready by (simp_all add: at_rest_def t_def Let_def)
  define tc where "tc = c_store c ! rt_consumer t"
  obtain ch where ch: "tc_stub tc = Some ch" using ready by (auto simp: at_rest_def t_def tc_def Let_def)
  let ?rq = "\<lparr>rr_request_id = tc_request_id tc, rr_consumer_id = tc_consumer_id tc\<rparr>"
  obtain stream x1 x2 where ans: "answer_ReceiveMessages E (tc_call tc w ch) ?rq (outside w) = (Inr stream, x1)"
    and arrives: "next_message E stream x1 = (Inr (Some m), x2)"
    using assms(2) unfolding streams_def by metis
  define c1 where "c1 = c\<lparr>c_store := (c_store c)[rt_consumer t := tc\<lparr>tc_request_id := Suc (tc_request_id tc)\<rparr>],
      c_tasks := (c_tasks c)[0 := t\<lparr>rt_attempts := 0, rt_pc := Reading stream\<rparr>]\<rparr>"
  define w1 where "w1 = w\<lparr>trace := trace w @ [Rpc (tc_call tc w ch) (ReceiveMessages ?rq)], outside := x1\<rparr>"
  have "turn 0 (recv_open E t) (c, w) = (c1, w1)"
    using tc_receive_run [OF w(1) ch ans] not_set [OF w(2)]
    by (simp add: turn_def recv_open_def shut_down_def run_simps on_tc_def tc_def [symmetric] set_task_def t_def [symmetric]
        c1_def w1_def)
  then have "recv_step E 0 (c, w) (c1, w1)"
    using recv_step.open_turn [of 0 "(c, w)" t E] len t by (simp add: t_def)
  moreover have "reading q stream (c1, w1)"
    using len t q w ch by (auto simp: at_rest_def c1_def w1_def static_token_def nth_list_update)
  moreover have "next_message E stream (outside w1) = (Inr (Some m), x2)" using arrives by (simp add: w1_def)
  ultimately show ?thesis by (rule that) (simp_all add: c1_def)
qed

lemma next_delivery:
  assumes ready: "reading q stream (c, w)" and arrives: "next_message E stream (outside w) = (Inr (Some m), x2)"
  obtains s c3 where "recv_step E 0 (c, w) s" and "recv_step E 0 s (c3, w\<lparr>outside := x2\<rparr>)"
    and "c_queues c3 = (c_queues c)[q := [m]]" and "c_consumers c3 = c_consumers c"
    and "reading q stream (c3\<lparr>c_queues := c_queues c\<rparr>, w\<lparr>outside := x2\<rparr>)"
proof -
  define t where "t = c_tasks c ! 0"
  have len: "c_tasks c \<noteq> []" "q < length (c_queues c)" "rt_consumer t < length (c_store c)"
    and t: "rt_pc t = Reading stream" "\<not> rt_cancelled t" "rt_queue t = q"
    and q: "c_queues c ! q = []" and w: "static_token w" "True \<notin> set (events w)"
    using ready by (simp_all add: at_rest_def t_def Let_def)
  define c2 where "c2 = c\<lparr>c_tasks := (c_tasks c)[0 := t\<lparr>rt_pc := Putting stream m\<rparr>]\<rparr>"
  define w2 where "w2 = w\<lparr>outside := x2\<rparr>"
  have "\<not> is_set i w2" for i using not_set [OF w(2)] by (simp add: w2_def is_set_def)
  then have "turn 0 (recv_read E t stream) (c, w) = (c2, w2)"
    using arrives t(1) by (simp add: turn_def recv_read_def shut_down_def stop_set_def run_simps set_task_def c2_def
        w2_def t_def [symmetric])
  then have s2: "recv_step E 0 (c, w) (c2, w2)"
    using recv_step.read_turn [of 0 "(c, w)" t stream E] t len(1) by (simp add: t_def)
  have t2: "c_tasks c2 ! 0 = t\<lparr>rt_pc := Putting stream m\<rparr>" "c_tasks c2 \<noteq> []"
    using len(1) by (simp_all add: c2_def nth_list_update)
  define c3 where "c3 = c\<lparr>c_tasks := (c_tasks c)[0 := t\<lparr>rt_pc := Reading stream\<rparr>], c_queues := (c_queues c)[q := [m]]\<rparr>"
  have "turn 0 (recv_put (t\<lparr>rt_pc := Putting stream m\<rparr>) stream m) (c2, w2) = (c3, w2)"
    using len(1)
    by (simp add: turn_def recv_put_def run_simps set_task_def t2 t q c3_def c2_def nth_list_update)
  moreover have "c_queues c2 ! q = []" by (simp add: c2_def q)
  ultimately have s3: "recv_step E 0 (c2, w2) (c3, w2)"
    using recv_step.put_turn [of 0 "(c2, w2)" "t\<lparr>rt_pc := Putting stream m\<rparr>" stream m E] t(2,3) t2
    by (simp add: RECEIVE_CHANNEL_BUFFER_def)
  have "reading q stream (c3\<lparr>c_queues := c_queues c\<rparr>, w2)"
    using len t q w ready by (auto simp: at_rest_def c3_def w2_def static_token_def t_def Let_def)
  with s2 s3 show ?thesis using that [of "(c2, w2)" c3] by (simp add: c3_def w2_def)
qed

lemma first_delivery:
  assumes "about_to_read q (c, w)" and "streams E m"
  obtains s1 s2 c3 w3 where "recv_step E 0 (c, w) s1" and "recv_step E 0 s1 s2" and "recv_step E 0 s2 (c3, w3)"
    and "q < length (c_queues c3)" and "c_queues c3 ! q = [m]" and "c_consumers c3 = c_consumers c"
proof -
  obtain c1 w1 stream x2 where open': "recv_step E 0 (c, w) (c1, w1)" "reading q stream (c1, w1)"
    "next_message E stream (outside w1) = (Inr (Some m), x2)" "c_consumers c1 = c_consumers c"
    by (rule stream_opens [OF assms])
  obtain s c3 where "recv_step E 0 (c1, w1) s" "recv_step E 0 s (c3, w1\<lparr>outside := x2\<rparr>)"
    "c_queues c3 = (c_queues c1)[q := [m]]" "c_consumers c3 = c_consumers c1"
    by (rule next_delivery [OF open'(2,3)])
  moreover have "q < length (c_queues c1)" using open'(2) by (simp add: at_rest_def)
  ultimately show ?thesis using that [OF open'(1)] open'(4) by simp
qed

section \<open>A script that listens\<close>

lemma consumer_listens:
  fixes E :: "'w Outside"
  assumes world: "static_token w" "True \<notin> set (events w)"
    and names: "topic \<noteq> ''''" "name \<noteq> ''''" "sub \<noteq> ''''"
    and "answer_TopicPartitions E = always (Inr \<lparr>tps_request_id = i, tps_partitions = [part]\<rparr>)"
    and "always_subscribes E"
  obtains c w' where "bnd (build_consumer topic name sub ty filters) (listen_from E (\<lambda>n. [0..<n])) w = (Inr (0, c), w')"
    and "about_to_read 0 (c, w')" and "fst ` set (c_consumers c) = {part}"
proof -
  let ?w = w and ?order = "\<lambda>n. [0..<n]"
  obtain c0 w0 where build: "build_consumer topic name sub ty filters ?w = (Inr c0, w0)" "grows ?w w0"
    and new: "c_consumers c0 = []" "c_tasks c0 = []" "c_store c0 = []" "c_queues c0 = []"
    and ev: "events w0 = events ?w @ [False]"
    using build_consumer_run [OF names] by metis
  have static: "static_token w0" by (rule static_token_grows [OF build(2) world(1)])
  have none: "True \<notin> set (events w0)" using ev world(2) by simp
  obtain conn cm' where conn: "on_conn_mgr (get_connection (uri w0) (uri w0)) w0 = (Inr conn, w0\<lparr>conn_mgr := cm'\<rparr>)"
    and opts: "cm_options cm' = cm_options (conn_mgr w0)" by (rule get_connection_run)
  have "static_token (w0\<lparr>conn_mgr := cm'\<rparr>)" using static opts by (simp add: static_token_def)
  then obtain w1 where parts: "topic_partitions E (uri w0) (c_topic_name c0) w0 = (Inr [part], w1)"
    using conn by (simp add: topic_partitions_def run_simps attach_token_static assms(6) always_def)
  have order: "\<And>n. schedule (?order n) n" by (rule schedule_upt)
  obtain c1 w2 where sub: "c_subscribe E ?order (c0, w0) = (Inr (), (c1, w2))"
    using c_subscribe_succeeds [OF assms(7) _ _ parts static, of ?order] schedule_upt by fastforce
  from c_subscribe_registers [OF order sub] parts have keys: "fst ` set (c_consumers c1) = {part}"
    and all: "\<And>p k. (p, k) \<in> set (c_consumers c1) \<Longrightarrow> k < length (c_store c1) \<and> tc_for c0 p (c_store c1 ! k) w2"
    by auto
  obtain st cons where c1: "c1 = c0\<lparr>c_store := st, c_consumers := cons\<rparr>" and g: "grows w0 w2"
    using c_subscribe_shape [OF order sub] by blast
  obtain p k cons' where cons: "cons = (p, k) # cons'" using keys c1 by (cases cons) auto
  define c where "c = c1\<lparr>c_queues := c_queues c1 @ [[]], c_tasks := c_tasks c1
          @ map (receive_task c1 (length (c_queues c1)) \<circ> snd) (c_consumers c1)\<rparr>"
  have "bnd (build_consumer topic name sub ty filters) (listen_from E ?order) w = (Inr (0, c), w2)"
    by (simp add: bnd_run build listen_from_def inside_def sub c_receive_run c_def c1 new)
  moreover have "k < length st" "tc_stub (st ! k) \<noteq> None"
    using all [of p k] c1 cons by (auto simp: tc_for_def tc_ready_def)
  moreover have "static_token w2" using static_token_grows [OF g static] .
  moreover have "True \<notin> set (events w2)" using c_subscribe_idle [OF order sub] none by (simp add: idle_def)
  ultimately show ?thesis
    using that [of c w2] keys by (simp add: at_rest_def c_def c1 new cons receive_task_def)
qed

lemma example_client_idle: "True \<notin> set (events (example_client x))"
  by (simp add: example_client_def build_client_def new_World_def service_url_def run_simps new_DanubeClientBuilder_def)

lemma script_listens:
  fixes E :: "'w Outside" and scr :: "('w, 'l) consumer_script"
  assumes start: "cs_start scr = bnd (build_consumer topic name sub ty filters) (listen_from E (\<lambda>n. [0..<n]))"
    and names: "topic \<noteq> ''''" "name \<noteq> ''''" "sub \<noteq> ''''"
    and broker: "answer_TopicPartitions E = always (Inr \<lparr>tps_request_id = i, tps_partitions = [part]\<rparr>)"
      "always_subscribes E"
  obtains c w where "script_start scr x = Listening 0 (cs_local scr) (c, w)"
    and "about_to_read 0 (c, w)" and "fst ` set (c_consumers c) = {part}"
proof -
  obtain c w where "cs_start scr (example_client x) = (Inr (0, c), w)" "about_to_read 0 (c, w)"
    "fst ` set (c_consumers c) = {part}"
    unfolding start by (rule consumer_listens [OF example_client_facts(1) example_client_idle names broker])
  with that show ?thesis by (simp add: script_start_def)
qed

text \<open>A run of such a script in which it takes its first message.\<close>

lemma script_takes_first:
  assumes "script_start scr x = Listening q l (c, w)" and "about_to_read q (c, w)" and "streams E m"
  obtains c' w' where "script_run E scr (script_start scr x) [] (Listening q l (c', w'))"
    and "script_run E scr (script_start scr x) [m] (script_take scr q l m [] (c', w'))"
    and "c_consumers c' = c_consumers c"
proof -
  let ?run = "script_run E scr (script_start scr x)"
  obtain s1 s2 c3 w3 where steps: "recv_step E 0 (c, w) s1" "recv_step E 0 s1 s2" "recv_step E 0 s2 (c3, w3)"
    and queue: "q < length (c_queues c3)" "c_queues c3 ! q = [m]" and cons: "c_consumers c3 = c_consumers c"
    by (rule first_delivery [OF assms(2,3)])
  have "?run [] (Listening q l (c, w))" using script_run.start [of E scr "script_start scr x"] assms(1) by simp
  then have run: "?run [] (Listening q l (c3, w3))" using steps by (blast intro: script_run.receiving)
  then have "?run ([] @ [m]) (script_take scr q l m [] (c3, w3))"
    by (rule script_run.message) (simp_all add: queue)
  with run cons show ?thesis using that [of c3 w3] by simp
qed

end
