(* ===== verification/ExampleProducers.thy ===== *)
theory ExampleProducers
  imports Examples
begin

text \<open>
  The producer scripts of \<open>examples/\<close>, and \<open>schema_evolution.py\<close>. A producer script builds its
  producer, perhaps after registering a schema, creates it, sends its messages with a sleep after
  each, and closes the producer on every way out. A send may never return (theory \<open>Producer\<close>), so
  a script is a program. The argument \<open>interrupt\<close> is the round in whose sleep the script is
  interrupted, if it is.
\<close>

section \<open>The shape of a producer script\<close>

text \<open>\<open>client.new_producer().with_topic(...)....build()\<close>\<close>

definition build_producer :: "(ProducerBuilder, 'a) py \<Rightarrow> ('w World, Producer) py" where
  "build_producer settings =
     bnd new_producer (\<lambda>b. of_builder b (bnd settings (\<lambda>_. pb_build)))"

text \<open>\<open>try: m except asyncio.CancelledError: pass finally: await producer.close()\<close>\<close>

definition then_close :: "('w p_state, unit) prog \<Rightarrow> ('w p_state, unit) prog" where
  "then_close m =
     ensuring (catching m (\<lambda>e. e = CancelledError) (\<lambda>e. run_py (ret ()))) p_close"

text \<open>A script: what comes before the producer exists, and what is done with it. Its result is how
  the main coroutine ends, with the producer if it was built.\<close>

definition producer_script ::
  "('w World, Producer) py \<Rightarrow> ('w p_state, unit) prog \<Rightarrow> 'w
     \<Rightarrow> ((exn + unit) \<times> Producer option \<times> 'w World) option" where
  "producer_script before m x =
     (case before (example_client x) of
        (Inl e, w) \<Rightarrow> Some (Inl e, None, w)
      | (Inr p, w) \<Rightarrow> map_option (\<lambda>(r, p', w'). (r, Some p', w')) (m (p, w)))"

text \<open>\<open>await producer.create(); try: for i in range(n): body(i) ... finally: await producer.close()\<close>\<close>

definition sending_script ::
  "('w World, Producer) py \<Rightarrow> 'w Outside \<Rightarrow> nat list \<Rightarrow> (nat \<Rightarrow> ('w p_state, unit) prog) \<Rightarrow> nat \<Rightarrow> 'w
     \<Rightarrow> ((exn + unit) \<times> Producer option \<times> 'w World) option" where
  "sending_script before E order body n =
     producer_script before
       (and_then (run_py (p_create E order)) (\<lambda>_. then_close (each body [0..<n])))"

text \<open>\<open>try: await producer.send(data) except Exception as e: print(...)\<close>\<close>

definition send_or_report :: "'w Outside \<Rightarrow> bytes \<Rightarrow> ('w p_state, unit) prog" where
  "send_or_report E data =
     catching (and_then (p_send E data None) (\<lambda>message_id. run_py (ret ()))) is_Exception
       (\<lambda>e. run_py (ret ()))"

section \<open>The scripts\<close>

text \<open>\<open>examples/json_producer.py\<close>\<close>

definition json_schema :: json where
  "json_schema = JObj [(''type'', JStr ''object''),
     (''properties'', JObj [(''field1'', JObj [(''type'', JStr ''string'')]),
        (''field2'', JObj [(''type'', JStr ''integer'')])])]"

definition json_message :: "nat \<Rightarrow> json" where
  "json_message i = JObj [(''field1'', JStr (''value'' @ str_int (int i))), (''field2'', JInt (2020 + int i))]"

definition json_before :: "'w Outside \<Rightarrow> ('w World, Producer) py" where
  "json_before E =
     bnd (register E ''my-app-events'' JSON_SCHEMA json_schema) (\<lambda>schema_id.
     build_producer (
       seq (pb_with_topic ''/default/test_topic'') (
       seq (pb_with_name ''prod_json'') (
       pb_with_schema_subject ''my-app-events''))))"

definition json_round :: "'w Outside \<Rightarrow> nat option \<Rightarrow> nat \<Rightarrow> ('w p_state, unit) prog" where
  "json_round E interrupt i =
     and_then (p_send E (encode (dumps (json_message i))) None) (\<lambda>message_id.
     run_py (on_snd (nap interrupt i 1)))"

definition json_producer :: "'w Outside \<Rightarrow> nat list \<Rightarrow> nat option \<Rightarrow> 'w
    \<Rightarrow> ((exn + unit) \<times> Producer option \<times> 'w World) option" where
  "json_producer E order interrupt = sending_script (json_before E) E order (json_round E interrupt) 100"

text \<open>\<open>examples/avro_producer.py\<close>; \<open>int(time.time())\<close> is the clock in whole seconds.\<close>

definition avro_field :: "string \<Rightarrow> string \<Rightarrow> json" where
  "avro_field name ty = JObj [(''name'', JStr name), (''type'', JStr ty)]"

definition optional_field :: "string \<Rightarrow> json" where
  "optional_field name = JObj [(''name'', JStr name), (''type'', JArr [JStr ''null'', JStr ''string'']),
     (''default'', JNull)]"

definition avro_schema :: json where
  "avro_schema = JObj [(''type'', JStr ''record''), (''name'', JStr ''UserEvent''),
     (''namespace'', JStr ''com.example.events''),
     (''fields'', JArr [avro_field ''user_id'' ''string'', avro_field ''action'' ''string'',
        avro_field ''timestamp'' ''long'', optional_field ''metadata''])]"

definition actions :: "string list" where
  "actions = [''login'', ''purchase'', ''logout'', ''view_product'', ''add_to_cart'']"

definition user_event :: "nat \<Rightarrow> nat \<Rightarrow> json" where
  "user_event now i = JObj [(''user_id'', JStr (''user_'' @ str_int (1000 + int i))),
     (''action'', JStr (actions ! (i mod length actions))), (''timestamp'', JInt (int now)),
     (''metadata'', if i mod 2 = 0 then JStr (''session_id_'' @ str_int (int i)) else JNull)]"

definition avro_before :: "'w Outside \<Rightarrow> ('w World, Producer) py" where
  "avro_before E =
     bnd (register E ''user-events'' AVRO avro_schema) (\<lambda>schema_id.
     build_producer (
       seq (pb_with_topic ''/default/user_events'') (
       seq (pb_with_name ''user_events_producer'') (
       pb_with_schema_subject ''user-events''))))"

definition avro_round :: "'w Outside \<Rightarrow> nat option \<Rightarrow> nat \<Rightarrow> ('w p_state, unit) prog" where
  "avro_round E interrupt i =
     and_then (run_py (on_snd (on_outside (total_io (clock_ms E))))) (\<lambda>now.
     and_then (send_or_report E (encode (dumps (user_event (now div 1000) i)))) (\<lambda>_.
     run_py (on_snd (nap interrupt i (1 / 2)))))"

definition avro_producer :: "'w Outside \<Rightarrow> nat list \<Rightarrow> nat option \<Rightarrow> 'w
    \<Rightarrow> ((exn + unit) \<times> Producer option \<times> 'w World) option" where
  "avro_producer E order interrupt = sending_script (avro_before E) E order (avro_round E interrupt) 100"

text \<open>\<open>examples/key_shared_producer.py\<close>\<close>

definition keys :: "string list" where
  "keys = [''payment'', ''shipping'', ''invoice'', ''payment'', ''shipping'']"

definition order_event :: "nat \<Rightarrow> string \<Rightarrow> string" where
  "order_event i key = ''Order event #'' @ str_int (int i) @ '' for key='' @ key"

definition key_shared_before :: "('w World, Producer) py" where
  "key_shared_before =
     build_producer (
       seq (pb_with_topic ''/default/topic_key_shared'') (
       seq (pb_with_name ''producer_key_shared'') (
       pb_with_dispatch_strategy RELIABLE)))"

text \<open>\<open>for i, key in enumerate(keys)\<close>\<close>

definition key_shared_round :: "'w Outside \<Rightarrow> nat option \<Rightarrow> nat \<Rightarrow> ('w p_state, unit) prog" where
  "key_shared_round E interrupt i =
     (let key = keys ! i in
      and_then (p_send_with_key E (encode (order_event i key)) None key) (\<lambda>message_id.
      run_py (on_snd (nap interrupt i (1 / 2)))))"

definition key_shared_producer :: "'w Outside \<Rightarrow> nat list \<Rightarrow> nat option \<Rightarrow> 'w
    \<Rightarrow> ((exn + unit) \<times> Producer option \<times> 'w World) option" where
  "key_shared_producer E order interrupt = sending_script key_shared_before E order (key_shared_round E interrupt) (length keys)"

text \<open>\<open>examples/partitions_producer.py\<close>\<close>

definition hello :: "nat \<Rightarrow> string" where
  "hello i = ''Hello Danube '' @ str_int (int i)"

definition partitions_before :: "('w World, Producer) py" where
  "partitions_before =
     build_producer (
       seq (pb_with_topic ''/default/partitioned_topic'') (
       seq (pb_with_name ''prod_part'') (
       pb_with_partitions 3)))"

definition partitions_round :: "'w Outside \<Rightarrow> nat option \<Rightarrow> nat \<Rightarrow> ('w p_state, unit) prog" where
  "partitions_round E interrupt i =
     and_then (p_send E (encode (hello i)) None) (\<lambda>message_id.
     run_py (on_snd (nap interrupt i 1)))"

definition partitions_producer :: "'w Outside \<Rightarrow> nat list \<Rightarrow> nat option \<Rightarrow> 'w
    \<Rightarrow> ((exn + unit) \<times> Producer option \<times> 'w World) option" where
  "partitions_producer E order interrupt = sending_script partitions_before E order (partitions_round E interrupt) 100"

text \<open>\<open>examples/reliable_dispatch_producer.py\<close>\<close>

definition subjects :: "string list" where
  "subjects = [''The Danube system'', ''Danube platform'', ''Danube messaging service'',
     ''The Danube application'']"

definition verbs :: "string list" where
  "verbs = [''processes'', ''handles'', ''manages'', ''delivers'']"

definition objects :: "string list" where
  "objects = [''messages efficiently'', ''data reliably'', ''requests quickly'', ''events seamlessly'']"

definition conclusions :: "string list" where
  "conclusions = [''with high performance.'', ''at scale.'', ''with real-time.'', ''without issues.'']"

definition phrase :: "nat \<Rightarrow> string" where
  "phrase i = subjects ! (i mod length subjects) @ '' '' @ verbs ! (i mod length verbs) @ '' '' @
     objects ! (i mod length objects) @ '', with low latency and high throughput. '' @
     ''It is designed for reliability, '' @ conclusions ! (i mod length conclusions)"

definition reliable_dispatch_before :: "('w World, Producer) py" where
  "reliable_dispatch_before =
     build_producer (
       seq (pb_with_topic ''/default/reliable_topic'') (
       seq (pb_with_name ''prod_json_reliable'') (
       pb_with_dispatch_strategy RELIABLE)))"

definition reliable_dispatch_round :: "'w Outside \<Rightarrow> nat option \<Rightarrow> nat \<Rightarrow> ('w p_state, unit) prog" where
  "reliable_dispatch_round E interrupt i =
     and_then (send_or_report E (encode (phrase i))) (\<lambda>_.
     run_py (on_snd (nap interrupt i 1)))"

definition reliable_dispatch_producer :: "'w Outside \<Rightarrow> nat list \<Rightarrow> nat option \<Rightarrow> 'w
    \<Rightarrow> ((exn + unit) \<times> Producer option \<times> 'w World) option" where
  "reliable_dispatch_producer E order interrupt = sending_script reliable_dispatch_before E order (reliable_dispatch_round E interrupt) 100"

section \<open>Schema evolution\<close>

text \<open>\<open>examples/schema_evolution.py\<close>: the versions of the schema, and the script. It returns what its
  last two steps print.\<close>

definition product_schema :: "json list \<Rightarrow> json" where
  "product_schema more_fields = JObj [(''type'', JStr ''record''), (''name'', JStr ''Product''),
     (''namespace'', JStr ''com.example.catalog''),
     (''fields'', JArr ([avro_field ''product_id'' ''string'', avro_field ''name'' ''string'',
        avro_field ''price'' ''double''] @ more_fields))]"

definition schema_v1 :: json where "schema_v1 = product_schema []"
definition schema_v2 :: json where "schema_v2 = product_schema [optional_field ''description'']"
definition schema_v3_incompatible :: json where
  "schema_v3_incompatible =
     product_schema [optional_field ''description'', avro_field ''category'' ''string'']"

definition schema_evolution :: "'w Outside \<Rightarrow> ('w World, 32 word list \<times> SchemaInfo) py" where
  "schema_evolution E =
     bnd (register E ''product-catalog'' AVRO schema_v1) (\<lambda>schema_id_v1.
     seq (asleep (3 / 2)) (
     bnd (check_compatibility E ''product-catalog'' (encode (dumps schema_v2)) AVRO None)
       (\<lambda>(is_compatible, errors).
     seq (if is_compatible
          then handle (bnd (register E ''product-catalog'' AVRO schema_v2) (\<lambda>schema_id_v2. ret ()))
                 (\<lambda>e. if is_Exception e then ret () else throw e)
          else ret ()) (
     bnd (check_compatibility E ''product-catalog'' (encode (dumps schema_v3_incompatible)) AVRO None)
       (\<lambda>(is_compatible_v3, errors_v3).
     bnd (list_versions E ''product-catalog'') (\<lambda>versions.
     bnd (get_latest_schema E ''product-catalog'') (\<lambda>latest_schema.
     ret (versions, latest_schema))))))))"

end
