(* ===== verification/ExampleConsumerProperties.thy ===== *)
theory ExampleConsumerProperties
  imports ScriptDelivery ExampleProducers
begin

text \<open>
  The consumer scripts over whole runs: what they acknowledge, what they count, what ends them, and
  that they understand what the producer scripts send.
\<close>

section \<open>A broker with one message\<close>

definition demo_outside :: "StreamMessage \<Rightarrow> nat Outside" where
  "demo_outside m = refusing\<lparr>
     answer_TopicPartitions := always (Inr \<lparr>tps_request_id = 1, tps_partitions = [''/default/test_topic'']\<rparr>),
     answer_Subscribe := always (Inr \<lparr>crs_request_id = 1, crs_consumer_id = 7, crs_consumer_name = ''c''\<rparr>),
     answer_ReceiveMessages := always (Inr 5),
     next_message := (\<lambda>stream x. (Inr (Some m), x)),
     answer_Ack := always (Inr \<lparr>ars_request_id = 1\<rparr>)\<rparr>"

definition message_with :: "bytes \<Rightarrow> StreamMessage" where
  "message_with payload =
     \<lparr>sm_request_id = 1, sm_msg_id = \<lparr>mi_producer_id = 1, mi_topic_name = ''/default/test_topic'',
        mi_broker_addr = demo_uri, mi_topic_offset = 0\<rparr>,
      sm_payload = payload, sm_publish_time = 0, sm_producer_name = ''p'', sm_subscription_name = '''',
      sm_attributes = [], sm_schema_id = None, sm_schema_version = None, sm_routing_key = None\<rparr>"

lemma demo_outside_serves:
  "answer_TopicPartitions (demo_outside m) = always (Inr \<lparr>tps_request_id = 1, tps_partitions = [''/default/test_topic'']\<rparr>)"
  "always_subscribes (demo_outside m)" "streams (demo_outside m) m"
  by (simp_all add: demo_outside_def always_subscribes_def streams_def always_def)

lemma script_names:
  "cs_start (json_consumer E order) =
     bnd (build_consumer ''/default/test_topic'' ''cons_json'' ''subs_json'' EXCLUSIVE []) (listen_from E order)"
  "cs_start (avro_consumer E order) = bnd (build_consumer ''/default/user_events'' ''user_events_consumer''
     ''user_events_subscription'' EXCLUSIVE []) (listen_from E order)"
  "cs_start (key_shared_consumer E order) = bnd (build_consumer ''/default/topic_key_shared'' ''consumer_key_shared''
     ''sub_key_shared'' KEY_SHARED []) (listen_from E order)"
  "cs_start (partitions_consumer E order) = bnd (build_consumer ''/default/partitioned_topic'' ''cons_part''
     ''subs_part'' EXCLUSIVE []) (listen_from E order)"
  "cs_start (reliable_dispatch_consumer E order) = bnd (build_consumer ''/default/reliable_topic'' ''cons_reliable''
     ''subs_reliable'' EXCLUSIVE []) (listen_from E order)"
  by (simp_all add: json_consumer_def avro_consumer_def key_shared_consumer_def partitions_consumer_def
      reliable_dispatch_consumer_def)

section \<open>What is acknowledged\<close>

text \<open>The acknowledgements of the messages taken that a script accepts and that come from a partition it
  is registered for.\<close>

definition due :: "string \<Rightarrow> (StreamMessage \<Rightarrow> bool) \<Rightarrow> StreamMessage list \<Rightarrow> ('w, 'l) script_state \<Rightarrow> AckRequest list" where
  "due sub accepts taken st =
     map (ack_request sub) (filter (\<lambda>m. accepts m \<and> from_partition (registered st) m) taken)"

text \<open>C12: At every point of every run of a consumer script, the acknowledgements it has sent are those of
  the messages it took that it could decode and that came from a partition it subscribed to, each
  once, in the order taken, under its subscription. To decode is to parse as JSON for
  \<open>json_consumer.py\<close>; as an object with the three mandatory fields for \<open>avro_consumer.py\<close>; as an
  object for \<open>json_consumer_validated.py\<close>; as UTF-8 for the other four.\<close>

theorem scripts_acknowledge_what_they_decode:
  assumes "\<And>n. schedule (order n) n"
  shows "(script_run E (json_consumer E order) (script_start (json_consumer E order) x) taken st1 \<longrightarrow>
       acks (world_of st1) = due ''subs_json'' (json_decodes (\<lambda>v. True)) taken st1)
   \<and> (script_run E (avro_consumer E order) (script_start (avro_consumer E order) x) taken st2 \<longrightarrow>
       acks (world_of st2) = due ''user_events_subscription'' (json_decodes avro_complete) taken st2)
   \<and> (script_run E (json_consumer_validated E iter order) (script_start (json_consumer_validated E iter order) x) taken st3 \<longrightarrow>
       acks (world_of st3) = due ''subs_json_validated'' (json_decodes json_object) taken st3)
   \<and> (script_run E (key_shared_consumer E order) (script_start (key_shared_consumer E order) x) taken st4 \<longrightarrow>
       acks (world_of st4) = due ''sub_key_shared'' text_decodes taken st4)
   \<and> (script_run E (key_shared_filtered_consumer E order) (script_start (key_shared_filtered_consumer E order) x) taken st5 \<longrightarrow>
       acks (world_of st5) = due ''sub_key_shared'' text_decodes taken st5)
   \<and> (script_run E (partitions_consumer E order) (script_start (partitions_consumer E order) x) taken st6 \<longrightarrow>
       acks (world_of st6) = due ''subs_part'' text_decodes taken st6)
   \<and> (script_run E (reliable_dispatch_consumer E order) (script_start (reliable_dispatch_consumer E order) x) taken st7 \<longrightarrow>
       acks (world_of st7) = due ''subs_reliable'' text_decodes taken st7)"
  unfolding due_def
  by (intro conjI impI)
     (erule json_script.run_acks [OF assms] avro_script.run_acks [OF assms] validated_script.run_acks [OF assms]
        key_shared_script.run_acks [OF assms] filtered_script.run_acks [OF assms]
        partitions_script.run_acks [OF assms] reliable_script.run_acks [OF assms])+

definition demo_json :: StreamMessage where
  "demo_json = message_with (encode ''7'')"

theorem scripts_acknowledge_what_they_decode_witness:
  "\<exists>st. script_run (demo_outside demo_json) (json_consumer (demo_outside demo_json) (\<lambda>n. [0..<n]))
      (script_start (json_consumer (demo_outside demo_json) (\<lambda>n. [0..<n])) 0) [demo_json] st
    \<and> acks (world_of st) = [ack_request ''subs_json'' demo_json]"
proof -
  let ?E = "demo_outside demo_json" and ?order = "\<lambda>n. [0..<n]"
  let ?scr = "json_consumer ?E ?order"
  obtain c w where st0: "script_start ?scr 0 = Listening 0 (cs_local ?scr) (c, w)" "about_to_read 0 (c, w)"
    and keys: "fst ` set (c_consumers c) = {''/default/test_topic''}"
    by (rule script_listens [OF script_names(1) _ _ _ demo_outside_serves(1,2)]) simp_all
  obtain c' w' where listening: "script_run ?E ?scr (script_start ?scr 0) [] (Listening 0 (cs_local ?scr) (c', w'))"
    and run: "script_run ?E ?scr (script_start ?scr 0) [demo_json]
      (script_take ?scr 0 (cs_local ?scr) demo_json [] (c', w'))"
    and cons: "c_consumers c' = c_consumers c"
    by (rule script_takes_first [OF st0 demo_outside_serves(3)])
  have "json_decodes (\<lambda>v. True) demo_json" by code_simp
  moreover have "registered (script_take ?scr 0 (cs_local ?scr) demo_json [] (c', w')) = c_consumers c'"
    using json_script.take_registered [OF schedule_upt listening] by simp
  ultimately have "acks (world_of (script_take ?scr 0 (cs_local ?scr) demo_json [] (c', w'))) = [ack_request ''subs_json'' demo_json]"
    using scripts_acknowledge_what_they_decode [of ?order ?E 0 "[demo_json]"] run cons keys schedule_upt
    by (auto simp: due_def from_partition_def demo_json_def message_with_def)
  with run show ?thesis by blast
qed

section \<open>What ends a script\<close>

lemma script_first_take:
  assumes start: "cs_start scr = bnd (build_consumer topic name sub ty filters) (listen_from E (\<lambda>n. [0..<n]))"
    and names: "topic \<noteq> ''''" "name \<noteq> ''''" "sub \<noteq> ''''"
    and broker: "answer_TopicPartitions E = always (Inr \<lparr>tps_request_id = i, tps_partitions = [part]\<rparr>)"
      "always_subscribes E" "streams E m"
  shows "\<exists>s. script_run E scr (script_start scr x) [m] (script_take scr 0 (cs_local scr) m [] s)"
proof -
  obtain c w where st0: "script_start scr x = Listening 0 (cs_local scr) (c, w)" "about_to_read 0 (c, w)"
    by (rule script_listens [OF start names broker(1,2)])
  show ?thesis by (rule script_takes_first [OF st0 broker(3)]) blast
qed

lemma take_raises:
  assumes "\<And>l s. cs_body scr l m s = (Inl e, s)" and "e \<noteq> CancelledError"
  shows "\<exists>s2. script_take scr q l m ms s = Over (Some e) s2"
proof -
  let ?c = "(fst s)\<lparr>c_queues := (c_queues (fst s))[q := ms]\<rparr>"
  obtain st w' where "c_close (?c, snd s) = (Inr (), (?c\<lparr>c_store := st, c_tasks := cancelled_all (c_tasks ?c)\<rparr>, w'))"
    by (rule c_close_work)
  then show ?thesis using assms by (simp add: script_take_def script_end_def)
qed

lemma take_continues:
  assumes "\<And>s. cs_body scr l m s = (Inr l', s)"
  shows "\<exists>s2. script_take scr q l m ms s = Listening q l' s2"
  using assms by (simp add: script_take_def)

lemma script_ends_on:
  assumes "cs_start scr = bnd (build_consumer topic name sub ty filters) (listen_from E (\<lambda>n. [0..<n]))"
    and "topic \<noteq> ''''" "name \<noteq> ''''" "sub \<noteq> ''''"
    and "answer_TopicPartitions E = always (Inr \<lparr>tps_request_id = i, tps_partitions = [part]\<rparr>)"
      "always_subscribes E" "streams E m"
    and "\<And>l s. cs_body scr l m s = (Inl e, s)" and "e \<noteq> CancelledError"
  shows "\<exists>s. script_run E scr (script_start scr x) [m] (Over (Some e) s)"
  using script_first_take [OF assms(1-7), of x] take_raises [OF assms(8,9)] by metis

lemma script_goes_on:
  assumes "cs_start scr = bnd (build_consumer topic name sub ty filters) (listen_from E (\<lambda>n. [0..<n]))"
    and "topic \<noteq> ''''" "name \<noteq> ''''" "sub \<noteq> ''''"
    and "answer_TopicPartitions E = always (Inr \<lparr>tps_request_id = i, tps_partitions = [part]\<rparr>)"
      "always_subscribes E" "streams E m"
    and "\<And>s. cs_body scr (cs_local scr) m s = (Inr l, s)"
  shows "\<exists>s. script_run E scr (script_start scr x) [m] (Listening 0 l s)"
  using script_first_take [OF assms(1-7), of x] take_continues [OF assms(8)] by metis

text \<open>C26: One message can end a JSON consumer. A payload that is not text in any encoding raises
  \<open>UnicodeDecodeError\<close>, which \<open>json_consumer.py\<close> and \<open>avro_consumer.py\<close> do not catch beside
  \<open>JSONDecodeError\<close>, and which \<open>key_shared_consumer.py\<close> does not catch at all: with a broker that
  delivers such a message the script ends with that error, the message unacknowledged. The scripts
  \<open>partitions_consumer.py\<close> and \<open>reliable_dispatch_consumer.py\<close> go on.\<close>

theorem undecodable_payload_ends_scripts:
  fixes E :: "'w Outside" and x :: 'w
  assumes "answer_TopicPartitions E = always (Inr \<lparr>tps_request_id = i, tps_partitions = [part]\<rparr>)"
    and "always_subscribes E" and "streams E m"
    and "decode_json (sm_payload m) = Inl UnicodeDecodeError" and "decode_utf8 (sm_payload m) = Inl UnicodeDecodeError"
  shows "let order = \<lambda>n. [0..<n];
             ends = (\<lambda>scr. \<exists>s. script_run E scr (script_start scr x) [m] (Over (Some UnicodeDecodeError) s) \<and> acks (snd s) = [])
         in ends (json_consumer E order) \<and> ends (avro_consumer E order) \<and> ends (key_shared_consumer E order)
         \<and> (\<exists>q l s. script_run E (partitions_consumer E order)
              (script_start (partitions_consumer E order) x) [m] (Listening q l s))
         \<and> (\<exists>q l s. script_run E (reliable_dispatch_consumer E order)
              (script_start (reliable_dispatch_consumer E order) x) [m] (Listening q l s))"
proof -
  let ?order = "\<lambda>n. [0..<n]"
  have loads: "loads (sm_payload m) = Inl UnicodeDecodeError" by (simp add: loads_def assms(4))
  have off: "\<not> json_decodes P m" "\<not> text_decodes m" for P
    by (simp_all add: decoded_or_not loads assms(5))
  note body = catch_some_def run_simps loads assms(5) is_KeyError_def
  note quit = script_ends_on [OF _ _ _ _ assms(1-3), where e = UnicodeDecodeError and x = x]
  note go_on = script_goes_on [OF _ _ _ _ assms(1-3), where x = x]
  have json: "\<exists>s. script_run E (json_consumer E ?order) (script_start (json_consumer E ?order) x) [m] (Over (Some UnicodeDecodeError) s)"
    by (rule quit [OF script_names(1)]) (simp_all add: json_consumer_def body)
  have avro: "\<exists>s. script_run E (avro_consumer E ?order) (script_start (avro_consumer E ?order) x) [m] (Over (Some UnicodeDecodeError) s)"
    by (rule quit [OF script_names(2)]) (simp_all add: avro_consumer_def body)
  have key: "\<exists>s. script_run E (key_shared_consumer E ?order) (script_start (key_shared_consumer E ?order) x) [m] (Over (Some UnicodeDecodeError) s)"
    by (rule quit [OF script_names(3)]) (simp_all add: key_shared_consumer_def body)
  have parts: "\<exists>s. script_run E (partitions_consumer E ?order) (script_start (partitions_consumer E ?order) x) [m] (Listening 0 () s)"
    by (rule go_on [OF script_names(4)]) (simp_all add: partitions_consumer_def body)
  have reliable: "\<exists>s. script_run E (reliable_dispatch_consumer E ?order)
      (script_start (reliable_dispatch_consumer E ?order) x) [m] (Listening 0 (length (sm_payload m)) s)"
    by (rule go_on [OF script_names(5)]) (simp_all add: reliable_dispatch_consumer_def Let_def body)
  have no_acks: "acks (snd s) = []"
    if "script_run E (json_consumer E ?order) (script_start (json_consumer E ?order) x) [m] (Over r s)
      \<or> script_run E (avro_consumer E ?order) (script_start (avro_consumer E ?order) x) [m] (Over r s)
      \<or> script_run E (key_shared_consumer E ?order) (script_start (key_shared_consumer E ?order) x) [m] (Over r s)" for r s
    using that json_script.run_acks [OF schedule_upt, of E x "[m]" "Over r s"]
      avro_script.run_acks [OF schedule_upt, of E x "[m]" "Over r s"]
      key_shared_script.run_acks [OF schedule_upt, of E x "[m]" "Over r s"]
    by (auto simp: off world_of_def)
  from json avro key parts reliable no_acks show ?thesis unfolding Let_def by blast
qed

theorem undecodable_payload_ends_scripts_witness:
  "let E = demo_outside (message_with [0xff]); scr = json_consumer E (\<lambda>n. [0..<n]) in
   \<exists>s. script_run E scr (script_start scr 0) [message_with [0xff]] (Over (Some UnicodeDecodeError) s) \<and> acks (snd s) = []"
proof -
  have "decode_json (sm_payload (message_with [0xff])) = Inl UnicodeDecodeError"
    and "decode_utf8 (sm_payload (message_with [0xff])) = Inl UnicodeDecodeError"
    by code_simp+
  from undecodable_payload_ends_scripts [OF demo_outside_serves this, of 0] show ?thesis
    by (simp only: Let_def)
qed

section \<open>Counting bytes\<close>

text \<open>While \<open>reliable_dispatch_consumer.py\<close> listens, its \<open>total_received_size\<close> is the number of
  bytes of all messages it has taken, those it could not decode included.\<close>

theorem reliable_consumer_counts_bytes:
  assumes "script_run E (reliable_dispatch_consumer E order) (script_start (reliable_dispatch_consumer E order) x)
      taken (Listening q l s)"
  shows "l = sum_list (map (\<lambda>m. length (sm_payload m)) taken)"
proof -
  let ?scr = "reliable_dispatch_consumer E order" and ?size = "\<lambda>taken. sum_list (map (\<lambda>m. length (sm_payload m)) taken)"
  have next_total: "l' = l + length (sm_payload m)" if "cs_body ?scr l m s = (Inr l', s')" for l l' m s s'
    using that by (auto simp: reliable_dispatch_consumer_def Let_def catch_some_def run_simps
        split: sum.splits prod.splits if_splits)
  have "script_run E ?scr st0 taken st \<Longrightarrow> st0 = script_start ?scr x \<Longrightarrow>
      (case st of Listening q l s \<Rightarrow> l = ?size taken | _ \<Rightarrow> True)" for st0 st
  proof (induction rule: script_run.induct)
    case start
    then show ?case
      by (simp add: script_start_def reliable_dispatch_consumer_def split: prod.split sum.split)
  next
    case (message taken q l s m ms)
    then show ?case
      by (auto simp: script_take_def script_end_def dest!: next_total split: prod.split sum.split)
  qed (simp_all add: script_end_def split: prod.split sum.split)
  with assms show ?thesis by force
qed

theorem reliable_consumer_counts_bytes_witness:
  "let E = demo_outside (message_with [0xff, 1]); scr = reliable_dispatch_consumer E (\<lambda>n. [0..<n]) in
   \<exists>s. script_run E scr (script_start scr 0) [message_with [0xff, 1]] (Listening 0 2 s)
     \<and> 2 = length (sm_payload (message_with [0xff, 1]))"
proof -
  let ?E = "demo_outside (message_with [0xff, 1])" and ?scr = "reliable_dispatch_consumer (demo_outside (message_with [0xff, 1])) (\<lambda>n. [0..<n])"
  have bad: "decode_utf8 [0xff, 1] = Inl UnicodeDecodeError" by code_simp
  have "\<exists>s. script_run ?E ?scr (script_start ?scr 0) [message_with [0xff, 1]] (Listening 0 2 s)"
    by (rule script_goes_on [OF script_names(5) _ _ _ demo_outside_serves])
       (simp_all add: reliable_dispatch_consumer_def Let_def catch_some_def run_simps message_with_def bad)
  then obtain s where run: "script_run ?E ?scr (script_start ?scr 0) [message_with [0xff, 1]] (Listening 0 2 s)" by blast
  from reliable_consumer_counts_bytes [OF run] have "(2::nat) = length (sm_payload (message_with [0xff, 1]))" by simp
  with run show ?thesis unfolding Let_def by blast
qed

section \<open>What the producers send\<close>

lemma printable_str_int [simp]: "printable (str_int i)"
  using printable_dec by (simp add: str_int_def printable_append) (simp add: printable_def)

lemma printable_Cons: "printable [] \<longleftrightarrow> True"
  "printable (c # s) \<longleftrightarrow> 0x20 \<le> (of_char c :: nat) \<and> of_char c \<le> (0x7E :: nat) \<and> printable s"
  by (simp_all add: printable_def)

lemma printable_text_wf: "printable s \<Longrightarrow> text_wf s"
proof -
  assume "printable s"
  then have "code_points s = map of_char s" "list_all (\<lambda>c. of_char c < (0x80 :: nat)) s"
    by (induction s) (auto simp: printable_def)
  moreover from this(2) have "concat (map utf8_enc (map of_char s)) = s"
    by (induction s) (auto simp: utf8_enc_def)
  ultimately show ?thesis by (auto simp: text_wf_def scalar_def list_all_iff)
qed

lemma printable_decodes: "printable s \<Longrightarrow> text_decodes (m\<lparr>sm_payload := encode s\<rparr>)"
  by (simp add: text_decodes_def decode_utf8_def utf8_printable)

lemma printable_pick: "list_all printable ss \<Longrightarrow> ss \<noteq> [] \<Longrightarrow> printable (ss ! (i mod length ss))"
  by (simp add: list_all_length)

lemma printable_lists:
  "list_all printable actions" "list_all printable keys" "list_all printable subjects" "list_all printable verbs"
  "list_all printable objects" "list_all printable conclusions"
  by code_simp+

lemma phrase_printable: "printable (phrase i)"
proof -
  have fixed: "printable '' ''" "printable '', with low latency and high throughput. ''"
    "printable ''It is designed for reliability, ''" by code_simp+
  have "subjects \<noteq> []" "verbs \<noteq> []" "objects \<noteq> []" "conclusions \<noteq> []"
    by (simp_all add: subjects_def verbs_def objects_def conclusions_def)
  with fixed printable_lists show ?thesis unfolding phrase_def
    by (simp only: printable_append printable_pick simp_thms)
qed

lemma json_message_wf: "json_wf (json_message i)"
  by (simp add: json_message_def printable_text_wf printable_Cons)

lemma user_event_wf: "json_wf (user_event now i)"
proof -
  have "printable (actions ! (i mod length actions))"
    by (rule printable_pick [OF printable_lists(1)]) (simp add: actions_def)
  then show ?thesis
    by (simp add: user_event_def printable_text_wf printable_Cons)
qed

text \<open>C14: The consumer scripts accept what the producer scripts send: \<open>json_consumer.py\<close> and the
  validated one every message of \<open>json_producer.py\<close>, \<open>avro_consumer.py\<close> every event of
  \<open>avro_producer.py\<close> at whatever time it was made, and the consumers of text every order event, greeting and phrase
  of the key-shared, partitions and reliable producers. What \<open>json.loads\<close> gives the JSON consumers
  is the value that was dumped.\<close>

theorem producers_are_understood:
  "let carrying = (\<lambda>payload. m\<lparr>sm_payload := payload\<rparr>) in
     loads (encode (dumps (json_message i))) = Inr (json_message i)
    \<and> json_decodes (\<lambda>v. True) (carrying (encode (dumps (json_message i))))
    \<and> json_decodes json_object (carrying (encode (dumps (json_message i))))
    \<and> loads (encode (dumps (user_event now i))) = Inr (user_event now i)
    \<and> json_decodes avro_complete (carrying (encode (dumps (user_event now i))))
    \<and> text_decodes (carrying (encode (order_event i (keys ! (j mod length keys)))))
    \<and> text_decodes (carrying (encode (hello i))) \<and> text_decodes (carrying (encode (phrase i)))"
proof -
  have "printable (keys ! (j mod length keys))"
    by (rule printable_pick [OF printable_lists(2)]) (simp add: keys_def)
  moreover have "printable ''Order event #''" "printable '' for key=''" "printable ''Hello Danube ''"
    by code_simp+
  ultimately have texts: "printable (order_event i (keys ! (j mod length keys)))" "printable (hello i)"
    by (simp_all only: order_event_def hello_def printable_append printable_str_int)
  have complete: "avro_complete (user_event now i)" "json_object (json_message i)"
    by (simp_all add: avro_complete_def user_event_def json_object_def json_message_def)
  show ?thesis unfolding Let_def
    by (intro conjI printable_decodes texts phrase_printable)
       (simp_all add: json_decodes_def loads_dumps [OF json_message_wf] loads_dumps [OF user_event_wf] complete)
qed

end
