(* ===== verification/ScriptSends.thy ===== *)
theory ScriptSends
  imports ExampleProducers ProducerProperties
begin

text \<open>
  What a producer script has sent: the messages of the trace, in rounds. One send gives messages
  with its data and key for one topic, and at least one if it returns. The contract of a script's
  round is a locale, with what a whole loop sends proved once; the interpretations are the loops
  of the scripts of \<open>ExampleProducers\<close>.
\<close>

section \<open>The messages of a trace\<close>

definition carries_only :: "string \<Rightarrow> bytes \<Rightarrow> string option \<Rightarrow> StreamMessage \<Rightarrow> bool" where
  "carries_only topic d k m \<longleftrightarrow> mi_topic_name (sm_msg_id m) = topic \<and> sm_payload m = d \<and> sm_routing_key m = k"

lemma emits_sends_only:
  assumes "emits (sends_only topic d k) v w"
  obtains ms where "sends ms v w" and "list_all (carries_only topic d k) ms"
proof -
  have "list_all (carries_only topic d k) (List.map_filter sent_in obs) \<and> List.map_filter ack_in obs = []"
    if "list_all (sends_only topic d k) obs" for obs
    using that
  proof (induction obs)
    case (Cons ob obs)
    then show ?case by (cases ob rule: ack_in.cases) (auto simp: map_filter_def carries_only_def)
  qed (simp add: map_filter_def)
  then show ?thesis using assms that
    by (auto simp: emits_def sends_def sent_def acks_def map_filter_def)
qed

section \<open>A send that returns has sent\<close>

lemma tp_send_returns:
  assumes "tp_send E d a k (t, w) = (Inr x, (t', w'))"
  shows "length (sent w') = Suc (length (sent w))"
proof (cases "tp_stub t")
  case None
  with assms show ?thesis by (simp add: tp_send_disconnected)
next
  case (Some ch)
  obtain now y where clock: "clock_ms E (outside w) = (now, y)" by (meson surj_pair)
  define t1 where "t1 = t\<lparr>tp_request_id := Suc (tp_request_id t)\<rparr>"
  obtain r w2 where h: "tp_headers (t1, w\<lparr>outside := y\<rparr>) = (r, (t1, w2))"
    and tr: "trace w2 = trace w"
    by (rule tp_headers_frame [of t1 "w\<lparr>outside := y\<rparr>"]) (rule that, assumption, simp)
  show ?thesis
    using assms Some clock h tr
    by (auto simp: tp_send_def run_simps t1_def [symmetric] Let_def sent_def map_filter_def
        split: sum.splits prod.splits)
qed

lemma tp_send_loop_returns:
  assumes "tp_send_loop E rm d a k n s = Some y" and "fst y = Inr x" and "rm_ok (tp_retry_manager (fst s))"
  shows "length (sent (snd s)) < length (sent (snd (snd y)))"
  using assms unfolding tp_send_loop_def
proof (induction rule: until_done_induct)
  case (finish n s x s1)
  then show ?case using tp_send_returns [of E d a k "fst s" "snd s" x "fst s1" "snd s1"] by simp
next
  case (again n s err s1 n' s2 y)
  have rm1: "rm_ok (tp_retry_manager (fst s1))"
    using again stays_snd [OF fixed_methods(3) [where E = E and d = d and a = a and k = k], of s]
    by (simp add: same_def tp_identity_def)
  have rm2: "rm_ok (tp_retry_manager (fst s2))"
    using again tp_recover_identity [OF rm1, of E rm n err] rm1 by (simp add: same_def tp_identity_def)
  have "emits (sends_only (tp_topic (fst s)) d k) (snd s) (snd s1)"
    using tp_send_emits [of s d k E a] again by (simp add: on_world_def)
  then obtain ms where "sends ms (snd s) (snd s1)" by (rule emits_sends_only)
  moreover have "sends [] (snd s1) (snd s2)"
    using tp_recover_emits [OF rm1, of E rm n err] again by (simp add: on_world_def quiet_sends)
  ultimately show ?case using again.IH [OF again.prems(1) rm2] by (simp add: sends_def)
qed simp

section \<open>One send of a producer\<close>

text \<open>The topic producers of a producer: one for each of the topics \<open>T\<close>, on a stop event that exists.\<close>

definition holds :: "(nat \<Rightarrow> string) \<Rightarrow> nat \<Rightarrow> 'w p_state \<Rightarrow> bool" where
  "holds T n s \<longleftrightarrow> length (p_producers (fst s)) = n
     \<and> (\<forall>j < n. \<exists>t. p_producers (fst s) ! j = Some t \<and> rm_ok (tp_retry_manager t) \<and> tp_topic t = T j
          \<and> tp_stop_event t < length (events (snd s)))"

definition same_shape :: "Producer \<Rightarrow> Producer \<Rightarrow> bool" where
  "same_shape p p' \<longleftrightarrow> p_partitions p' = p_partitions p \<and> p_message_router p' = p_message_router p"

lemma holds_grows: "holds T n (p, v) \<Longrightarrow> grows v w \<Longrightarrow> holds T n (p, w)"
  by (auto simp: holds_def grows_def intro: less_le_trans)

lemma tp_send_loop_grows:
  assumes "tp_send_loop E rm d a k n s = Some y" and "rm_ok (tp_retry_manager (fst s))"
  shows "on_world grows s (snd y)"
proof -
  let ?I = "\<lambda>u. rm_ok (tp_retry_manager (fst u))"
  have "?I (snd y) \<and> on_world grows s (snd y)"
    using assms(1) unfolding tp_send_loop_def
  proof (rule until_done_invar [OF _ ow_grows.evolution_axioms])
    fix u :: "'a tp_state"
    assume u: "?I u"
    show "?I (snd (tp_send E d a k u)) \<and> on_world grows u (snd (tp_send E d a k u))"
      using u stays_snd [OF fixed_methods(3) [where E = E and d = d and a = a and k = k], of u]
        stays_snd [OF tp_send_keeps(1)]
      by (simp add: same_def tp_identity_def)
    have "on_world grows u (snd (tp_recover E rm n e u))" for n e
    proof (rule tp_recover_keeps [OF ow_grows.evolution_axioms u])
      show "on_world grows (t, w) (t', snd (handle_lookup E a topic w))" for a topic t t' w
        using stays_snd [OF handle_lookup_keeps(1)] by (simp add: on_world_def)
      show "on_world grows s (snd (pause E rm n s))" for n s
        by (rule stays_snd [OF pause_keeps(1)])
    qed (rule tp_create_grows)
    then show "?I (snd (tp_recover E rm n e u)) \<and> on_world grows u (snd (tp_recover E rm n e u))" for n e
      using u tp_recover_identity [OF u, of E rm n e] by (simp add: same_def tp_identity_def)
  qed (rule assms(2))
  then show ?thesis by simp
qed

lemma send_loop_grows:
  assumes "holds T n (p, w)" and "j < n"
    and "send_loop E (int j) rm d a k m (p, w) = Some (r, (p', w'))"
  shows "grows w w'"
proof -
  obtain t where t: "p_producers p ! j = Some t" "rm_ok (tp_retry_manager t)"
    and len: "length (p_producers p) = n" using assms(1,2) by (auto simp: holds_def)
  have j: "j < length (p_producers p)" using assms(2) len by simp
  have "(p, w) = at_part j p (t, w)" using put_tp_same [OF t(1)] by (simp add: at_part_def)
  with assms(3) obtain y where run: "tp_send_loop E rm d a k m (t, w) = Some y"
    and y: "map_prod id (at_part j p) y = (r, (p', w'))"
    by (auto simp: send_loop_part [OF j])
  show ?thesis using tp_send_loop_grows [OF run] t(2) y
    by (cases y) (auto simp: at_part_def on_world_def)
qed

lemma send_loop_sends:
  assumes "holds T n (p, w)" and "j < n"
    and "send_loop E (int j) rm d a k m (p, w) = Some (r, (p', w'))"
  obtains ms where "sends ms w w'" and "list_all (carries_only (T j) d k) ms" and "\<And>x. r = Inr x \<Longrightarrow> ms \<noteq> []"
    and "holds T n (p', w')" and "same_shape p p'"
proof -
  obtain t where t: "p_producers p ! j = Some t" "rm_ok (tp_retry_manager t)" "tp_topic t = T j"
    "tp_stop_event t < length (events w)"
    and len: "length (p_producers p) = n" using assms(1,2) by (auto simp: holds_def)
  have j: "j < length (p_producers p)" using assms(2) len by simp
  note at = send_loop_at [OF j t(1,2) assms(3)]
  obtain ms where ms: "sends ms w w'" "list_all (carries_only (T j) d k) ms"
    using emits_sends_only [OF at(1)] t(3) by metis
  obtain t' where p': "p' = put_tp j p t'" and id: "tp_identity t' = tp_identity t" using at(2) by blast
  have "(p, w) = at_part j p (t, w)" using put_tp_same [OF t(1)] by (simp add: at_part_def)
  with assms(3) obtain y where run: "tp_send_loop E rm d a k m (t, w) = Some y"
    and y: "map_prod id (at_part j p) y = (r, (p', w'))"
    by (auto simp: send_loop_part [OF j])
  have g: "grows w w'" by (rule send_loop_grows [OF assms])
  have "ms \<noteq> []" if "r = Inr x" for x
    using tp_send_loop_returns [OF run, of x] y t(2) that ms(1)
    by (cases y) (auto simp: at_part_def sends_def)
  moreover have "tp_topic t' = T j" "rm_ok (tp_retry_manager t')" "tp_stop_event t' = tp_stop_event t"
    using id t by (simp_all add: tp_identity_def)
  then have "holds T n (p', w)"
    using assms(1,2) t(4) by (auto simp: holds_def p' put_tp_def nth_list_update)
  then have "holds T n (p', w')" using g by (rule holds_grows)
  moreover have "same_shape p p'" by (simp add: same_shape_def p' put_tp_def)
  ultimately show ?thesis using that ms by blast
qed

text \<open>A producer without partitions, and one over \<open>n\<close> partitions whose next one is \<open>j\<close>.\<close>

definition single :: "string \<Rightarrow> 'w p_state \<Rightarrow> bool" where
  "single topic s \<longleftrightarrow> holds (\<lambda>_. topic) 1 s \<and> p_partitions (fst s) = 0"

definition rotating :: "string \<Rightarrow> nat \<Rightarrow> nat \<Rightarrow> 'w p_state \<Rightarrow> bool" where
  "rotating topic n i s \<longleftrightarrow> holds (\<lambda>j. part_topic topic (int j)) n s \<and> 0 < n \<and> p_partitions (fst s) = int n
     \<and> (\<exists>router. p_message_router (fst s) = Some router \<and> mr_partitions router = int n
          \<and> (mr_last router + 1) mod int n = int (i mod n))"

lemma single_send_loop:
  assumes "single topic (p, w)"
  shows "holds (\<lambda>_. topic) 1 (p, w)"
    and "p_send E d a (p, w) = send_loop E (int 0) (retry_of (p_options p)) d a None 0 (p, w)"
  using assms by (auto simp: single_def holds_def p_send_def prepare_send_def select_partition_def run_simps)

lemma single_send:
  assumes "single topic (p, w)" and "p_send E d a (p, w) = Some (r, (p', w'))"
  obtains ms where "sends ms w w'" and "list_all (carries_only topic d None) ms" and "\<And>x. r = Inr x \<Longrightarrow> ms \<noteq> []"
    and "single topic (p', w')"
proof -
  have "send_loop E (int 0) (retry_of (p_options p)) d a None 0 (p, w) = Some (r, (p', w'))"
    using assms(2) by (simp add: single_send_loop(2) [OF assms(1)])
  from send_loop_sends [OF single_send_loop(1) [OF assms(1)] _ this] assms(1) that show ?thesis
    by (auto simp: single_def same_shape_def)
qed

lemma single_send_grows:
  assumes "single topic (p, w)" and "p_send E d a (p, w) = Some (r, (p', w'))"
  shows "grows w w'"
  using send_loop_grows [OF single_send_loop(1) [OF assms(1)]] assms(2) single_send_loop(2) [OF assms(1), of E d a]
  by fastforce

lemma single_send_with_key:
  assumes "single topic (p, w)" and "p_send_with_key E d a key (p, w) = Some (r, (p', w'))"
  obtains ms where "sends ms w w'" and "list_all (carries_only topic d (Some key)) ms"
    and "\<And>x. r = Inr x \<Longrightarrow> ms \<noteq> []" and "single topic (p', w')"
proof -
  have parts: "holds (\<lambda>_. topic) 1 (p, w)" "p_partitions p = 0" "length (p_producers p) = 1" "p_producers p \<noteq> []"
    using assms(1) by (auto simp: single_def holds_def)
  then have "send_loop E (int 0) (retry_of (p_options p)) d a (Some key) 0 (p, w) = Some (r, (p', w'))"
    using assms(2) by (simp add: p_send_with_key_def prepare_send_def select_partition_for_key_def run_simps)
  from send_loop_sends [OF parts(1) _ this] parts(2) that show ?thesis
    by (auto simp: single_def same_shape_def)
qed

lemma rotating_send:
  assumes "rotating topic n i (p, w)" and "p_send E d a (p, w) = Some (r, (p', w'))"
  obtains ms where "sends ms w w'" and "list_all (carries_only (part_topic topic (int (i mod n))) d None) ms"
    and "\<And>x. r = Inr x \<Longrightarrow> ms \<noteq> []" and "rotating topic n (Suc i) (p', w')"
proof -
  let ?T = "\<lambda>j. part_topic topic (int j)"
  obtain router where parts: "holds ?T n (p, w)" "0 < n" "p_partitions p = int n" "length (p_producers p) = n"
    "p_message_router p = Some router" "mr_partitions router = int n" "(mr_last router + 1) mod int n = int (i mod n)"
    using assms(1) by (auto simp: rotating_def holds_def)
  define p1 where "p1 = p\<lparr>p_message_router := Some (router\<lparr>mr_last := int (i mod n)\<rparr>)\<rparr>"
  have "prepare_send select_partition (p, w) = (Inr (int (i mod n), retry_of (p_options p)), (p1, w))"
    using prepare_send_next [of p router w] parts by (simp add: p1_def)
  then have loop: "send_loop E (int (i mod n)) (retry_of (p_options p)) d a None 0 (p1, w) = Some (r, (p', w'))"
    using assms(2) by (simp add: p_send_def)
  have p1: "holds ?T n (p1, w)" using parts(1) by (simp add: holds_def p1_def)
  have next': "(int (i mod n) + 1) mod int n = int (Suc i mod n)"
    by (simp add: zmod_int) (simp add: mod_simps add.commute)
  have "i mod n < n" using parts(2) by simp
  from send_loop_sends [OF p1 this loop] obtain ms where
    ms: "sends ms w w'" "list_all (carries_only (?T (i mod n)) d None) ms" "\<And>x. r = Inr x \<Longrightarrow> ms \<noteq> []"
    and p': "holds ?T n (p', w')" "same_shape p1 p'" by metis
  have "rotating topic n (Suc i) (p', w')"
    using p' parts(2,3,6) next' by (simp add: rotating_def same_shape_def p1_def)
  with ms that show ?thesis by blast
qed

section \<open>Creation\<close>

lemma created_sends_nothing:
  assumes "rm_ok (tp_retry_manager tp)" and "created E tp w = (r, w')"
  shows "emits quiet w w'"
proof -
  have "on_world (emits quiet) (tp, w) (snd (tp_create E (tp, w)))"
    by (rule tp_create_emits) (use assms(1) in auto)
  with assms(2) show ?thesis by (auto simp: created_def on_world_def split: prod.splits sum.splits)
qed

lemma create_parts_sends_nothing:
  assumes "schedule order (length tps)" and "\<forall>t \<in> set tps. rm_ok (tp_retry_manager t)"
    and "create_parts E order tps w = (r, w')"
  shows "emits quiet w w' \<and> grows w w'"
proof -
  let ?n = "length tps"
  let ?ms = "map2 (create_one E) [0..<?n] tps"
  define Q where "Q v \<longleftrightarrow> emits quiet w v \<and> grows w v" for v
  obtain r s' where g: "gather order ?ms (replicate ?n None, w) = (r, s')" by (meson surj_pair)
  then obtain e xs where run: "gather_run order (\<lambda>i. ?ms ! i) (replicate ?n None, w) = ((e, xs), s')"
    by (rule gather_cases)
  have step: "Q (snd s1)" if i: "i \<in> {..<?n}" and "Q (snd s)" and "(?ms ! i) s = (x, s1)" for i s x s1
  proof -
    have rm: "rm_ok (tp_retry_manager (tps ! i))" using assms(2) i by simp
    obtain r2 w2 where c: "created E (tps ! i) (snd s) = (r2, w2)" by (meson surj_pair)
    have "snd s1 = w2" using that c by (cases s; cases r2) (auto simp: create_one_def run_simps)
    with that(2) created_sends_nothing [OF rm c] created_run(1) [OF rm c] show ?thesis
      by (auto simp: Q_def intro: emits.trans grows.trans)
  qed
  have "Q (snd s') \<and> dom xs \<subseteq> set order \<and> (e = None \<longrightarrow> dom xs = set order)"
  proof (rule gather_run_invar [OF run, where P = "\<lambda>m s. Q (snd s)" and m = Map.empty and I = "{..<?n}"])
    show "distinct order" "set order \<subseteq> {..<?n}" using assms(1) by (auto simp: schedule_def)
    show "Q (snd (replicate ?n None, w))" by (simp add: Q_def emits.refl grows.refl)
  qed (simp, (rule step; assumption)+)
  moreover have "w' = snd s'" using assms(3) g by (auto simp: create_parts_def split: prod.splits sum.splits)
  ultimately show ?thesis by (simp add: Q_def)
qed

lemma single_created:
  assumes "p_partitions p = 0" and "p_create E order (p, w) = (r, (p', w'))"
  shows "sends [] w w'" and "grows w w'" and "r = Inr () \<Longrightarrow> single (p_topic_name p) (p', w')"
proof -
  let ?tp = "fresh_tp p (p_topic_name p) (p_producer_name p) (length (events w)) (uri w)"
  let ?w = "w\<lparr>events := events w @ [False]\<rparr>"
  obtain r1 w1 where c: "created E ?tp ?w = (r1, w1)" by (meson surj_pair)
  have rm: "rm_ok (tp_retry_manager ?tp)" by simp
  have run: "w' = w1" "r1 = Inr t \<Longrightarrow> p' = p\<lparr>p_producers := [Some t]\<rparr>" "r = Inr () \<Longrightarrow> \<exists>t. r1 = Inr t" for t
    using assms c by (auto simp: p_create_def run_simps split: sum.splits)
  have "sends [] ?w w1" by (rule quiet_sends [OF created_sends_nothing [OF rm c]])
  then show "sends [] w w'" using run(1) by (simp add: sends_def sent_def acks_def)
  have "grows w ?w" by (simp add: grows_def)
  with created_run(1) [OF rm c] run(1) show "grows w w'" by (blast intro: grows.trans)
  assume "r = Inr ()"
  then obtain t where t: "r1 = Inr t" using run(3) by blast
  have "tp_identity t = tp_identity ?tp" using created_run(2) [OF rm c t] by simp
  then have id: "tp_topic t = p_topic_name p" "rm_ok (tp_retry_manager t)" "tp_stop_event t = length (events w)"
    by (simp_all add: tp_identity_def)
  have "length (events ?w) \<le> length (events w1)" using created_run(1) [OF rm c] by (simp add: grows_def)
  then show "single (p_topic_name p) (p', w')"
    using id assms(1) by (simp add: single_def holds_def run(1) run(2) [OF t])
qed

lemma rotating_created:
  assumes "p_partitions p = int n" and "0 < n" and "schedule order n"
    and "p_create E order (p, w) = (r, (p', w'))"
  shows "sends [] w w'" and "r = Inr () \<Longrightarrow> rotating (p_topic_name p) n 0 (p', w')"
proof -
  define p1 where "p1 = p\<lparr>p_message_router := Some (new_MessageRouter (int n))\<rparr>"
  define tps where "tps = map (\<lambda>i. fresh_tp p1 (part_topic (p_topic_name p) (int i))
    (part_name (p_producer_name p) (int i)) (length (events w) + i) (uri w)) [0..<n]"
  define w0 where "w0 = w\<lparr>events := events w @ replicate n False\<rparr>"
  obtain r1 w1 where parts: "create_parts E order tps w0 = (r1, w1)" by (meson surj_pair)
  have run: "w' = w1" "r1 = Inr ps \<Longrightarrow> p' = p1\<lparr>p_producers := ps\<rparr>" "r = Inr () \<Longrightarrow> \<exists>ps. r1 = Inr ps" for ps
    using assms(4) parts unfolding p_create_parts_run [OF assms(1,2)] Let_def p1_def [symmetric] tps_def [symmetric]
      w0_def [symmetric] by (auto split: sum.splits)
  have sched: "schedule order (length tps)" and rm: "\<forall>t \<in> set tps. rm_ok (tp_retry_manager t)"
    using assms(3) by (simp_all add: tps_def)
  note quiet = create_parts_sends_nothing [OF sched rm parts]
  then have "sends [] w0 w1" by (blast intro: quiet_sends)
  then show "sends [] w w'" by (simp add: sends_def sent_def acks_def w0_def run(1))
  assume "r = Inr ()"
  then obtain ps where ps: "r1 = Inr ps" using run(3) by blast
  have all: "length ps = n" "\<And>i. i < n \<Longrightarrow> \<exists>t. ps ! i = Some t \<and> tp_identity t = tp_identity (tps ! i)"
    using create_parts_ok [OF sched rm parts [unfolded ps]] by (auto simp: tps_def)
  have events: "length (events w) + n \<le> length (events w1)"
    using quiet by (simp add: grows_def w0_def)
  have "\<exists>t. ps ! i = Some t \<and> rm_ok (tp_retry_manager t) \<and> tp_topic t = part_topic (p_topic_name p) (int i)
      \<and> tp_stop_event t < length (events w1)" if "i < n" for i
    using all(2) [OF that] that events by (auto simp: tps_def tp_identity_def)
  then show "rotating (p_topic_name p) n 0 (p', w')"
    using all(1) assms(1,2)
    by (simp add: rotating_def holds_def run(1) run(2) [OF ps] p1_def new_MessageRouter_def)
qed

section \<open>Closing\<close>

lemma close_held:
  assumes "holds T n s"
  obtains p' w' where "p_close s = (Inr (), (p', w'))" and "sends [] (snd s) w'" and "conn_mgr w' = conn_mgr (snd s)"
    and "length (p_producers p') = n"
    and "\<And>j. j < n \<Longrightarrow> \<exists>t. p_producers p' ! j = Some t \<and> is_set (tp_stop_event t) w' \<and> tp_health_task t = None"
proof -
  obtain p w where s: "s = (p, w)" by (meson surj_pair)
  let ?off = "map_option (\<lambda>t. t\<lparr>tp_health_task := None\<rparr>)"
  have len: "length (p_producers p) = n" and all: "\<forall>k < length (p_producers p). p_producers p ! k \<noteq> None"
    using assms by (auto simp: holds_def s)
  obtain ys w' where run: "for_each (\<lambda>i. on_producer (int i) tp_stop) [0..<length (p_producers p)] (p, w) =
       (Inr ys, (p\<lparr>p_producers := take 0 (p_producers p) @ map ?off (drop 0 (p_producers p))\<rparr>, w'))"
    and down: "winds_down w w'" and held: "\<forall>t. Some t \<in> set (drop 0 (p_producers p)) \<longrightarrow> stopped_if_held t w'"
    using stop_parts [of 0 p w] all by blast
  have "\<exists>t. map ?off (p_producers p) ! j = Some t \<and> is_set (tp_stop_event t) w' \<and> tp_health_task t = None"
    if "j < n" for j
  proof -
    from assms obtain t where t: "p_producers p ! j = Some t" "tp_stop_event t < length (events w)"
      using \<open>j < n\<close> unfolding holds_def s by force
    then have "Some t \<in> set (p_producers p)" using that len nth_mem by metis
    then have "is_set (tp_stop_event t) w'" using held t(2) down by (simp add: stopped_if_held_def winds_down_def)
    with t(1) that len show ?thesis by simp
  qed
  moreover have "conn_mgr w' = conn_mgr w" "trace w' = trace w" using down by (simp_all add: winds_down_def)
  ultimately show ?thesis
    using that [of "p\<lparr>p_producers := map ?off (p_producers p)\<rparr>" w'] run len
    by (simp add: s p_close_def run_simps sends_nothing)
qed

section \<open>The contract of a round\<close>

lemma nap_run:
  "on_snd (nap interrupt i d) (p, w) =
     (if interrupt = Some i then Inl CancelledError else Inr (), (p, w\<lparr>trace := trace w @ [Sleep d]\<rparr>))"
  by (simp add: nap_def run_simps)

text \<open>The messages of a run in rounds: those of round \<open>i\<close> satisfy \<open>P i\<close>.\<close>

definition in_rounds :: "(nat \<Rightarrow> StreamMessage \<Rightarrow> bool) \<Rightarrow> StreamMessage list list \<Rightarrow> bool" where
  "in_rounds P bs \<longleftrightarrow> (\<forall>i < length bs. list_all (P i) (bs ! i))"

lemma in_rounds_simps: "in_rounds P []"
  "in_rounds P (ms # bs) \<longleftrightarrow> list_all (P 0) ms \<and> in_rounds (\<lambda>i. P (Suc i)) bs"
  by (auto simp: in_rounds_def less_Suc_eq_0_disj nth_Cons')

text \<open>The last of \<open>n\<close> rounds raised \<open>asyncio.CancelledError\<close>, when \<open>ms\<close> was all that had been sent.\<close>

definition cut_short :: "(nat \<Rightarrow> ('w p_state, unit) prog) \<Rightarrow> nat \<Rightarrow> StreamMessage list \<Rightarrow> bool" where
  "cut_short body n ms \<longleftrightarrow>
     (\<exists>i s s'. n = Suc i \<and> body i s = Some (Inl CancelledError, s') \<and> sent (snd s') = ms)"

text \<open>What a script of \<open>n\<close> rounds that ended with \<open>r\<close> has sent. If \<open>sure\<close>, a round that goes on has sent.\<close>

definition sent_rounds :: "(nat \<Rightarrow> StreamMessage \<Rightarrow> bool) \<Rightarrow> nat \<Rightarrow> bool \<Rightarrow> (nat \<Rightarrow> ('w p_state, unit) prog)
    \<Rightarrow> exn + unit \<Rightarrow> 'w World \<Rightarrow> bool" where
  "sent_rounds P n sure body r w \<longleftrightarrow> (\<exists>bs. sent w = concat bs \<and> in_rounds P bs \<and> length bs \<le> n
     \<and> (sure \<longrightarrow> [] \<notin> set (butlast bs))
     \<and> (r = Inr () \<longrightarrow> length bs = n \<and> (sure \<longrightarrow> [] \<notin> set bs) \<or> cut_short body (length bs) (sent w)))"

text \<open>What \<open>close\<close> leaves: no health check is kept, and every topic producer's stop event is set.\<close>

definition closed_in :: "Producer option \<Rightarrow> 'w World \<Rightarrow> bool" where
  "closed_in held w \<longleftrightarrow> (\<forall>p t. held = Some p \<and> Some t \<in> set (p_producers p) \<longrightarrow>
     is_set (tp_stop_event t) w \<and> tp_health_task t = None)"

locale producing =
  fixes before :: "('w World, Producer) py" and E :: "'w Outside" and order :: "nat list" and parts :: nat
    and body :: "nat \<Rightarrow> ('w p_state, unit) prog" and rounds :: nat and sure :: bool
    and ready :: "nat \<Rightarrow> 'w p_state \<Rightarrow> bool" and P :: "nat \<Rightarrow> StreamMessage \<Rightarrow> bool" and x :: 'w
  assumes begun: "before (example_client x) = (r0, w) \<Longrightarrow> sends [] (example_client x) w"
    and create: "before (example_client x) = (Inr p, w) \<Longrightarrow> (1 < parts \<Longrightarrow> schedule order parts) \<Longrightarrow>
      p_create E order (p, w) = (r, (p', w')) \<Longrightarrow>
      sends [] w w' \<and> (case r of Inl e \<Rightarrow> p_producers p' = [] | Inr _ \<Rightarrow> ready 0 (p', w'))"
    and round: "ready i (p, w) \<Longrightarrow> body i (p, w) = Some (r, (p', w')) \<Longrightarrow>
      \<exists>ms j. sends ms w w' \<and> list_all (P i) ms \<and> ready j (p', w') \<and> (r = Inr () \<longrightarrow> j = Suc i \<and> (sure \<longrightarrow> ms \<noteq> []))"
    and holding: "ready i s \<Longrightarrow> \<exists>T. holds T parts s"
begin

lemma loop:
  assumes "ready a (p, w)" and "each body [a..<a + k] (p, w) = Some (r, (p', w'))"
  shows "\<exists>bs j. sends (concat bs) w w' \<and> in_rounds (\<lambda>i. P (a + i)) bs \<and> length bs \<le> k \<and> ready j (p', w')
    \<and> (sure \<longrightarrow> [] \<notin> set (butlast bs)) \<and> (r = Inr () \<longrightarrow> length bs = k \<and> (sure \<longrightarrow> [] \<notin> set bs))
    \<and> (\<forall>e. r = Inl e \<longrightarrow> (\<exists>i s. length bs = Suc i \<and> body (a + i) s = Some (r, (p', w'))))"
  using assms
proof (induction k arbitrary: a p w)
  case 0
  then show ?case by (auto simp: run_simps sends_nothing in_rounds_simps intro!: exI [of _ "[]"])
next
  case (Suc k)
  have "[a..<a + Suc k] = a # [Suc a..<Suc a + k]" by (simp add: upt_conv_Cons del: upt_Suc)
  note run = Suc.prems(2) [unfolded this each.simps]
  obtain r1 p1 w1 where first: "body a (p, w) = Some (r1, (p1, w1))"
    using run by (auto simp: run_simps split: option.splits)
  obtain ms j where ms: "sends ms w w1" "list_all (P a) ms" "ready j (p1, w1)"
    "r1 = Inr () \<longrightarrow> j = Suc a \<and> (sure \<longrightarrow> ms \<noteq> [])"
    using round [OF Suc.prems(1) first] by blast
  show ?case
  proof (cases r1)
    case (Inl e)
    then have "r = Inl e" "p' = p1" "w' = w1" using run first by (auto simp: run_simps)
    then show ?thesis using ms Inl first
      by (intro exI [of _ "[ms]"] exI [of _ j]) (auto simp: in_rounds_simps)
  next
    case (Inr u)
    then have next_ready: "ready (Suc a) (p1, w1)" and some: "sure \<longrightarrow> ms \<noteq> []" using ms by simp_all
    have "each body [Suc a..<Suc a + k] (p1, w1) = Some (r, (p', w'))"
      using run first Inr by (simp add: run_simps)
    from Suc.IH [OF next_ready this] obtain bs j' where rest: "sends (concat bs) w1 w'"
      "in_rounds (\<lambda>i. P (Suc a + i)) bs" "length bs \<le> k" "ready j' (p', w')"
      "sure \<longrightarrow> [] \<notin> set (butlast bs)" "r = Inr () \<longrightarrow> length bs = k \<and> (sure \<longrightarrow> [] \<notin> set bs)"
      "\<forall>e. r = Inl e \<longrightarrow> (\<exists>i s. length bs = Suc i \<and> body (Suc a + i) s = Some (r, (p', w')))" by blast
    then have "\<forall>e. r = Inl e \<longrightarrow> (\<exists>i s. length (ms # bs) = Suc i \<and> body (a + i) s = Some (r, (p', w')))"
      by (metis add_Suc_shift length_Cons)
    with rest ms(2) some sends_trans [OF ms(1) rest(1)] show ?thesis
      by (intro exI [of _ "ms # bs"] exI [of _ j']) (auto simp: in_rounds_simps)
  qed
qed

text \<open>What a script that has returned has sent, and what its \<open>finally\<close> has done.\<close>

lemma script_result:
  assumes "sending_script before E order body rounds x = Some (r, held, w')"
    and "1 < parts \<Longrightarrow> schedule order parts" and "trace (example_client x) = []"
  shows "sent_rounds P rounds sure body r w' \<and> closed_in held w'"
proof -
  have none: "sent (example_client x) = []" using assms(3) by (simp add: sent_def map_filter_def)
  obtain r0 w0 where start: "before (example_client x) = (r0, w0)" by (meson surj_pair)
  have w0: "sent w0 = []" using begun [OF start] none by (simp add: sends_def)
  show ?thesis
  proof (cases r0)
    case (Inl e)
    then have "r = Inl e" "held = None" "w' = w0" using assms(1) start by (simp_all add: sending_script_def producer_script_def)
    with w0 show ?thesis
      by (auto simp: sent_rounds_def closed_in_def in_rounds_simps intro!: exI [of _ "[]"])
  next
    case (Inr p)
    obtain r1 p1 w1 where made: "p_create E order (p, w0) = (r1, (p1, w1))" by (metis surj_pair)
    note created = create [OF start [unfolded Inr] assms(2) made]
    have w1: "sent w1 = []" using created w0 by (simp add: sends_def)
    show ?thesis
    proof (cases r1)
      case (Inl e)
      then have "r = Inl e" "held = Some p1" "w' = w1"
        using assms(1) start Inr made by (simp_all add: sending_script_def producer_script_def run_simps)
      with w1 created Inl show ?thesis
        by (auto simp: sent_rounds_def closed_in_def in_rounds_simps intro!: exI [of _ "[]"])
    next
      case Inr': (Inr u)
      have ready: "ready 0 (p1, w1)" using created Inr' by simp
      obtain r2 p2 w2 where looped: "each body [0..<0 + rounds] (p1, w1) = Some (r2, (p2, w2))"
        using assms(1) start Inr made Inr'
        by (auto simp: sending_script_def producer_script_def run_simps then_close_def split: option.splits)
      obtain bs j where bs: "sends (concat bs) w1 w2" "in_rounds P bs" "length bs \<le> rounds" "ready j (p2, w2)"
        "sure \<longrightarrow> [] \<notin> set (butlast bs)" "r2 = Inr () \<longrightarrow> length bs = rounds \<and> (sure \<longrightarrow> [] \<notin> set bs)"
        "\<forall>e. r2 = Inl e \<longrightarrow> (\<exists>i s. length bs = Suc i \<and> body i s = Some (r2, (p2, w2)))"
        using loop [OF ready looped] by auto
      obtain T where "holds T parts (p2, w2)" using holding [OF bs(4)] by blast
      then obtain p3 w3 where closed: "p_close (p2, w2) = (Inr (), (p3, w3))" "sends [] w2 w3"
        "length (p_producers p3) = parts"
        "\<And>j. j < parts \<Longrightarrow> \<exists>t. p_producers p3 ! j = Some t \<and> is_set (tp_stop_event t) w3 \<and> tp_health_task t = None"
        by (rule close_held) (metis snd_conv)
      have result: "r = (if r2 = Inl CancelledError then Inr () else r2)" "held = Some p3" "w' = w3"
        using assms(1) start Inr made Inr' looped closed(1)
        by (cases r2; auto simp: sending_script_def producer_script_def run_simps then_close_def split: if_splits)+
      have all: "sent w' = concat bs" "sent w2 = sent w'" using bs(1) closed(2) w1 by (simp_all add: result sends_def)
      have "r2 = Inl CancelledError \<longrightarrow> cut_short body (length bs) (sent w')"
        using bs(7) all(2) unfolding cut_short_def by (metis snd_conv)
      with bs(2,3,5,6) all(1) have "sent_rounds P rounds sure body r w'"
        by (auto simp: sent_rounds_def result(1) split: if_splits)
      moreover have "closed_in held w'"
        using closed(3,4) by (fastforce simp: closed_in_def result in_set_conv_nth)
      ultimately show ?thesis by blast
    qed
  qed
qed

end

end
