(* ===== verification/ScriptLoops.thy ===== *)
theory ScriptLoops
  imports ScriptSends
begin

text \<open>
  The producer scripts keep the contract of theory \<open>ScriptSends\<close>: what each has before its loop, and
  what a round of its loop sends.
\<close>

section \<open>Before the loop\<close>

lemma register_sends_nothing:
  assumes "register E subject ty schema w = (r, w')"
  shows "sends [] w w'"
proof -
  have "stays (emits quiet) (sb_execute E b)" for b
    unfolding sb_execute_def Let_def by (auto intro!: world_methods stays_rules split: option.split)
  from staysD [OF this assms [unfolded register_def]] show ?thesis by (rule quiet_sends)
qed

lemma build_producer_run:
  "build_producer settings w = (fst (bnd settings (\<lambda>_. pb_build) new_ProducerBuilder), w)"
  by (simp add: build_producer_def new_producer_def of_builder_def run_simps)

lemmas builder_simps = build_producer_run run_simps pb_with_topic_def pb_with_name_def pb_with_schema_subject_def
  pb_with_partitions_def pb_with_dispatch_strategy_def pb_build_def new_ProducerBuilder_def

text \<open>A script whose start sends nothing and gives a new producer.\<close>

definition begins :: "('w World, Producer) py \<Rightarrow> string \<Rightarrow> int \<Rightarrow> bool" where
  "begins before topic n \<longleftrightarrow> (\<forall>w r w'. before w = (r, w') \<longrightarrow> sends [] w w'
     \<and> (\<forall>p. r = Inr p \<longrightarrow> p_producers p = [] \<and> p_partitions p = n \<and> p_topic_name p = topic))"

lemma begins_build:
  assumes "case fst (bnd settings (\<lambda>_. pb_build) new_ProducerBuilder) of
    Inl _ \<Rightarrow> False | Inr p \<Rightarrow> p_producers p = [] \<and> p_partitions p = n \<and> p_topic_name p = topic"
  shows "begins (build_producer settings) topic n"
  using assms by (auto simp: begins_def build_producer_run sends_nothing split: sum.splits)

lemma begins_register:
  fixes E :: "'w Outside"
  assumes "begins (build_producer settings :: ('w World, Producer) py) topic n"
  shows "begins (bnd (register E subject ty schema) (\<lambda>_. build_producer settings)) topic n"
  unfolding begins_def
proof (intro allI impI)
  fix w r w'
  assume run: "bnd (register E subject ty schema) (\<lambda>_. build_producer settings) w = (r, w')"
  obtain r1 w1 where reg: "register E subject ty schema w = (r1, w1)" by (meson surj_pair)
  have quiet: "sends [] w w1" by (rule register_sends_nothing [OF reg])
  show "sends [] w w' \<and> (\<forall>p. r = Inr p \<longrightarrow> p_producers p = [] \<and> p_partitions p = n \<and> p_topic_name p = topic)"
  proof (cases r1)
    case (Inl e)
    then have "r = Inl e" "w' = w1" using run reg by (simp_all add: bnd_run)
    with quiet show ?thesis by simp
  next
    case (Inr v)
    then have "build_producer settings w1 = (r, w')" using run reg by (simp add: bnd_run)
    with assms have "sends [] w1 w' \<and> (\<forall>p. r = Inr p \<longrightarrow>
        p_producers p = [] \<and> p_partitions p = n \<and> p_topic_name p = topic)"
      unfolding begins_def by blast
    with sends_trans [OF quiet, of "[]" w'] show ?thesis by simp
  qed
qed

text \<open>Creation that fails leaves no topic producer; one that succeeds leaves the first round ready.\<close>

lemma create_failure: "p_producers p = [] \<Longrightarrow> p_create E order (p, w) = (Inl e, (p', w')) \<Longrightarrow> p_producers p' = []"
  by (auto simp: p_create_def run_simps p_topic_producers_run split: if_splits prod.splits sum.splits)

lemma create_single:
  assumes "begins before topic 0" and "before v = (Inr p, w)" and "p_create E order (p, w) = (r, (p', w'))"
  shows "sends [] w w' \<and> (case r of Inl e \<Rightarrow> p_producers p' = [] | Inr _ \<Rightarrow> single topic (p', w'))"
proof -
  have p: "p_producers p = []" "p_partitions p = 0" "p_topic_name p = topic"
    using assms(1,2) unfolding begins_def by blast+
  show ?thesis
    using single_created [OF p(2) assms(3)] create_failure [OF p(1)] assms(3) p(3)
    by (cases r) auto
qed

lemma create_rotating:
  assumes "begins before topic (int n)" and "0 < n" and "schedule order n"
    and "before v = (Inr p, w)" and "p_create E order (p, w) = (r, (p', w'))"
  shows "sends [] w w' \<and> (case r of Inl e \<Rightarrow> p_producers p' = [] | Inr _ \<Rightarrow> rotating topic n 0 (p', w'))"
proof -
  have p: "p_producers p = []" "p_partitions p = int n" "p_topic_name p = topic"
    using assms(1,4) unfolding begins_def by blast+
  show ?thesis
    using rotating_created [OF p(2) assms(2,3,5)] create_failure [OF p(1)] assms(5) p(3)
    by (cases r) auto
qed

section \<open>A round\<close>

text \<open>\<open>await producer.send(...)\<close>, then the sleep: what the send gives, the round gives.\<close>

lemma round_of_send:
  assumes "and_then m (\<lambda>_. run_py (on_snd (nap interrupt i d))) (p, w) = Some (r, (p', w'))"
    and send: "\<And>r1 p1 w1. m (p, w) = Some (r1, (p1, w1)) \<Longrightarrow>
      \<exists>ms. sends ms w w1 \<and> list_all Q ms \<and> (\<forall>v. r1 = Inr v \<longrightarrow> ok \<longrightarrow> ms \<noteq> []) \<and> ready (p1, w1)"
    and sleeps: "\<And>p w d. ready (p, w) \<Longrightarrow> ready (p, w\<lparr>trace := trace w @ [Sleep d]\<rparr>)"
  shows "\<exists>ms. sends ms w w' \<and> list_all Q ms \<and> (r = Inr () \<longrightarrow> ok \<longrightarrow> ms \<noteq> []) \<and> ready (p', w')"
proof -
  obtain r1 p1 w1 where first: "m (p, w) = Some (r1, (p1, w1))"
    using assms(1) by (auto simp: run_simps split: option.splits)
  obtain ms where ms: "sends ms w w1" "list_all Q ms" "\<forall>v. r1 = Inr v \<longrightarrow> ok \<longrightarrow> ms \<noteq> []" "ready (p1, w1)"
    using send [OF first] by blast
  show ?thesis
  proof (cases r1)
    case (Inl e)
    with ms assms(1) first show ?thesis by (auto simp: run_simps)
  next
    case (Inr v)
    then have "p' = p1" "w' = w1\<lparr>trace := trace w1 @ [Sleep d]\<rparr>"
      using assms(1) first by (simp_all add: and_then_run run_py_run nap_run)
    with ms sends_trans [OF ms(1) sends_sleep] sleeps [OF ms(4)] Inr show ?thesis by (intro exI [of _ ms]) simp
  qed
qed

lemma ready_sleeps:
  "single topic (p, w) \<Longrightarrow> single topic (p, w\<lparr>trace := trace w @ [Sleep d]\<rparr>)"
  "rotating topic n i (p, w) \<Longrightarrow> rotating topic n i (p, w\<lparr>trace := trace w @ [Sleep d]\<rparr>)"
  by (simp_all add: single_def rotating_def holds_def)

text \<open>\<open>try: await producer.send(...) except Exception\<close>\<close>

lemma reported_send:
  assumes "single topic (p, w)" and "send_or_report E d (p, w) = Some (r, (p', w'))"
  shows "\<exists>ms. sends ms w w' \<and> list_all (carries_only topic d None) ms \<and> single topic (p', w')"
proof -
  obtain r1 p1 w1 where sent: "p_send E d None (p, w) = Some (r1, (p1, w1))"
    using assms(2) by (auto simp: send_or_report_def run_simps split: option.splits)
  then have "p' = p1" "w' = w1"
    using assms(2) by (auto simp: send_or_report_def run_simps split: sum.splits if_splits)
  then show ?thesis using single_send [OF assms(1) sent] by metis
qed

section \<open>The scripts\<close>

lemma scripts_begin:
  "begins (json_before E) ''/default/test_topic'' 0" "begins (avro_before E) ''/default/user_events'' 0"
  "begins key_shared_before ''/default/topic_key_shared'' 0"
  "begins partitions_before ''/default/partitioned_topic'' (int 3)"
  "begins reliable_dispatch_before ''/default/reliable_topic'' 0"
  unfolding json_before_def avro_before_def key_shared_before_def partitions_before_def reliable_dispatch_before_def
  by (intro begins_register begins_build; simp add: builder_simps new_Producer_def)+

lemma begins_quiet: "begins before topic n \<Longrightarrow> before w = (r, w') \<Longrightarrow> sends [] w w'"
  unfolding begins_def by blast

text \<open>What the rounds send.\<close>

lemma json_round_sends:
  assumes "single topic (p, w)" and "json_round E interrupt i (p, w) = Some (r, (p', w'))"
  shows "\<exists>ms. sends ms w w' \<and> list_all (carries_only topic (encode (dumps (json_message i))) None) ms
    \<and> (r = Inr () \<longrightarrow> ms \<noteq> []) \<and> single topic (p', w')"
  by (rule round_of_send [OF assms(2) [unfolded json_round_def], where ok = True, unfolded simp_thms])
     (metis single_send [OF assms(1)], rule ready_sleeps)

lemma partitions_round_sends:
  assumes "rotating topic n i (p, w)" and "partitions_round E interrupt i (p, w) = Some (r, (p', w'))"
  shows "\<exists>ms. sends ms w w' \<and> list_all (carries_only (part_topic topic (int (i mod n))) (encode (hello i)) None) ms
    \<and> (r = Inr () \<longrightarrow> ms \<noteq> []) \<and> rotating topic n (Suc i) (p', w')"
  by (rule round_of_send [OF assms(2) [unfolded partitions_round_def], where ok = True, unfolded simp_thms])
     (metis rotating_send [OF assms(1)], rule ready_sleeps)

lemma key_shared_round_sends:
  assumes "single topic (p, w)" and "key_shared_round E interrupt i (p, w) = Some (r, (p', w'))"
  shows "\<exists>ms. sends ms w w' \<and> list_all (carries_only topic (encode (order_event i (keys ! i))) (Some (keys ! i))) ms
    \<and> (r = Inr () \<longrightarrow> ms \<noteq> []) \<and> single topic (p', w')"
  by (rule round_of_send [OF assms(2) [unfolded key_shared_round_def Let_def], where ok = True, unfolded simp_thms])
     (metis single_send_with_key [OF assms(1)], rule ready_sleeps)

lemma reliable_dispatch_round_sends:
  assumes "single topic (p, w)" and "reliable_dispatch_round E interrupt i (p, w) = Some (r, (p', w'))"
  shows "\<exists>ms. sends ms w w' \<and> list_all (carries_only topic (encode (phrase i)) None) ms \<and> single topic (p', w')"
  using round_of_send [OF assms(2) [unfolded reliable_dispatch_round_def], where ok = False and ready = "single topic"]
    reported_send [OF assms(1)] ready_sleeps(1) by metis

lemma avro_round_sends:
  assumes "single topic (p, w)" and "avro_round E interrupt i (p, w) = Some (r, (p', w'))"
  shows "\<exists>ms. sends ms w w'
    \<and> list_all (\<lambda>m. \<exists>now. carries_only topic (encode (dumps (user_event now i))) None m) ms \<and> single topic (p', w')"
proof -
  obtain now y where clock: "clock_ms E (outside w) = (now, y)" by (meson surj_pair)
  let ?w = "w\<lparr>outside := y\<rparr>"
  have run: "and_then (send_or_report E (encode (dumps (user_event (now div 1000) i))))
      (\<lambda>_. run_py (on_snd (nap interrupt i (1 / 2)))) (p, ?w) = Some (r, (p', w'))"
    using assms(2) clock by (simp add: avro_round_def run_simps)
  have "single topic (p, ?w)" using assms(1) by (simp add: single_def holds_def)
  from round_of_send [OF run, where ok = False and ready = "single topic"] reported_send [OF this] ready_sleeps(1)
  obtain ms where "sends ms ?w w'" "list_all (carries_only topic (encode (dumps (user_event (now div 1000) i))) None) ms"
    "single topic (p', w')" by metis
  then show ?thesis by (intro exI [of _ ms]) (auto simp: sends_def sent_def acks_def list_all_iff)
qed

text \<open>The scripts of one topic producer, and the one over three partitions.\<close>

lemma producing_single:
  fixes E :: "'w Outside"
  assumes starts: "begins before topic 0"
    and round: "\<And>i p w r p' w'. single topic (p, w) \<Longrightarrow> body i (p, w) = Some (r, (p', w')) \<Longrightarrow>
      \<exists>ms. sends ms w w' \<and> list_all (P i) ms \<and> (r = Inr () \<longrightarrow> sure \<longrightarrow> ms \<noteq> []) \<and> single topic (p', w')"
  shows "producing before E order 1 body sure (\<lambda>_. single topic) P x"
proof
  show "before (example_client x) = (r0, w) \<Longrightarrow> sends [] (example_client x) w" for r0 w
    by (rule begins_quiet [OF starts])
  show "sends [] w w' \<and> (case r of Inl e \<Rightarrow> p_producers p' = [] | Inr _ \<Rightarrow> single topic (p', w'))"
    if "before (example_client x) = (Inr p, w)" "p_create E order (p, w) = (r, (p', w'))" for p w r p' w'
    by (rule create_single [OF starts that])
  show "\<exists>ms j. sends ms w w' \<and> list_all (P i) ms \<and> single topic (p', w')
      \<and> (r = Inr () \<longrightarrow> j = Suc i \<and> (sure \<longrightarrow> ms \<noteq> []))"
    if "single topic (p, w)" "body i (p, w) = Some (r, (p', w'))" for i p w r p' w'
    using round [OF that] by blast
qed (auto simp: single_def)

interpretation json_sender: producing "json_before E" E order 1 "json_round E interrupt" 100 True
  "\<lambda>_. single ''/default/test_topic''"
  "\<lambda>i. carries_only ''/default/test_topic'' (encode (dumps (json_message i))) None" x
  by (rule producing_single [OF scripts_begin(1)]) (drule (1) json_round_sends, simp)

interpretation avro_sender: producing "avro_before E" E order 1 "avro_round E interrupt" 100 False
  "\<lambda>_. single ''/default/user_events''"
  "\<lambda>i m. \<exists>now. carries_only ''/default/user_events'' (encode (dumps (user_event now i))) None m" x
  by (rule producing_single [OF scripts_begin(2)]) (drule (1) avro_round_sends, simp)

interpretation key_shared_sender: producing key_shared_before E order 1 "key_shared_round E interrupt" "length keys" True
  "\<lambda>_. single ''/default/topic_key_shared''"
  "\<lambda>i. carries_only ''/default/topic_key_shared'' (encode (order_event i (keys ! i))) (Some (keys ! i))" x
  by (rule producing_single [OF scripts_begin(3)]) (drule (1) key_shared_round_sends, simp)

interpretation reliable_sender: producing reliable_dispatch_before E order 1 "reliable_dispatch_round E interrupt" 100 False
  "\<lambda>_. single ''/default/reliable_topic''"
  "\<lambda>i. carries_only ''/default/reliable_topic'' (encode (phrase i)) None" x
  by (rule producing_single [OF scripts_begin(5)]) (drule (1) reliable_dispatch_round_sends, simp)

interpretation partitions_sender: producing partitions_before E order 3 "partitions_round E interrupt" 100 True
  "rotating ''/default/partitioned_topic'' 3"
  "\<lambda>i. carries_only (part_topic ''/default/partitioned_topic'' (int (i mod 3))) (encode (hello i)) None" x
proof
  note starts = scripts_begin(4)
  show "partitions_before (example_client x) = (r0, w) \<Longrightarrow> sends [] (example_client x) w" for r0 w
    by (rule begins_quiet [OF starts])
  show "sends [] w w' \<and> (case r of Inl e \<Rightarrow> p_producers p' = []
      | Inr _ \<Rightarrow> rotating ''/default/partitioned_topic'' 3 0 (p', w'))"
    if "1 < (3::nat) \<Longrightarrow> schedule order 3" "partitions_before (example_client x) = (Inr p, w)" "p_create E order (p, w) = (r, (p', w'))"
    for p w r p' w'
    by (rule create_rotating [OF starts _ that(1) that(2,3)]) simp_all
next
  fix i p r p' and w w' :: "'a World"
  assume "rotating ''/default/partitioned_topic'' 3 i (p, w)" "partitions_round E interrupt i (p, w) = Some (r, (p', w'))"
  from partitions_round_sends [OF this]
  show "\<exists>ms j. sends ms w w' \<and> list_all (carries_only (part_topic ''/default/partitioned_topic'' (int (i mod 3)))
      (encode (hello i)) None) ms \<and> rotating ''/default/partitioned_topic'' 3 j (p', w')
      \<and> (r = Inr () \<longrightarrow> j = Suc i \<and> (True \<longrightarrow> ms \<noteq> []))" by blast
qed (auto simp: rotating_def)

end
