(* ===== verification/ScriptOutcomes.thy ===== *)
theory ScriptOutcomes
  imports ScriptLoops
begin

text \<open>
  Runs of the producer scripts against a broker that always gives the same kind of answer: creation
  with and without a schema, a send that is settled by its first answer, and a loop whose rounds
  all go through.
\<close>

section \<open>Creation against a broker that accepts\<close>

definition always_answers :: "('q, 'r, 'w) stub_method \<Rightarrow> bool" where
  "always_answers answer \<longleftrightarrow> (\<forall>call q x. \<exists>resp x'. answer call q x = (Inr resp, x'))"

lemma get_latest_succeeds:
  assumes "always_answers (answer_GetLatestSchema E)" and "static_token w"
  shows "\<exists>v w'. get_latest_schema E subject w = (Inr v, w')"
proof -
  obtain call cm' where prep: "prepare (uri w) w = (Inr call, w\<lparr>conn_mgr := cm'\<rparr>)"
    by (rule prepare_run [OF assms(2)])
  obtain resp x where "answer_GetLatestSchema E call \<lparr>gl_subject = subject\<rparr> (outside w) = (Inr resp, x)"
    using assms(1) unfolding always_answers_def by blast
  with prep show ?thesis by (simp add: get_latest_schema_def run_simps)
qed

text \<open>A reference to the latest version of a subject, or none.\<close>

definition resolvable :: "'w Outside \<Rightarrow> SchemaReference option \<Rightarrow> bool" where
  "resolvable E ref \<longleftrightarrow> (case ref of None \<Rightarrow> True
     | Some r \<Rightarrow> (\<exists>b. sr_version_ref r = Some (UseLatest b)) \<and> always_answers (answer_GetLatestSchema E))"

lemma tp_created_succeeds:
  assumes "static_token w" and "resolvable E (tp_schema_ref t)"
    and "cm_connections (conn_mgr w) (pool_key (tp_broker_addr t, tp_connect_url t)) = Some conn"
  shows "\<exists>pid s'. tp_created E resp (t, w) = (Inr pid, s')"
proof -
  let ?t = "t\<lparr>tp_producer_id := prs_producer_id resp\<rparr>"
  obtain task w1 where h: "start_health_check (tp_connect_url t) (tp_broker_addr t) (tp_proxy t) ClientProducer
      (prs_producer_id resp) (tp_stop_event t) w = (Inr task, w1)"
    using start_health_check_hit [OF assms(3)] by (metis surj_pair)
  have "static_token w1"
    using staysD [OF start_health_check_keeps(1) h] assms(1) static_token_grows by blast
  then have res: "\<exists>v w'. resolve_schema_metadata E (Some r) w1 = (Inr v, w')" if "tp_schema_ref t = Some r" for r
    using assms(2) that get_latest_succeeds [of E w1 "sr_subject r"]
    by (auto simp: resolvable_def resolve_schema_metadata_def run_simps)
  show ?thesis
  proof (cases "tp_schema_ref t")
    case None
    then show ?thesis by (simp add: tp_created_def run_simps h)
  next
    case (Some r)
    then obtain v w' where "resolve_schema_metadata E (Some r) w1 = (Inr v, w')" using res by blast
    with Some show ?thesis by (cases v) (simp add: tp_created_def run_simps h)
  qed
qed

lemma tp_create_accepted:
  assumes "always_creates E" and "static_token (snd s)" and "resolvable E (tp_schema_ref (fst s))"
  obtains pid s' where "tp_create E s = (Inr pid, s')"
proof -
  obtain t w where s1: "snd (tp_lookup_new_broker E s) = (t, w)" by (meson surj_pair)
  have static: "static_token w"
    using static_token_kept [OF tp_lookup_keeps(1) assms(2), of E] s1 by simp
  have "tp_identity t = tp_identity (fst s)"
    using stays_snd [OF fixed_parts(4), of s E] s1 by (simp add: same_def)
  then have ref: "resolvable E (tp_schema_ref t)" using assms(3) by (simp add: tp_identity_def)
  have "\<exists>pid s'. tp_try_create E (t, w) = (Inr pid, s')"
  proof (rule tp_try_create_run [OF static, of t E])
    fix ch cm'
    assume opts: "cm_options cm' = cm_options (conn_mgr w)"
      and look: "\<exists>conn. cm_connections cm' (pool_key (tp_broker_addr t, tp_connect_url t)) = Some conn
        \<and> rc_channel conn = ch"
      and run: "tp_try_create E (t, w) =
        (case answer_CreateProducer E (tp_call t w ch) (create_request t) (outside w) of (r, x) \<Rightarrow>
        (let s1 = (t\<lparr>tp_stub := Some ch, tp_request_id := Suc (tp_request_id t)\<rparr>,
                   w\<lparr>conn_mgr := cm',
                     trace := trace w @ [Rpc (tp_call t w ch) (CreateProducer (create_request t))],
                     outside := x\<rparr>)
         in case r of Inl err \<Rightarrow> (Inl (already_exists ''producer'' err), s1)
            | Inr resp \<Rightarrow> tp_created E resp s1))"
    obtain resp x where ans: "answer_CreateProducer E (tp_call t w ch) (create_request t) (outside w)
        = (Inr resp, x)" using assms(1) unfolding always_creates_def by blast
    from look obtain conn where "cm_connections cm' (pool_key (tp_broker_addr t, tp_connect_url t)) = Some conn"
      by blast
    then have "\<exists>pid s'. tp_created E resp (t\<lparr>tp_stub := Some ch, tp_request_id := Suc (tp_request_id t)\<rparr>,
        w\<lparr>conn_mgr := cm', trace := tr, outside := x\<rparr>) = (Inr pid, s')" for tr
      using static ref opts by (intro tp_created_succeeds [of _ _ _ conn]) (simp_all add: static_token_def)
    then show ?thesis unfolding run ans Let_def prod.case sum.case by blast
  qed
  then show ?thesis
    using that tp_retry.start_first [of E s] s1 by metis
qed

section \<open>A send that its first answer settles\<close>

text \<open>The broker accepts the message, or refuses it with an error that no retry can mend.\<close>

definition settles :: "'w Outside \<Rightarrow> exn + unit \<Rightarrow> bool" where
  "settles E res \<longleftrightarrow> (\<forall>call q x. map_sum id (\<lambda>_. ()) (fst (answer_SendMessage E call q x)) = res)
     \<and> (case res of Inl e \<Rightarrow> \<not> is_retryable e \<and> \<not> is_UnrecoverableError e | Inr _ \<Rightarrow> True)"

definition live :: "string \<Rightarrow> 'w p_state \<Rightarrow> bool" where
  "live topic s \<longleftrightarrow> single topic s \<and> static_token (snd s)
     \<and> (\<exists>t ch. p_producers (fst s) ! 0 = Some t \<and> tp_stub t = Some ch)"

lemma settled_loop:
  assumes "settles E res" and "live topic (p, w)"
  obtains r m p' w' where "send_loop E 0 rm d a k n (p, w) = Some (r, (p', w'))" and "map_sum id (\<lambda>_. ()) r = res"
    and "sends [m] w w'" and "carries_only topic d k m" and "live topic (p', w')" and "same_shape p p'"
proof -
  obtain t ch where p: "single topic (p, w)" "static_token w" "p_producers p ! 0 = Some t" "tp_stub t = Some ch"
    using assms(2) by (auto simp: live_def)
  have t: "tp_topic t = topic" "length (p_producers p) = 1" "rm_ok (tp_retry_manager t)"
    "tp_stop_event t < length (events w)"
    using p(1,3) by (auto simp: single_def holds_def)
  obtain now x1 where clock: "clock_ms E (outside w) = (now, x1)" by (meson surj_pair)
  let ?q = "send_request t now d a k"
  obtain r0 x2 where ans: "answer_SendMessage E (tp_call t w ch) ?q x1 = (r0, x2)" by (meson surj_pair)
  have "map_sum id (\<lambda>_. ()) (fst (answer_SendMessage E (tp_call t w ch) ?q x1)) = res"
    using assms(1) unfolding settles_def by blast
  then have r0: "map_sum id (\<lambda>_. ()) r0 = res" using ans by simp
  define t' where "t' = t\<lparr>tp_request_id := Suc (tp_request_id t)\<rparr>"
  define w' where "w' = w\<lparr>trace := trace w @ [Rpc (tp_call t w ch) (SendMessage ?q)], outside := x2\<rparr>"
  have once: "tp_send E d a k (t, w) = (map_sum id mrs_request_id r0, (t', w'))"
    using tp_send_run [OF p(2,4) clock ans] by (simp add: t'_def w'_def)
  have "tp_send_loop E rm d a k n (t, w) = Some (map_sum id mrs_request_id r0, (t', w'))"
  proof (cases r0)
    case (Inl e)
    then have "\<not> is_retryable e" "\<not> is_UnrecoverableError e" using assms(1) r0 by (auto simp: settles_def)
    with once Inl show ?thesis by (simp add: tp_send_loop_def until_done.simps tp_recover_def run_simps)
  qed (use once in \<open>simp add: tp_send_loop_def until_done.simps\<close>)
  moreover have "(p, w) = at_part 0 p (t, w)" using put_tp_same [OF p(3)] by (simp add: at_part_def)
  moreover have "0 < length (p_producers p)" using t(2) by simp
  ultimately have "send_loop E 0 rm d a k n (p, w) = Some (map_sum id mrs_request_id r0, (put_tp 0 p t', w'))"
    using send_loop_part [of 0 p E rm d a k n "(t, w)"] by (simp add: at_part_def)
  moreover have "sends [?q] w w'" by (simp add: sends_def sent_def acks_def map_filter_def w'_def)
  moreover have "carries_only topic d k ?q" by (simp add: carries_only_def send_request_def t(1))
  moreover have "live topic (put_tp 0 p t', w')"
    using p t by (simp add: live_def single_def holds_def put_tp_def t'_def w'_def static_token_def)
  moreover have "same_shape p (put_tp 0 p t')" by (simp add: same_shape_def put_tp_def)
  moreover have "map_sum id (\<lambda>_. ()) (map_sum id mrs_request_id r0) = res" using r0 by (cases r0) simp_all
  ultimately show ?thesis using that by blast
qed

lemma settled_send:
  assumes "settles E res" and "live topic (p, w)"
  obtains r m p' w' where "p_send E d a (p, w) = Some (r, (p', w'))" and "map_sum id (\<lambda>_. ()) r = res"
    and "sends [m] w w'" and "carries_only topic d None m" and "live topic (p', w')"
proof -
  have "p_partitions p = 0" "p_producers p \<noteq> []" using assms(2) by (auto simp: live_def single_def holds_def)
  then have "p_send E d a (p, w) = send_loop E 0 (retry_of (p_options p)) d a None 0 (p, w)"
    by (simp add: p_send_def prepare_send_def select_partition_def run_simps)
  then show ?thesis using settled_loop [OF assms, of "retry_of (p_options p)" d a None 0] that by metis
qed

lemma settled_send_with_key:
  assumes "settles E res" and "live topic (p, w)"
  obtains r m p' w' where "p_send_with_key E d a key (p, w) = Some (r, (p', w'))" and "map_sum id (\<lambda>_. ()) r = res"
    and "sends [m] w w'" and "carries_only topic d (Some key) m" and "live topic (p', w')"
proof -
  have "p_partitions p = 0" "p_producers p \<noteq> []" using assms(2) by (auto simp: live_def single_def holds_def)
  then have "p_send_with_key E d a key (p, w) = send_loop E 0 (retry_of (p_options p)) d a (Some key) 0 (p, w)"
    by (simp add: p_send_with_key_def prepare_send_def select_partition_for_key_def run_simps)
  then show ?thesis using settled_loop [OF assms, of "retry_of (p_options p)" d a "Some key" 0] that by metis
qed

text \<open>The state once \<open>create\<close> has returned.\<close>

lemma created_live:
  assumes "always_creates E" and "resolvable E (p_schema_ref p)" and "p_partitions p = 0" and "static_token w"
  obtains p' w' where "p_create E order (p, w) = (Inr (), (p', w'))" and "live (p_topic_name p) (p', w')"
proof -
  let ?tp = "fresh_tp p (p_topic_name p) (p_producer_name p) (length (events w)) (uri w)"
  let ?w = "w\<lparr>events := events w @ [False]\<rparr>"
  have static: "static_token ?w" using assms(4) by (simp add: static_token_def)
  obtain pid t w1 where run: "tp_create E (?tp, ?w) = (Inr pid, (t, w1))"
    using tp_create_accepted [OF assms(1), of "(?tp, ?w)"] static assms(2) by (metis fresh_tp_simps(4) fst_conv snd_conv surj_pair)
  then have c: "created E ?tp ?w = (Inr t, w1)" by (simp add: created_def)
  have create: "p_create E order (p, w) = (Inr (), (p\<lparr>p_producers := [Some t]\<rparr>, w1))"
    using assms(3) c by (simp add: p_create_def run_simps)
  have "static_token w1" using created_run(1) [OF _ c] static static_token_grows by fastforce
  moreover have "tp_ready t w1" using created_run(2) [OF _ c] by simp
  ultimately have "live (p_topic_name p) (p\<lparr>p_producers := [Some t]\<rparr>, w1)"
    using single_created(3) [OF assms(3) create] by (auto simp: live_def tp_ready_def)
  with create show ?thesis by (rule that)
qed

section \<open>Scripts that run through\<close>

text \<open>A loop whose every round sends one message and goes on.\<close>

lemma loop_runs_through:
  assumes "\<And>i p w. live topic (p, w) \<Longrightarrow> \<exists>m p' w'. body i (p, w) = Some (Inr (), (p', w'))
      \<and> sends [m] w w' \<and> Q i m \<and> live topic (p', w')"
    and "live topic (p, w)"
  shows "\<exists>ms p' w'. each body [a..<a + k] (p, w) = Some (Inr (), (p', w')) \<and> sends ms w w' \<and> length ms = k
    \<and> (\<forall>i < k. Q (a + i) (ms ! i)) \<and> live topic (p', w')"
  using assms(2)
proof (induction k arbitrary: a p w)
  case 0
  then show ?case by (intro exI [of _ "[]"]) (simp add: run_simps sends_nothing)
next
  case (Suc k)
  obtain m p1 w1 where first: "body a (p, w) = Some (Inr (), (p1, w1))" "sends [m] w w1" "Q a m" "live topic (p1, w1)"
    using assms(1) [OF Suc.prems] by blast
  obtain ms p' w' where rest: "each body [Suc a..<Suc a + k] (p1, w1) = Some (Inr (), (p', w'))" "sends ms w1 w'"
    "length ms = k" "\<forall>i < k. Q (Suc a + i) (ms ! i)" "live topic (p', w')"
    using Suc.IH [OF first(4), of "Suc a"] by blast
  have "[a..<a + Suc k] = a # [Suc a..<Suc a + k]" by (simp add: upt_conv_Cons del: upt_Suc)
  then have "each body [a..<a + Suc k] (p, w) = Some (Inr (), (p', w'))"
    using first(1) rest(1) by (simp only: each.simps and_then_run option.case prod.case sum.case)
  moreover have "\<forall>i < Suc k. Q (a + i) ((m # ms) ! i)"
    using first(3) rest(4) by (auto simp: less_Suc_eq_0_disj)
  ultimately show ?case
    using sends_trans [OF first(2) rest(2)] rest(3,5) by (intro exI [of _ "m # ms"]) simp
qed

lemma example_client_start: "trace (example_client x) = []" "sent (example_client x) = []" "static_token (example_client x)"
  by (simp_all add: sent_def map_filter_def example_client_def build_client_def service_url_def run_simps
      new_DanubeClientBuilder_def new_World_def static_token_def new_ConnectionManager_def default_ConnectionOptions_def)

lemma script_runs_through:
  assumes "before (example_client x) = (Inr p, w0)" and "sends [] (example_client x) w0" and "static_token w0"
    and "p_partitions p = 0" and "resolvable E (p_schema_ref p)" and "always_creates E"
    and "\<And>i p w. live topic (p, w) \<Longrightarrow> \<exists>m p' w'. body i (p, w) = Some (Inr (), (p', w'))
      \<and> sends [m] w w' \<and> Q i m \<and> live topic (p', w')"
    and "p_topic_name p = topic"
  shows "\<exists>ms p' t w'. sending_script before E order body n x = Some (Inr (), Some p', w') \<and> sent w' = ms
    \<and> length ms = n \<and> (\<forall>i < n. Q i (ms ! i)) \<and> Some t \<in> set (p_producers p')"
proof -
  obtain p1 w1 where create: "p_create E order (p, w0) = (Inr (), (p1, w1))" "live (p_topic_name p) (p1, w1)"
    by (rule created_live [OF assms(6,5,4,3)])
  have "sent w1 = []"
    using single_created(1) [OF assms(4) create(1)] assms(2) example_client_start(2)
    by (simp add: sends_def)
  obtain ms p2 w2 where loop: "each body [0..<0 + n] (p1, w1) = Some (Inr (), (p2, w2))" "sends ms w1 w2"
    "length ms = n" "\<forall>i < n. Q (0 + i) (ms ! i)" "live topic (p2, w2)"
    using loop_runs_through [where Q = Q, OF assms(7)] create(2) assms(8) by metis
  then have "holds (\<lambda>_. topic) 1 (p2, w2)" by (simp add: live_def single_def)
  then obtain p3 w3 where close: "p_close (p2, w2) = (Inr (), (p3, w3))" "sends [] w2 w3"
    and held: "length (p_producers p3) = 1" "\<exists>t. p_producers p3 ! 0 = Some t"
    by (rule close_held) (metis snd_conv zero_less_one)
  from held obtain t where "p_producers p3 ! 0 = Some t" by blast
  with held(1) have t: "Some t \<in> set (p_producers p3)" by (metis nth_mem zero_less_one)
  have "sending_script before E order body n x = Some (Inr (), Some p3, w3)"
    using loop(1) close(1) assms(1) create(1)
    by (simp add: sending_script_def producer_script_def then_close_def run_simps)
  moreover have "sent w3 = ms" using loop(2) close(2) \<open>sent w1 = []\<close> by (simp add: sends_def)
  ultimately show ?thesis using loop(3,4) t by auto
qed

end
