(* ===== verification/ExampleProducerProperties.thy ===== *)
theory ExampleProducerProperties
  imports ScriptOutcomes Scenario
begin

text \<open>
  The producer scripts over whole runs: what they have sent when they return, what their \<open>finally\<close>
  leaves, and what they report about a broker that accepts or refuses their messages.
\<close>

section \<open>Brokers that accept or refuse\<close>

lemma nap_goes_on: "run_py (on_snd (nap None i d)) (p, w) = Some (Inr (), (p, w\<lparr>trace := trace w @ [Sleep d]\<rparr>))"
  by (simp add: run_py_run nap_run)

lemma live_sleeps: "live topic (p, w) \<Longrightarrow> live topic (p, w\<lparr>trace := trace w @ [Sleep d]\<rparr>)"
  by (simp add: live_def static_token_def ready_sleeps)

lemma key_shared_round_accepted:
  assumes "settles E (Inr ())" and "live topic (p, w)"
  shows "\<exists>m p' w'. key_shared_round E None i (p, w) = Some (Inr (), (p', w')) \<and> sends [m] w w'
    \<and> carries_only topic (encode (order_event i (keys ! i))) (Some (keys ! i)) m \<and> live topic (p', w')"
proof -
  obtain r m p' w' where send: "p_send_with_key E (encode (order_event i (keys ! i))) None (keys ! i) (p, w) = Some (r, (p', w'))"
    and "map_sum id (\<lambda>_. ()) r = Inr ()" and m: "sends [m] w w'"
    "carries_only topic (encode (order_event i (keys ! i))) (Some (keys ! i)) m" and live: "live topic (p', w')"
    by (rule settled_send_with_key [OF assms])
  then obtain v where "r = Inr v" by (cases r) simp_all
  with send have "key_shared_round E None i (p, w) = Some (Inr (), (p', w'\<lparr>trace := trace w' @ [Sleep (1 / 2)]\<rparr>))"
    by (simp add: key_shared_round_def Let_def and_then_run nap_goes_on)
  with m sends_trans [OF m(1) sends_sleep] live_sleeps [OF live] show ?thesis by auto
qed

text \<open>An error of the broker that \<open>send\<close> raises at once and the script prints.\<close>

lemma report_refused:
  assumes "settles E (Inl e)" and "is_Exception e" and "live topic (p, w)"
  obtains m p' w' where "send_or_report E d (p, w) = Some (Inr (), (p', w'))" and "sends [m] w w'"
    and "carries_only topic d None m" and "live topic (p', w')"
proof -
  obtain r m p' w' where send: "p_send E d None (p, w) = Some (r, (p', w'))" "map_sum id (\<lambda>_. ()) r = Inl e"
    and rest: "sends [m] w w'" "carries_only topic d None m" "live topic (p', w')"
    by (rule settled_send [OF assms(1,3)])
  from send(2) have "r = Inl e" by (cases r) simp_all
  with send(1) assms(2) have "send_or_report E d (p, w) = Some (Inr (), (p', w'))"
    by (simp add: send_or_report_def run_simps)
  then show ?thesis using rest by (rule that)
qed

lemma reliable_round_refused:
  assumes "settles E (Inl e)" and "is_Exception e" and "live topic (p, w)"
  shows "\<exists>m p' w'. reliable_dispatch_round E None i (p, w) = Some (Inr (), (p', w')) \<and> sends [m] w w'
    \<and> carries_only topic (encode (phrase i)) None m \<and> live topic (p', w')"
proof -
  obtain m p' w' where send: "send_or_report E (encode (phrase i)) (p, w) = Some (Inr (), (p', w'))"
    and m: "sends [m] w w'" "carries_only topic (encode (phrase i)) None m" and live: "live topic (p', w')"
    by (rule report_refused [OF assms])
  from send have "reliable_dispatch_round E None i (p, w) = Some (Inr (), (p', w'\<lparr>trace := trace w' @ [Sleep 1]\<rparr>))"
    by (simp add: reliable_dispatch_round_def and_then_run nap_goes_on)
  with m sends_trans [OF m(1) sends_sleep] live_sleeps [OF live] show ?thesis by auto
qed

lemma avro_round_refused:
  assumes "settles E (Inl e)" and "is_Exception e" and "live topic (p, w)"
  shows "\<exists>m p' w'. avro_round E None i (p, w) = Some (Inr (), (p', w')) \<and> sends [m] w w'
    \<and> (\<exists>now. carries_only topic (encode (dumps (user_event now i))) None m) \<and> live topic (p', w')"
proof -
  obtain now y where clock: "clock_ms E (outside w) = (now, y)" by (meson surj_pair)
  let ?d = "encode (dumps (user_event (now div 1000) i))" and ?w = "w\<lparr>outside := y\<rparr>"
  have "live topic (p, ?w)" using assms(3) by (simp add: live_def single_def holds_def static_token_def)
  then obtain m p' w' where send: "send_or_report E ?d (p, ?w) = Some (Inr (), (p', w'))"
    and m: "sends [m] ?w w'" "carries_only topic ?d None m" and live: "live topic (p', w')"
    by (rule report_refused [OF assms(1,2)])
  let ?w' = "w'\<lparr>trace := trace w' @ [Sleep (1 / 2)]\<rparr>"
  have "run_py (on_snd (on_outside (total_io (clock_ms E)))) (p, w) = Some (Inr now, (p, ?w))"
    by (simp add: run_simps clock)
  with send have "avro_round E None i (p, w) = Some (Inr (), (p', ?w'))"
    by (simp add: avro_round_def and_then_run nap_goes_on)
  moreover have "sends [m] w w'" using m(1) by (simp add: sends_def sent_def acks_def)
  then have "sends [m] w ?w'" using sends_trans [OF _ sends_sleep, of "[m]" w w' "1 / 2"] by simp
  ultimately show ?thesis using m(2) live_sleeps [OF live] by blast
qed

section \<open>What the scripts send\<close>


text \<open>C27: Every producer script that returns or raises has closed its producer. Whatever ended it, the
  stop event of every topic producer it holds is set and no health check is kept; a script whose
  \<open>create\<close> failed holds none.\<close>

theorem scripts_close_their_producers:
  assumes "json_producer E order interrupt x = Some (r, held, w') \<or> avro_producer E order interrupt x = Some (r, held, w')
    \<or> key_shared_producer E order interrupt x = Some (r, held, w')
    \<or> reliable_dispatch_producer E order interrupt x = Some (r, held, w')
    \<or> schedule order 3 \<and> partitions_producer E order interrupt x = Some (r, held, w')"
    and "held = Some p" and "Some t \<in> set (p_producers p)"
  shows "is_set (tp_stop_event t) w' \<and> tp_health_task t = None"
proof -
  have new: "trace (example_client x) = []" by (rule example_client_start)
  have "closed_in held w'"
    using assms(1) json_sender.script_result [OF _ _ new, folded json_producer_def]
      avro_sender.script_result [OF _ _ new, folded avro_producer_def]
      key_shared_sender.script_result [OF _ _ new, folded key_shared_producer_def]
      reliable_sender.script_result [OF _ _ new, folded reliable_dispatch_producer_def]
      partitions_sender.script_result [OF _ _ new, folded partitions_producer_def]
    by fastforce
  with assms(2,3) show ?thesis by (simp add: closed_in_def)
qed

section \<open>Scripts that run through\<close>

lemma key_shared_delivers:
  assumes "always_creates E" and "settles E (Inr ())"
  shows "\<exists>ms p' t w'. key_shared_producer E order None x = Some (Inr (), Some p', w') \<and> sent w' = ms
    \<and> length ms = length keys
    \<and> (\<forall>i < length keys. carries_only ''/default/topic_key_shared'' (encode (order_event i (keys ! i))) (Some (keys ! i)) (ms ! i))
    \<and> Some t \<in> set (p_producers p')"
proof -
  obtain p where build: "key_shared_before (example_client x) = (Inr p, example_client x)"
    and p: "p_partitions p = 0" "p_schema_ref p = None" "p_topic_name p = ''/default/topic_key_shared''"
    by (simp add: key_shared_before_def builder_simps new_Producer_def)
  show ?thesis
    unfolding key_shared_producer_def
  proof (rule script_runs_through [where before = "key_shared_before" and x = x, OF build _ _ p(1) _ assms(1) _ p(3)])
    show "\<exists>m p' w'. key_shared_round E None i (p, w) = Some (Inr (), (p', w')) \<and> sends [m] w w'
        \<and> carries_only ''/default/topic_key_shared'' (encode (order_event i (keys ! i))) (Some (keys ! i)) m
        \<and> live ''/default/topic_key_shared'' (p', w')"
      if "live ''/default/topic_key_shared'' (p, w)" for i p w
      by (rule key_shared_round_accepted [OF assms(2) that])
  qed (simp_all add: p(2) resolvable_def sends_nothing example_client_start)
qed

text \<open>\<open>key_shared_producer.py\<close> delivers. With a broker that accepts the producer and every message,
  and without an interrupt, it returns normally and has sent exactly its five order events, once
  each, in order, each with its key.\<close>

theorem key_shared_producer_delivers:
  assumes "always_creates E" and "settles E (Inr ())"
  shows "\<exists>held w'. key_shared_producer E order None x = Some (Inr (), held, w')
    \<and> map sm_payload (sent w') = map (\<lambda>i. encode (order_event i (keys ! i))) [0..<5]
    \<and> map sm_routing_key (sent w') = map Some keys"
proof -
  obtain ms held w' where run: "key_shared_producer E order None x = Some (Inr (), held, w')" "sent w' = ms"
    and ms: "length ms = length keys" "\<forall>i < length keys. carries_only ''/default/topic_key_shared''
      (encode (order_event i (keys ! i))) (Some (keys ! i)) (ms ! i)"
    using key_shared_delivers [OF assms] by blast
  have "length keys = 5" by (simp add: keys_def)
  then have "map sm_payload ms = map (\<lambda>i. encode (order_event i (keys ! i))) [0..<5]" "map sm_routing_key ms = map Some keys"
    using ms by (auto intro!: nth_equalityI simp: carries_only_def)
  with run show ?thesis by blast
qed

definition demo_accepting :: "nat Outside" where
  "demo_accepting = refusing\<lparr>
     answer_CreateProducer := always (Inr \<lparr>prs_request_id = 1, prs_producer_id = 7, prs_producer_name = ''p''\<rparr>),
     answer_SendMessage := always (Inr \<lparr>mrs_request_id = 9\<rparr>)\<rparr>"

lemma demo_accepts: "always_creates demo_accepting" "settles demo_accepting (Inr ())"
  by (simp_all add: demo_accepting_def always_creates_def settles_def always_def)

theorem key_shared_producer_delivers_witness:
  "\<exists>held w'. key_shared_producer demo_accepting [] None 0 = Some (Inr (), held, w')
    \<and> map sm_routing_key (sent w') = map Some keys"
  using key_shared_producer_delivers [OF demo_accepts, of "[]" 0] by blast


text \<open>C28: Two scripts do not notice that they deliver nothing. With a broker that accepts the producer
  and refuses every message with an error that no retry can mend, \<open>avro_producer.py\<close> and
  \<open>reliable_dispatch_producer.py\<close> go through all hundred rounds, each message refused once, and end
  as if they had succeeded; the former after it has printed that it sent 100 events.\<close>

theorem refused_messages_go_unnoticed:
  assumes "always_creates E" and "always_answers (answer_RegisterSchema E)"
    and "always_answers (answer_GetLatestSchema E)" and "settles E (Inl e)" and "is_Exception e"
  shows "(\<exists>held w'. avro_producer E order None x = Some (Inr (), held, w') \<and> length (sent w') = 100
       \<and> (\<forall>i < 100. \<exists>now. sm_payload (sent w' ! i) = encode (dumps (user_event now i))))
    \<and> (\<exists>held w'. reliable_dispatch_producer E order None x = Some (Inr (), held, w')
       \<and> map sm_payload (sent w') = map (\<lambda>i. encode (phrase i)) [0..<100])"
proof
  have "\<exists>ms p' t w'. avro_producer E order None x = Some (Inr (), Some p', w') \<and> sent w' = ms \<and> length ms = 100
      \<and> (\<forall>i < 100. \<exists>now. carries_only ''/default/user_events'' (encode (dumps (user_event now i))) None (ms ! i))
      \<and> Some t \<in> set (p_producers p')"
  proof -
    have schema: "encode (dumps avro_schema) \<noteq> []" by (simp add: avro_schema_def encode_def)
    obtain call cm' where prep: "prepare (uri (example_client x)) (example_client x)
        = (Inr call, (example_client x)\<lparr>conn_mgr := cm'\<rparr>)" and opts: "cm_options cm' = cm_options (conn_mgr (example_client x))"
      by (rule prepare_run [OF example_client_start(3)])
    obtain p w0 where before: "avro_before E (example_client x) = (Inr p, w0)"
      and p: "p_partitions p = 0" "p_schema_ref p = Some \<lparr>sr_subject = ''user-events'', sr_version_ref = Some (UseLatest True)\<rparr>"
        "p_topic_name p = ''/default/user_events''" and static: "static_token w0"
    proof -
      let ?b = "sb_with_schema_data (encode (dumps avro_schema)) (sb_with_type AVRO (register_schema ''user-events''))"
      let ?q = "\<lparr>rs_subject = ''user-events'', rs_schema_type = schema_as_string AVRO,
        rs_schema_definition = encode (dumps avro_schema), rs_description = '''', rs_created_by = ''danube-py'', rs_tags = []\<rparr>"
      obtain resp y where "answer_RegisterSchema E call ?q (outside (example_client x)) = (Inr resp, y)"
        using assms(2) unfolding always_answers_def by blast
      then obtain w1 where reg: "sb_execute E ?b (example_client x) = (Inr (rsr_schema_id resp), w1)"
        and w1: "conn_mgr w1 = cm'"
        using prep schema by (simp add: sb_execute_def sb_with_schema_data_def sb_with_type_def register_schema_def run_simps)
      then have "static_token w1" using opts example_client_start(3) [of x] by (simp add: static_token_def)
      then show ?thesis using reg that
        by (simp add: avro_before_def register_def bnd_run builder_simps new_Producer_def)
    qed
    show ?thesis
      unfolding avro_producer_def
    proof (rule script_runs_through [where before = "avro_before E" and x = x, OF before begins_quiet [OF scripts_begin(2) before] static p(1) _ assms(1) _ p(3)])
      show "\<exists>m p' w'. avro_round E None i (p, w) = Some (Inr (), (p', w')) \<and> sends [m] w w'
          \<and> (\<exists>now. carries_only ''/default/user_events'' (encode (dumps (user_event now i))) None m)
          \<and> live ''/default/user_events'' (p', w')"
        if "live ''/default/user_events'' (p, w)" for i p w
        by (rule avro_round_refused [OF assms(4,5) that])
    qed (auto simp: p(2) resolvable_def assms(3))
  qed
  then show "\<exists>held w'. avro_producer E order None x = Some (Inr (), held, w') \<and> length (sent w') = 100
      \<and> (\<forall>i < 100. \<exists>now. sm_payload (sent w' ! i) = encode (dumps (user_event now i)))"
    unfolding carries_only_def by blast
next
  obtain p where build: "reliable_dispatch_before (example_client x) = (Inr p, example_client x)"
    and p: "p_partitions p = 0" "p_schema_ref p = None" "p_topic_name p = ''/default/reliable_topic''"
    by (simp add: reliable_dispatch_before_def builder_simps new_Producer_def)
  have "\<exists>ms p' t w'. reliable_dispatch_producer E order None x = Some (Inr (), Some p', w') \<and> sent w' = ms \<and> length ms = 100
      \<and> (\<forall>i < 100. carries_only ''/default/reliable_topic'' (encode (phrase i)) None (ms ! i))
      \<and> Some t \<in> set (p_producers p')"
    unfolding reliable_dispatch_producer_def
  proof (rule script_runs_through [where before = "reliable_dispatch_before" and x = x, OF build _ _ p(1) _ assms(1) _ p(3)])
    show "\<exists>m p' w'. reliable_dispatch_round E None i (p, w) = Some (Inr (), (p', w')) \<and> sends [m] w w'
        \<and> carries_only ''/default/reliable_topic'' (encode (phrase i)) None m \<and> live ''/default/reliable_topic'' (p', w')"
      if "live ''/default/reliable_topic'' (p, w)" for i p w
      by (rule reliable_round_refused [OF assms(4,5) that])
  qed (simp_all add: p(2) resolvable_def sends_nothing example_client_start)
  then show "\<exists>held w'. reliable_dispatch_producer E order None x = Some (Inr (), held, w')
      \<and> map sm_payload (sent w') = map (\<lambda>i. encode (phrase i)) [0..<100]"
    by (auto intro!: nth_equalityI simp: carries_only_def)
qed

definition demo_refusing :: "nat Outside" where
  "demo_refusing = refusing\<lparr>
     answer_CreateProducer := always (Inr \<lparr>prs_request_id = 1, prs_producer_id = 7, prs_producer_name = ''p''\<rparr>),
     answer_RegisterSchema := always (Inr \<lparr>rsr_schema_id = 3, rsr_version = 1, rsr_is_new_version = True,
       rsr_fingerprint = ''f''\<rparr>),
     answer_GetLatestSchema := always (Inr \<lparr>gsr_schema_id = 3, gsr_version = 1, gsr_subject = ''user-events'',
       gsr_schema_type = ''avro'', gsr_schema_definition = [], gsr_description = '''', gsr_created_at = 0,
       gsr_created_by = '''', gsr_tags = [], gsr_fingerprint = ''f'', gsr_compatibility_mode = ''BACKWARD''\<rparr>)\<rparr>"

theorem refused_messages_go_unnoticed_witness:
  "(\<exists>held w'. avro_producer demo_refusing [] None 0 = Some (Inr (), held, w') \<and> length (sent w') = 100)
    \<and> (\<exists>held w'. reliable_dispatch_producer demo_refusing [] None 0 = Some (Inr (), held, w')
       \<and> map sm_payload (sent w') = map (\<lambda>i. encode (phrase i)) [0..<100])"
proof -
  have "always_creates demo_refusing" "always_answers (answer_RegisterSchema demo_refusing)"
    "always_answers (answer_GetLatestSchema demo_refusing)"
    "settles demo_refusing (Inl (AioRpcError UNIMPLEMENTED ''''))" "is_Exception (AioRpcError UNIMPLEMENTED '''')"
    by (simp_all add: demo_refusing_def always_creates_def always_answers_def settles_def always_def refusing_def
        refuse_def is_Exception_def)
  from refused_messages_go_unnoticed [OF this, of "[]" 0] show ?thesis by blast
qed

theorem scripts_close_their_producers_witness:
  "\<exists>p t w'. key_shared_producer demo_accepting [] None 0 = Some (Inr (), Some p, w') \<and> Some t \<in> set (p_producers p)
    \<and> is_set (tp_stop_event t) w' \<and> tp_health_task t = None"
proof -
  obtain p t w' where run: "key_shared_producer demo_accepting [] None 0 = Some (Inr (), Some p, w')"
    and t: "Some t \<in> set (p_producers p)"
    using key_shared_delivers [OF demo_accepts, of "[]" 0] by blast
  have "is_set (tp_stop_event t) w' \<and> tp_health_task t = None"
    by (rule scripts_close_their_producers [OF _ refl t, of demo_accepting "[]" None 0 "Inr ()"]) (simp add: run)
  with run t show ?thesis by blast
qed

end
