(* ===== verification/ExampleEvolutionProperties.thy ===== *)
theory ExampleEvolutionProperties
  imports ScriptOutcomes Scenario
begin

text \<open>
  \<open>examples/schema_evolution.py\<close>: which schemas it registers, whatever the registry answers, and that
  it ends with its success report when the registry refuses the second version.
\<close>

section \<open>Calls of the registry client\<close>

fun registered_in :: "obs \<Rightarrow> RegisterSchemaRequest option" where
  "registered_in (Rpc _ (RegisterSchema q)) = Some q"
| "registered_in _ = None"

definition registrations :: "'w World \<Rightarrow> bytes list" where
  "registrations w = map rs_schema_definition (List.map_filter registered_in (trace w))"

text \<open>Every method of the registry client is a call on the client's own connection.\<close>

lemma registry_step:
  assumes "static_token w"
  obtains call cm' where "bnd (gets uri) (\<lambda>u. bnd (prepare u) (\<lambda>call. bnd (rpc ans mk call q) f)) w =
      (case ans call q (outside w) of (r, y) \<Rightarrow>
        (let w1 = w\<lparr>conn_mgr := cm', trace := trace w @ [Rpc call (mk q)], outside := y\<rparr>
         in case r of Inl e \<Rightarrow> (Inl e, w1) | Inr resp \<Rightarrow> f resp w1))"
    and "cm_options cm' = cm_options (conn_mgr w)"
proof -
  obtain call cm' where prep: "prepare (uri w) w = (Inr call, w\<lparr>conn_mgr := cm'\<rparr>)"
    and opts: "cm_options cm' = cm_options (conn_mgr w)"
    by (rule prepare_run [OF assms])
  have "bnd (gets uri) (\<lambda>u. bnd (prepare u) (\<lambda>call. bnd (rpc ans mk call q) f)) w =
      (case ans call q (outside w) of (r, y) \<Rightarrow>
        (let w1 = w\<lparr>conn_mgr := cm', trace := trace w @ [Rpc call (mk q)], outside := y\<rparr>
         in case r of Inl e \<Rightarrow> (Inl e, w1) | Inr resp \<Rightarrow> f resp w1))"
    by (simp add: bnd_run gets_run prep rpc_run Let_def split: prod.split sum.split)
  then show ?thesis using opts by (rule that)
qed

lemma answered:
  assumes "always_answers ans" and "ans call q y = (r1, y')"
  shows "\<exists>v. map_sum id f r1 = Inr v"
proof -
  obtain resp x' where "ans call q y = (Inr resp, x')" using assms(1) unfolding always_answers_def by blast
  with assms(2) show ?thesis by auto
qed

text \<open>A step of the script: it adds to the registrations, and keeps the token.\<close>

definition adds_schemas :: "bytes list \<Rightarrow> 'w World \<Rightarrow> 'w World \<Rightarrow> bool" where
  "adds_schemas ss v w \<longleftrightarrow> registrations w = registrations v @ ss \<and> (static_token v \<longrightarrow> static_token w)"

lemma adds_schemas_trans: "adds_schemas ss u v \<Longrightarrow> adds_schemas ts v w \<Longrightarrow> adds_schemas (ss @ ts) u w"
  by (simp add: adds_schemas_def)

lemma adds_schemas_sleep: "adds_schemas [] w (snd (asleep d w))"
  by (simp add: adds_schemas_def registrations_def map_filter_def run_simps static_token_def)

lemma register_step:
  assumes "register E subject ty schema w = (r, w')" and "static_token w" and "encode (dumps schema) \<noteq> []"
  shows "adds_schemas [encode (dumps schema)] w w'"
    and "always_answers (answer_RegisterSchema E) \<Longrightarrow> \<exists>v. r = Inr v"
proof -
  let ?q = "\<lparr>rs_subject = subject, rs_schema_type = schema_as_string ty,
     rs_schema_definition = encode (dumps schema), rs_description = '''', rs_created_by = ''danube-py'', rs_tags = []\<rparr>"
  have eq: "register E subject ty schema w = bnd (gets uri) (\<lambda>u. bnd (prepare u) (\<lambda>call.
      bnd (rpc (answer_RegisterSchema E) RegisterSchema call ?q) (\<lambda>resp. ret (rsr_schema_id resp)))) w"
    using assms(3) by (simp add: register_def sb_execute_def sb_with_schema_data_def sb_with_type_def register_schema_def)
  obtain call cm' where run: "register E subject ty schema w =
      (case answer_RegisterSchema E call ?q (outside w) of (r, y) \<Rightarrow>
        (let w1 = w\<lparr>conn_mgr := cm', trace := trace w @ [Rpc call (RegisterSchema ?q)], outside := y\<rparr>
         in case r of Inl e \<Rightarrow> (Inl e, w1) | Inr resp \<Rightarrow> ret (rsr_schema_id resp) w1))"
    and opts: "cm_options cm' = cm_options (conn_mgr w)"
    unfolding eq by (rule registry_step [OF assms(2)])
  obtain r1 y where ans: "answer_RegisterSchema E call ?q (outside w) = (r1, y)" by (meson surj_pair)
  have w': "w' = w\<lparr>conn_mgr := cm', trace := trace w @ [Rpc call (RegisterSchema ?q)], outside := y\<rparr>"
    and r: "r = map_sum id rsr_schema_id r1"
    using assms(1) run ans by (cases r1; simp add: ret_run)+
  show "adds_schemas [encode (dumps schema)] w w'"
    using opts by (simp add: w' adds_schemas_def registrations_def map_filter_def static_token_def)
  show "\<exists>v. r = Inr v" if "always_answers (answer_RegisterSchema E)"
    unfolding r by (rule answered [OF that, OF ans])
qed

text \<open>A method of the registry client that registers nothing.\<close>

lemma reading_step:
  assumes "bnd (gets uri) (\<lambda>u. bnd (prepare u) (\<lambda>call. bnd (rpc ans mk call q) (\<lambda>resp. ret (f resp)))) w = (r, w')"
    and "static_token w" and "\<And>call. registered_in (Rpc call (mk q)) = None"
  shows "adds_schemas [] w w'"
    and "\<exists>call y r1 y'. ans call q y = (r1, y') \<and> r = map_sum id f r1"
proof -
  obtain call cm' where run: "bnd (gets uri) (\<lambda>u. bnd (prepare u) (\<lambda>call. bnd (rpc ans mk call q) (\<lambda>resp. ret (f resp)))) w =
      (case ans call q (outside w) of (r, y) \<Rightarrow>
        (let w1 = w\<lparr>conn_mgr := cm', trace := trace w @ [Rpc call (mk q)], outside := y\<rparr>
         in case r of Inl e \<Rightarrow> (Inl e, w1) | Inr resp \<Rightarrow> ret (f resp) w1))"
    and opts: "cm_options cm' = cm_options (conn_mgr w)"
    by (rule registry_step [OF assms(2)])
  obtain r1 y where ans: "ans call q (outside w) = (r1, y)" by (meson surj_pair)
  have w': "w' = w\<lparr>conn_mgr := cm', trace := trace w @ [Rpc call (mk q)], outside := y\<rparr>"
    and r: "r = map_sum id f r1"
    using assms(1) run ans by (cases r1; simp add: ret_run)+
  show "adds_schemas [] w w'"
    using opts assms(3) by (simp add: w' adds_schemas_def registrations_def map_filter_def static_token_def)
  show "\<exists>call y r1 y'. ans call q y = (r1, y') \<and> r = map_sum id f r1" using ans r by blast
qed

definition check_request :: "bytes \<Rightarrow> CheckCompatibilityRequest" where
  "check_request schema = \<lparr>cc_subject = ''product-catalog'', cc_new_schema_definition = schema,
     cc_schema_type = schema_as_string AVRO, cc_compatibility_mode = None\<rparr>"

text \<open>What the registry may answer to a check of the schema.\<close>

definition may_call_compatible :: "'w Outside \<Rightarrow> bytes \<Rightarrow> bool \<Rightarrow> bool" where
  "may_call_compatible E schema c \<longleftrightarrow> (\<exists>call y resp y'.
     answer_CheckCompatibility E call (check_request schema) y = (Inr resp, y') \<and> ccr_is_compatible resp = c)"

lemma check_step:
  assumes "check_compatibility E ''product-catalog'' schema AVRO None w = (r, w')" and "static_token w"
  shows "adds_schemas [] w w'" and "r = Inr (c, errs) \<Longrightarrow> may_call_compatible E schema c"
    and "always_answers (answer_CheckCompatibility E) \<Longrightarrow> \<exists>v. r = Inr v"
proof -
  have run: "bnd (gets uri) (\<lambda>u. bnd (prepare u) (\<lambda>call. bnd (rpc (answer_CheckCompatibility E) CheckCompatibility call
      (check_request schema)) (\<lambda>resp. ret (ccr_is_compatible resp, ccr_errors resp)))) w = (r, w')"
    using assms(1) by (simp add: check_compatibility_def check_request_def)
  have none: "registered_in (Rpc call (CheckCompatibility q)) = None" for call q by simp
  note step = reading_step [OF run assms(2) none]
  show "adds_schemas [] w w'" by (rule step(1))
  obtain call y r1 y' where ans: "answer_CheckCompatibility E call (check_request schema) y = (r1, y')"
    and r: "r = map_sum id (\<lambda>resp. (ccr_is_compatible resp, ccr_errors resp)) r1" using step(2) by blast
  show "may_call_compatible E schema c" if "r = Inr (c, errs)"
    using ans r that unfolding may_call_compatible_def by (cases r1) auto
  show "\<exists>v. r = Inr v" if "always_answers (answer_CheckCompatibility E)"
    unfolding r by (rule answered [OF that, OF ans])
qed

section \<open>The script\<close>

text \<open>The last two steps list the versions and read the latest schema.\<close>

lemma last_steps:
  assumes "bnd (list_versions E ''product-catalog'') (\<lambda>versions.
      bnd (get_latest_schema E ''product-catalog'') (\<lambda>latest_schema. ret (versions, latest_schema))) w = (r, w')"
    and "static_token w"
  shows "adds_schemas [] w w'"
    and "always_answers (answer_ListVersions E) \<Longrightarrow> always_answers (answer_GetLatestSchema E) \<Longrightarrow> \<exists>v. r = Inr v"
proof -
  have none: "registered_in (Rpc call (ListVersions q)) = None" "registered_in (Rpc call (GetLatestSchema q2)) = None"
    for call q q2 by simp_all
  obtain r1 w1 where list: "list_versions E ''product-catalog'' w = (r1, w1)" by (meson surj_pair)
  note step1 = reading_step [OF list [unfolded list_versions_def] assms(2) none(1)]
  have static: "static_token w1" using step1(1) assms(2) by (simp add: adds_schemas_def)
  obtain r2 w2 where latest: "get_latest_schema E ''product-catalog'' w1 = (r2, w2)" by (meson surj_pair)
  note step2 = reading_step [OF latest [unfolded get_latest_schema_def] static none(2)]
  have end': "w' = (case r1 of Inl e \<Rightarrow> w1 | Inr _ \<Rightarrow> w2)"
    and r: "r = (case r1 of Inl e \<Rightarrow> Inl e | Inr vs \<Rightarrow> (case r2 of Inl e \<Rightarrow> Inl e | Inr l \<Rightarrow> Inr (vs, l)))"
    using assms(1) list latest by (cases r1; cases r2; simp add: bnd_run ret_run)+
  show "adds_schemas [] w w'"
    using step1(1) adds_schemas_trans [OF step1(1) step2(1)] by (simp add: end' split: sum.split)
  assume answers: "always_answers (answer_ListVersions E)" "always_answers (answer_GetLatestSchema E)"
  have "\<exists>vs. r1 = Inr vs" using step1(2) answered [OF answers(1)] by blast
  moreover have "\<exists>l. r2 = Inr l" using step2(2) answered [OF answers(2)] by blast
  ultimately show "\<exists>v. r = Inr v" using r by auto
qed

lemma schemas_not_empty:
  "encode (dumps schema_v1) \<noteq> []" "encode (dumps schema_v2) \<noteq> []" "encode (dumps schema_v3_incompatible) \<noteq> []"
  by (simp_all add: schema_v1_def schema_v2_def schema_v3_incompatible_def product_schema_def encode_def)

text \<open>The registration of the second version, if it is tried.\<close>

definition register_v2 :: "'w Outside \<Rightarrow> bool \<Rightarrow> ('w World, unit) py" where
  "register_v2 E is_compatible =
     (if is_compatible
      then handle (bnd (register E ''product-catalog'' AVRO schema_v2) (\<lambda>schema_id_v2. ret ()))
             (\<lambda>e. if is_Exception e then ret () else throw e)
      else ret ())"

lemma register_v2_step:
  assumes "register_v2 E c w = (r, w')" and "static_token w"
  shows "adds_schemas (if c then [encode (dumps schema_v2)] else []) w w'" and "\<not> c \<Longrightarrow> r = Inr ()"
proof -
  obtain r1 w1 where reg: "register E ''product-catalog'' AVRO schema_v2 w = (r1, w1)" by (meson surj_pair)
  have "w' = (if c then w1 else w)"
    using assms(1) reg by (cases r1) (auto simp: register_v2_def bnd_run ret_run handle_run throw_run split: if_splits)
  then show "adds_schemas (if c then [encode (dumps schema_v2)] else []) w w'"
    using register_step(1) [OF reg assms(2) schemas_not_empty(2)] by (simp add: adds_schemas_def)
  show "\<not> c \<Longrightarrow> r = Inr ()" using assms(1) by (simp add: register_v2_def ret_run)
qed

lemma bnd_split: "bnd m f s = (case m s of (Inl e, s1) \<Rightarrow> (Inl e, s1) | (Inr x, s1) \<Rightarrow> f x s1)"
  by (simp add: bnd_run split: prod.split sum.split)

lemma seq_split: "seq m k s = (case m s of (Inl e, s1) \<Rightarrow> (Inl e, s1) | (Inr x, s1) \<Rightarrow> k s1)"
  by (simp add: seq_def bnd_split)

lemma sum_pair_split:
  "(case p of (Inl e, s1) \<Rightarrow> f e s1 | (Inr x, s1) \<Rightarrow> g x s1) = (r, s')
    \<longleftrightarrow> (\<exists>e s1. p = (Inl e, s1) \<and> f e s1 = (r, s')) \<or> (\<exists>x s1. p = (Inr x, s1) \<and> g x s1 = (r, s'))"
  by (cases p; cases "fst p") auto

text \<open>The steps of the script, named: the registration of \<open>v1\<close>, the sleep, and what follows.\<close>

definition second_check :: "'w Outside \<Rightarrow> ('w World, 32 word list \<times> SchemaInfo) py" where
  "second_check E =
     bnd (check_compatibility E ''product-catalog'' (encode (dumps schema_v3_incompatible)) AVRO None)
       (\<lambda>(is_compatible_v3, errors_v3).
     bnd (list_versions E ''product-catalog'') (\<lambda>versions.
     bnd (get_latest_schema E ''product-catalog'') (\<lambda>latest_schema.
     ret (versions, latest_schema))))"

definition first_check :: "'w Outside \<Rightarrow> ('w World, 32 word list \<times> SchemaInfo) py" where
  "first_check E =
     bnd (check_compatibility E ''product-catalog'' (encode (dumps schema_v2)) AVRO None)
       (\<lambda>(is_compatible, errors). seq (register_v2 E is_compatible) (second_check E))"

lemma schema_evolution_steps:
  "schema_evolution E = bnd (register E ''product-catalog'' AVRO schema_v1) (\<lambda>_. seq (asleep (3 / 2)) (first_check E))"
  by (simp add: schema_evolution_def first_check_def second_check_def register_v2_def)

lemma second_check_step:
  assumes "second_check E w = (r, w')" and "static_token w"
  shows "adds_schemas [] w w'"
    and "always_answers (answer_CheckCompatibility E) \<Longrightarrow> always_answers (answer_ListVersions E)
      \<Longrightarrow> always_answers (answer_GetLatestSchema E) \<Longrightarrow> \<exists>v. r = Inr v"
proof -
  obtain r1 w1 where check: "check_compatibility E ''product-catalog'' (encode (dumps schema_v3_incompatible)) AVRO None w = (r1, w1)"
    by (meson surj_pair)
  note step1 = check_step [OF check assms(2)]
  have static: "static_token w1" using step1(1) assms(2) by (simp add: adds_schemas_def)
  obtain r2 w2 where tail: "bnd (list_versions E ''product-catalog'') (\<lambda>versions.
      bnd (get_latest_schema E ''product-catalog'') (\<lambda>latest_schema. ret (versions, latest_schema))) w1 = (r2, w2)"
    by (meson surj_pair)
  note step2 = last_steps [OF tail static]
  have w': "w' = (case r1 of Inl e \<Rightarrow> w1 | Inr _ \<Rightarrow> w2)" and r: "r = (case r1 of Inl e \<Rightarrow> Inl e | Inr _ \<Rightarrow> r2)"
    using assms(1) check tail by (cases r1; force simp: second_check_def bnd_split)+
  show "adds_schemas [] w w'"
    using step1(1) adds_schemas_trans [OF step1(1) step2(1)] by (simp add: w' split: sum.split)
  show "\<exists>v. r = Inr v" if "always_answers (answer_CheckCompatibility E)" "always_answers (answer_ListVersions E)"
      "always_answers (answer_GetLatestSchema E)"
    using step1(3) [OF that(1)] step2(2) [OF that(2,3)] by (auto simp: r)
qed

lemma first_check_step:
  assumes "first_check E w = (r, w')" and "static_token w"
  obtains c where "adds_schemas (if c then [encode (dumps schema_v2)] else []) w w'"
      and "c \<longrightarrow> may_call_compatible E (encode (dumps schema_v2)) True"
      and "(\<exists>v. r = Inr v) \<and> \<not> c \<longrightarrow> may_call_compatible E (encode (dumps schema_v2)) False"
      and "\<not> c \<and> always_answers (answer_CheckCompatibility E) \<and> always_answers (answer_ListVersions E)
        \<and> always_answers (answer_GetLatestSchema E) \<longrightarrow> (\<exists>v. r = Inr v)"
proof -
  obtain r1 w1 where check: "check_compatibility E ''product-catalog'' (encode (dumps schema_v2)) AVRO None w = (r1, w1)"
    by (meson surj_pair)
  note step1 = check_step [OF check assms(2)]
  have static: "static_token w1" using step1(1) assms(2) by (simp add: adds_schemas_def)
  show thesis
  proof (cases r1)
    case (Inl e)
    then have "r = Inl e" "w' = w1" using assms(1) check by (simp_all add: first_check_def bnd_split)
    then show thesis using step1(1) step1(3) Inl by (intro that [of False]) auto
  next
    case (Inr answer)
    obtain c errs where answer: "answer = (c, errs)" by (meson surj_pair)
    have may: "may_call_compatible E (encode (dumps schema_v2)) c" using step1(2) Inr answer by blast
    obtain r2 w2 where reg: "register_v2 E c w1 = (r2, w2)" by (meson surj_pair)
    note step2 = register_v2_step [OF reg static]
    have static2: "static_token w2" using step2(1) static by (simp add: adds_schemas_def)
    obtain r3 w3 where second: "second_check E w2 = (r3, w3)" by (meson surj_pair)
    note step3 = second_check_step [OF second static2]
    have w': "w' = (case r2 of Inl e \<Rightarrow> w2 | Inr _ \<Rightarrow> w3)" and r: "r = (case r2 of Inl e \<Rightarrow> Inl e | Inr _ \<Rightarrow> r3)"
      using assms(1) check Inr answer reg second by (cases r2; force simp: first_check_def bnd_split seq_split)+
    have "adds_schemas (if c then [encode (dumps schema_v2)] else []) w w'"
      using adds_schemas_trans [OF step1(1) step2(1)] adds_schemas_trans [OF adds_schemas_trans [OF step1(1) step2(1)] step3(1)]
      by (simp add: w' split: sum.split if_splits)
    then show thesis
      by (rule that) (use may step2(2) step3(2) in \<open>auto simp: r\<close>)
  qed
qed

lemma schema_evolution_run:
  assumes "schema_evolution E w = (r, w')" and "static_token w"
  obtains "registrations w' = registrations w @ [encode (dumps schema_v1)]"
      and "(\<exists>v. r = Inr v) \<longrightarrow> may_call_compatible E (encode (dumps schema_v2)) False"
      and "always_answers (answer_RegisterSchema E) \<and> always_answers (answer_CheckCompatibility E)
        \<and> always_answers (answer_ListVersions E) \<and> always_answers (answer_GetLatestSchema E) \<longrightarrow> (\<exists>v. r = Inr v)"
    | "registrations w' = registrations w @ [encode (dumps schema_v1), encode (dumps schema_v2)]"
      and "may_call_compatible E (encode (dumps schema_v2)) True"
proof -
  obtain r1 w1 where reg: "register E ''product-catalog'' AVRO schema_v1 w = (r1, w1)" by (meson surj_pair)
  note step1 = register_step [OF reg assms(2) schemas_not_empty(1)]
  show thesis
  proof (cases r1)
    case (Inl e)
    then have "r = Inl e" "w' = w1" using assms(1) reg by (simp_all add: schema_evolution_steps bnd_split)
    then show thesis using step1 Inl by (intro that(1)) (auto simp: adds_schemas_def)
  next
    case (Inr id)
    obtain w2 where sleep: "asleep (3 / 2) w1 = (Inr (), w2)" by (simp add: run_simps)
    have step2: "adds_schemas [encode (dumps schema_v1)] w w2"
      using adds_schemas_trans [OF step1(1) adds_schemas_sleep [of w1 "3 / 2"]] sleep by simp
    then have static: "static_token w2" using assms(2) by (simp add: adds_schemas_def)
    have "first_check E w2 = (r, w')"
      using assms(1) reg Inr sleep by (simp add: schema_evolution_steps bnd_split seq_split)
    then obtain c where c: "adds_schemas (if c then [encode (dumps schema_v2)] else []) w2 w'"
        "c \<longrightarrow> may_call_compatible E (encode (dumps schema_v2)) True"
        "(\<exists>v. r = Inr v) \<and> \<not> c \<longrightarrow> may_call_compatible E (encode (dumps schema_v2)) False"
        "\<not> c \<and> always_answers (answer_CheckCompatibility E) \<and> always_answers (answer_ListVersions E)
          \<and> always_answers (answer_GetLatestSchema E) \<longrightarrow> (\<exists>v. r = Inr v)"
      by (rule first_check_step [OF _ static])
    show thesis
    proof (cases c)
      case True
      with c(1,2) step2 show thesis by (intro that(2)) (auto simp: adds_schemas_def)
    next
      case False
      with c(1) step2 have "registrations w' = registrations w @ [encode (dumps schema_v1)]" by (simp add: adds_schemas_def)
      then show thesis by (rule that(1)) (use c(3,4) False in blast)+
    qed
  qed
qed

section \<open>What the script does\<close>

text \<open>C29: Whatever the registry answers and however \<open>schema_evolution.py\<close> ends, the schemas it has
  tried to register are version 1 alone, or versions 1 and 2 in this order after the registry called
  version 2 compatible. The incompatible version 3 is never registered, and a run that returns
  leaves out version 2 only when the registry called it incompatible.\<close>

theorem schema_evolution_registers:
  assumes "schema_evolution E (example_client x) = (r, w')"
  shows "registrations w' = [encode (dumps schema_v1)] \<and> (isl r \<or> may_call_compatible E (encode (dumps schema_v2)) False)
    \<or> registrations w' = [encode (dumps schema_v1), encode (dumps schema_v2)]
        \<and> may_call_compatible E (encode (dumps schema_v2)) True"
proof -
  have "registrations (example_client x) = []"
    by (simp add: registrations_def map_filter_def example_client_start(1))
  then show ?thesis
    by (cases rule: schema_evolution_run [OF assms example_client_start(3)]) (auto simp: isl_def; cases r; auto)+
qed

text \<open>C30: The script reports success whether or not version 2 was registered. With a registry that
  answers every call and calls version 2 incompatible, it returns normally with version 1 alone
  registered, after it has printed that all operations succeeded and that version 2 was registered.\<close>

theorem schema_evolution_ignores_refusal:
  assumes "always_answers (answer_RegisterSchema E)" and "always_answers (answer_CheckCompatibility E)"
    and "always_answers (answer_ListVersions E)" and "always_answers (answer_GetLatestSchema E)"
    and "\<not> may_call_compatible E (encode (dumps schema_v2)) True"
  shows "\<exists>v w'. schema_evolution E (example_client x) = (Inr v, w') \<and> registrations w' = [encode (dumps schema_v1)]"
proof -
  obtain r w' where run: "schema_evolution E (example_client x) = (r, w')" by (meson surj_pair)
  have "registrations (example_client x) = []"
    by (simp add: registrations_def map_filter_def example_client_start(1))
  then show ?thesis
    using assms run by (cases rule: schema_evolution_run [OF run example_client_start(3)]) auto
qed

text \<open>A registry that answers every call and calls every new version incompatible.\<close>

definition demo_strict :: "nat Outside" where
  "demo_strict = refusing\<lparr>
     answer_RegisterSchema := always (Inr \<lparr>rsr_schema_id = 3, rsr_version = 1, rsr_is_new_version = True,
       rsr_fingerprint = ''f''\<rparr>),
     answer_CheckCompatibility := always (Inr \<lparr>ccr_is_compatible = False, ccr_errors = [''no default'']\<rparr>),
     answer_ListVersions := always (Inr \<lparr>lvr_versions = []\<rparr>),
     answer_GetLatestSchema := always (Inr \<lparr>gsr_schema_id = 3, gsr_version = 1, gsr_subject = ''product-catalog'',
       gsr_schema_type = ''avro'', gsr_schema_definition = [], gsr_description = '''', gsr_created_at = 0,
       gsr_created_by = '''', gsr_tags = [], gsr_fingerprint = '''', gsr_compatibility_mode = ''''\<rparr>)\<rparr>"

lemma demo_strict_answers:
  "always_answers (answer_RegisterSchema demo_strict)" "always_answers (answer_CheckCompatibility demo_strict)"
  "always_answers (answer_ListVersions demo_strict)" "always_answers (answer_GetLatestSchema demo_strict)"
  "\<not> may_call_compatible demo_strict schema True"
  by (simp_all add: demo_strict_def always_answers_def always_def may_call_compatible_def)

theorem schema_evolution_ignores_refusal_witness:
  "\<exists>v w'. schema_evolution demo_strict (example_client 0) = (Inr v, w') \<and> registrations w' = [encode (dumps schema_v1)]"
  by (rule schema_evolution_ignores_refusal [OF demo_strict_answers(1-4)]) (rule demo_strict_answers(5))

theorem schema_evolution_registers_witness:
  "registrations (snd (schema_evolution demo_strict (example_client 0))) = [encode (dumps schema_v1)]"
  using schema_evolution_registers [of demo_strict 0, OF prod.collapse [symmetric]] demo_strict_answers(5) by blast

end
