(* ===== verification/ExampleSimple.thy ===== *)
theory ExampleSimple
  imports ExampleProducers ConsumerRuns
begin

text \<open>
  \<open>examples/simple_producer_consumer.py\<close>: one process that sends five messages from a task of its own
  while its main coroutine receives and acknowledges five. The two take turns at their awaits, so
  a run is a sequence of steps: a send with the start of the sleep after it, the end of the sleep,
  one message of the queue, the end of the main coroutine; between them the receive tasks and the
  health checks go on.
\<close>

datatype produce_pc = Sending nat | Napping nat | Sent | Failed exn | Cancelled

text \<open>The main coroutine receives, awaits the producer task, or is over: after it has printed that the
  demo is complete, after an interrupt, or by an exception.\<close>

datatype main_pc = Receiving | Awaiting | Completed | Interrupted | RaisedBy exn

record 'w simple =
  d_producer :: Producer
  d_consumer :: Consumer
  d_world :: "'w World"
  d_queue :: nat
  d_count :: nat
  d_task :: produce_pc
  d_main :: main_pc

section \<open>The start\<close>

definition simple_start ::
  "'w Outside \<Rightarrow> nat list \<Rightarrow> (nat \<Rightarrow> nat list) \<Rightarrow> ('w World, Producer \<times> nat \<times> Consumer) py" where
  "simple_start E p_order c_order =
     bnd (build_producer (
       seq (pb_with_topic ''/default/simple_topic'') (
       pb_with_name ''simple_producer''))) (\<lambda>producer.
     bnd (inside producer (p_create E p_order)) (\<lambda>(_, producer).
     bnd (build_consumer ''/default/simple_topic'' ''simple_consumer'' ''simple_subscription''
       EXCLUSIVE []) (\<lambda>consumer.
     bnd (listen_from E c_order consumer) (\<lambda>(queue, consumer).
     ret (producer, queue, consumer)))))"

definition simple_of :: "Producer \<Rightarrow> nat \<Rightarrow> Consumer \<Rightarrow> 'w World \<Rightarrow> 'w simple" where
  "simple_of producer queue consumer w =
     \<lparr>d_producer = producer, d_consumer = consumer, d_world = w, d_queue = queue, d_count = 0,
      d_task = Sending 1, d_main = Receiving\<rparr>"

section \<open>The producer task\<close>

definition simple_text :: "nat \<Rightarrow> string" where
  "simple_text i = ''Hello Danube! Message #'' @ str_int (int i)"

text \<open>\<open>await producer.send(...)\<close> and the call of \<open>asyncio.sleep(1)\<close>; \<open>None\<close> if the send never ends.\<close>

definition simple_send :: "'w Outside \<Rightarrow> nat \<Rightarrow> 'w simple \<Rightarrow> 'w simple option" where
  "simple_send E i d =
     (case p_send E (encode (simple_text i)) None (d_producer d, d_world d) of
        None \<Rightarrow> None
      | Some (Inl e, (p, w)) \<Rightarrow> Some (d\<lparr>d_producer := p, d_world := w, d_task := Failed e\<rparr>)
      | Some (Inr message_id, (p, w)) \<Rightarrow>
          Some (d\<lparr>d_producer := p, d_world := snd (asleep 1 w), d_task := Napping i\<rparr>))"

text \<open>\<open>for i in range(1, 6)\<close>\<close>

definition simple_wake :: "nat \<Rightarrow> 'w simple \<Rightarrow> 'w simple" where
  "simple_wake i d = d\<lparr>d_task := if i < 5 then Sending (i + 1) else Sent\<rparr>"

section \<open>The main coroutine\<close>

text \<open>\<open>finally: await producer.close(); await consumer.close()\<close>\<close>

definition simple_finish :: "main_pc \<Rightarrow> 'w simple \<Rightarrow> 'w simple" where
  "simple_finish outcome d =
     (case p_close (d_producer d, d_world d) of
        (Inl e, (p, w)) \<Rightarrow> d\<lparr>d_producer := p, d_world := w, d_main := RaisedBy e\<rparr>
      | (Inr _, (p, w)) \<Rightarrow>
          (case c_close (d_consumer d, w) of
             (Inl e, (c, w2)) \<Rightarrow> d\<lparr>d_producer := p, d_consumer := c, d_world := w2, d_main := RaisedBy e\<rparr>
           | (Inr _, (c, w2)) \<Rightarrow> d\<lparr>d_producer := p, d_consumer := c, d_world := w2, d_main := outcome\<rparr>))"

text \<open>\<open>except asyncio.CancelledError: producer_task.cancel()\<close>\<close>

definition simple_interrupted :: "'w simple \<Rightarrow> 'w simple" where
  "simple_interrupted d =
     simple_finish Interrupted
       (d\<lparr>d_task := (case d_task d of Sent \<Rightarrow> Sent | Failed e \<Rightarrow> Failed e | _ \<Rightarrow> Cancelled)\<rparr>)"

definition simple_raised :: "exn \<Rightarrow> 'w simple \<Rightarrow> 'w simple" where
  "simple_raised e d = (if e = CancelledError then simple_interrupted d else simple_finish (RaisedBy e) d)"

text \<open>A message of the queue: decoded, acknowledged and counted.\<close>

definition simple_message_body :: "'w Outside \<Rightarrow> StreamMessage \<Rightarrow> ('w c_state, unit) py" where
  "simple_message_body E message =
     bnd (of_result (decode_utf8 (sm_payload message))) (\<lambda>payload. c_ack E message)"

definition simple_take :: "'w Outside \<Rightarrow> StreamMessage \<Rightarrow> StreamMessage list \<Rightarrow> 'w simple \<Rightarrow> 'w simple" where
  "simple_take E m ms d =
     (case simple_message_body E m
             ((d_consumer d)\<lparr>c_queues := (c_queues (d_consumer d))[d_queue d := ms]\<rparr>, d_world d) of
        (Inl e, (c, w)) \<Rightarrow> simple_raised e (d\<lparr>d_consumer := c, d_world := w\<rparr>)
      | (Inr _, (c, w)) \<Rightarrow>
          d\<lparr>d_consumer := c, d_world := w, d_count := d_count d + 1,
            d_main := if d_count d + 1 < 5 then Receiving else Awaiting\<rparr>)"

section \<open>The process\<close>

text \<open>The process as the start leaves it, if the start does not raise.\<close>

definition simple_process ::
  "'w Outside \<Rightarrow> nat list \<Rightarrow> (nat \<Rightarrow> nat list) \<Rightarrow> 'w \<Rightarrow> exn + 'w simple" where
  "simple_process E p_order c_order x =
     (case simple_start E p_order c_order (example_client x) of
        (Inl e, w) \<Rightarrow> Inl e
      | (Inr (producer, queue, consumer), w) \<Rightarrow> Inr (simple_of producer queue consumer w))"

definition going :: "'w simple \<Rightarrow> bool" where
  "going d \<longleftrightarrow> d_main d = Receiving \<or> d_main d = Awaiting"

text \<open>A run from \<open>d0\<close>, with the messages the main coroutine took, in order.\<close>

inductive simple_run :: "'w Outside \<Rightarrow> 'w simple \<Rightarrow> StreamMessage list \<Rightarrow> 'w simple \<Rightarrow> bool"
  for E :: "'w Outside" and d0 :: "'w simple" where
  start: "simple_run E d0 [] d0"
| send: "simple_run E d0 taken d \<Longrightarrow> going d \<Longrightarrow> d_task d = Sending i \<Longrightarrow> simple_send E i d = Some d' \<Longrightarrow>
     simple_run E d0 taken d'"
| wake: "simple_run E d0 taken d \<Longrightarrow> going d \<Longrightarrow> d_task d = Napping i \<Longrightarrow>
     simple_run E d0 taken (simple_wake i d)"
| message: "simple_run E d0 taken d \<Longrightarrow> d_main d = Receiving \<Longrightarrow> d_queue d < length (c_queues (d_consumer d)) \<Longrightarrow>
     c_queues (d_consumer d) ! d_queue d = m # ms \<Longrightarrow>
     simple_run E d0 (taken @ [m]) (simple_take E m ms d)"
| completed: "simple_run E d0 taken d \<Longrightarrow> d_main d = Awaiting \<Longrightarrow> d_task d = Sent \<Longrightarrow>
     simple_run E d0 taken (simple_finish Completed d)"
| failure: "simple_run E d0 taken d \<Longrightarrow> d_main d = Awaiting \<Longrightarrow> d_task d = Failed e \<Longrightarrow>
     simple_run E d0 taken (simple_raised e d)"
| interrupt: "simple_run E d0 taken d \<Longrightarrow> going d \<Longrightarrow> simple_run E d0 taken (simple_interrupted d)"
| receiving: "simple_run E d0 taken d \<Longrightarrow> going d \<Longrightarrow> recv_step E i (d_consumer d, d_world d) (c, w) \<Longrightarrow>
     simple_run E d0 taken (d\<lparr>d_consumer := c, d_world := w\<rparr>)"
| health: "simple_run E d0 taken d \<Longrightarrow> going d \<Longrightarrow> health_own E i (d_world d) w \<Longrightarrow>
     simple_run E d0 taken (d\<lparr>d_world := w\<rparr>)"

end
