(* ===== verification/SimpleRuns.thy ===== *)
theory SimpleRuns
  imports ExampleSimple ScriptLoops ScriptContract
begin

text \<open>
  What every run of \<open>simple_producer_consumer.py\<close> keeps: the messages sent are those of the rounds the
  producer task has begun, the acknowledgements are those of the messages the main coroutine took,
  and once the main coroutine is over both the producer and the consumer are closed.
\<close>

section \<open>The rounds of the producer task\<close>

text \<open>Round \<open>k\<close>, counted from 0, sends only the text with number \<open>k + 1\<close>.\<close>

definition simple_round :: "nat \<Rightarrow> StreamMessage \<Rightarrow> bool" where
  "simple_round k = carries_only ''/default/simple_topic'' (encode (simple_text (Suc k))) None"

text \<open>Where the task stands, and the rounds it has begun: every one that went on has sent.\<close>

fun rounds_of :: "produce_pc \<Rightarrow> StreamMessage list list \<Rightarrow> bool" where
  "rounds_of (Sending i) bs \<longleftrightarrow> 1 \<le> i \<and> i \<le> 5 \<and> i = Suc (length bs) \<and> [] \<notin> set bs"
| "rounds_of (Napping i) bs \<longleftrightarrow> i \<le> 5 \<and> i = length bs \<and> [] \<notin> set bs"
| "rounds_of Sent bs \<longleftrightarrow> length bs = 5 \<and> [] \<notin> set bs"
| "rounds_of (Failed e) bs \<longleftrightarrow> length bs \<le> 5 \<and> [] \<notin> set (butlast bs)"
| "rounds_of Cancelled bs \<longleftrightarrow> length bs \<le> 5 \<and> [] \<notin> set bs"

definition sent_by :: "produce_pc \<Rightarrow> 'w World \<Rightarrow> bool" where
  "sent_by pc w \<longleftrightarrow> (\<exists>bs. sent w = concat bs \<and> in_rounds simple_round bs \<and> rounds_of pc bs)"

lemma in_rounds_snoc: "in_rounds P bs \<Longrightarrow> list_all (P (length bs)) ms \<Longrightarrow> in_rounds P (bs @ [ms])"
  by (auto simp: in_rounds_def nth_append less_Suc_eq)

lemma sent_by_kept: "sent_by pc v \<Longrightarrow> sent w = sent v \<Longrightarrow> sent_by pc w"
  by (simp add: sent_by_def)

text \<open>One send of the task.\<close>

lemma simple_send_step:
  assumes "simple_send E i d = Some d'" and "d_task d = Sending i" and "sent_by (d_task d) (d_world d)"
    and "single ''/default/simple_topic'' (d_producer d, d_world d)"
  shows "sent_by (d_task d') (d_world d') \<and> single ''/default/simple_topic'' (d_producer d', d_world d')
    \<and> acks (d_world d') = acks (d_world d) \<and> grows (d_world d) (d_world d')
    \<and> d_consumer d' = d_consumer d \<and> d_queue d' = d_queue d \<and> d_count d' = d_count d \<and> d_main d' = d_main d
    \<and> (d_task d' = Napping i \<or> (\<exists>e. d_task d' = Failed e))"
proof -
  obtain r p w where send: "p_send E (encode (simple_text i)) None (d_producer d, d_world d) = Some (r, (p, w))"
    using assms(1) by (auto simp: simple_send_def split: option.splits)
  have "\<exists>ms. sends ms (d_world d) w \<and> list_all (carries_only ''/default/simple_topic'' (encode (simple_text i)) None) ms
      \<and> (\<forall>v. r = Inr v \<longrightarrow> ms \<noteq> []) \<and> single ''/default/simple_topic'' (p, w)"
    by (rule single_send [OF assms(4) send]) blast
  then obtain ms where ms: "sends ms (d_world d) w" "list_all (carries_only ''/default/simple_topic'' (encode (simple_text i)) None) ms"
    and some: "\<forall>v. r = Inr v \<longrightarrow> ms \<noteq> []" and single: "single ''/default/simple_topic'' (p, w)"
    by blast
  have g: "grows (d_world d) w" by (rule single_send_grows [OF assms(4) send])
  obtain bs where bs: "sent (d_world d) = concat bs" "in_rounds simple_round bs" "i \<le> 5" "i = Suc (length bs)" "[] \<notin> set bs"
    using assms(2,3) by (auto simp: sent_by_def)
  have rounds: "in_rounds simple_round (bs @ [ms])"
    using in_rounds_snoc [OF bs(2)] ms(2) bs(4) by (simp add: simple_round_def)
  have sent: "sent w = concat (bs @ [ms])" using ms(1) bs(1) by (simp add: sends_def)
  have sleep: "sends [] w (snd (asleep 1 w))" "grows w (snd (asleep 1 w))" "events (snd (asleep 1 w)) = events w"
    by (simp_all add: run_simps sends_sleep grows_def)
  show ?thesis
  proof (cases r)
    case (Inl e)
    then have d': "d' = d\<lparr>d_producer := p, d_world := w, d_task := Failed e\<rparr>" using assms(1) send by (simp add: simple_send_def)
    have "rounds_of (Failed e) (bs @ [ms])" using bs(3,4,5) by simp
    with sent rounds have "sent_by (Failed e) w" unfolding sent_by_def by blast
    with ms(1) g single show ?thesis by (simp add: d' sends_def)
  next
    case (Inr v)
    then have d': "d' = d\<lparr>d_producer := p, d_world := snd (asleep 1 w), d_task := Napping i\<rparr>"
      using assms(1) send by (simp add: simple_send_def)
    have "rounds_of (Napping i) (bs @ [ms])" using bs(3,4,5) some Inr by auto
    with sent rounds sleep(1) have "sent_by (Napping i) (snd (asleep 1 w))" unfolding sent_by_def sends_def by (metis append_Nil2)
    moreover have "single ''/default/simple_topic'' (p, snd (asleep 1 w))"
      using single sleep(3) by (simp add: single_def holds_def)
    moreover have "grows (d_world d) (snd (asleep 1 w))" using g sleep(2) by (rule grows.trans)
    ultimately show ?thesis using ms(1) sleep(1) by (simp add: d' sends_def)
  qed
qed

section \<open>The end of the main coroutine\<close>

definition simple_serving :: "'w simple \<Rightarrow> bool" where
  "simple_serving d \<longleftrightarrow>
     serving (c_consumers (d_consumer d)) ''simple_subscription'' (d_consumer d, d_world d)
     \<and> single ''/default/simple_topic'' (d_producer d, d_world d)"

definition simple_acked :: "StreamMessage list \<Rightarrow> 'w simple \<Rightarrow> bool" where
  "simple_acked taken d \<longleftrightarrow> acks (d_world d) = map (ack_request ''simple_subscription'')
     (filter (\<lambda>m. text_decodes m \<and> from_partition (c_consumers (d_consumer d)) m) taken)"

text \<open>What was exchanged so far.\<close>

definition exchanged :: "StreamMessage list \<Rightarrow> 'w simple \<Rightarrow> bool" where
  "exchanged taken d \<longleftrightarrow> sent_by (d_task d) (d_world d) \<and> simple_acked taken d"

definition simple_closed :: "'w simple \<Rightarrow> bool" where
  "simple_closed d \<longleftrightarrow> closed_in (Some (d_producer d)) (d_world d)
     \<and> (\<forall>t \<in> set (c_tasks (d_consumer d)). rt_cancelled t)"

lemma simple_finish_closes:
  assumes "simple_serving d" and "exchanged taken d"
  shows "exchanged taken (simple_finish r d) \<and> simple_closed (simple_finish r d)
    \<and> d_main (simple_finish r d) = r \<and> d_task (simple_finish r d) = d_task d"
proof -
  let ?c = "d_consumer d"
  have held: "holds (\<lambda>_. ''/default/simple_topic'') 1 (d_producer d, d_world d)"
    and serving: "serving (c_consumers ?c) ''simple_subscription'' (?c, d_world d)"
    using assms(1) by (simp_all add: simple_serving_def single_def)
  have "\<exists>p w. p_close (d_producer d, d_world d) = (Inr (), (p, w)) \<and> sends [] (d_world d) w
      \<and> conn_mgr w = conn_mgr (d_world d) \<and> length (p_producers p) = 1
      \<and> (\<forall>j < 1. \<exists>t. p_producers p ! j = Some t \<and> is_set (tp_stop_event t) w \<and> tp_health_task t = None)"
    by (rule close_held [OF held]) auto
  then obtain p w t where p: "p_close (d_producer d, d_world d) = (Inr (), (p, w))" "sends [] (d_world d) w"
      "conn_mgr w = conn_mgr (d_world d)" "length (p_producers p) = 1" "p_producers p ! 0 = Some t"
      "is_set (tp_stop_event t) w" "tp_health_task t = None" by blast
  have producers: "p_producers p = [Some t]" using p(4,5) by (cases "p_producers p") auto
  have "serving (c_consumers ?c) ''simple_subscription'' (?c, w)"
    using serving p(3) by (simp add: serving_def static_token_def)
  moreover obtain st w2 where c: "c_close (?c, w) = (Inr (), (?c\<lparr>c_store := st, c_tasks := cancelled_all (c_tasks ?c)\<rparr>, w2))"
    by (rule c_close_work)
  ultimately have "sends [] w w2"
    using c_close_serves [of "c_consumers ?c" "''simple_subscription''" "(?c, w)"] by (simp add: serves_def)
  then have quiet: "sends [] (d_world d) w2" using p(2) by (blast intro: sends_none.trans)
  have "is_set (tp_stop_event t) w2" using c_close_sticky [of "(?c, w)"] c p(6) by (simp add: sticky_def)
  moreover have "simple_finish r d = d\<lparr>d_producer := p, d_consumer := ?c\<lparr>c_store := st, c_tasks := cancelled_all (c_tasks ?c)\<rparr>,
      d_world := w2, d_main := r\<rparr>"
    by (simp add: simple_finish_def p(1) c)
  ultimately show ?thesis
    using quiet assms(2) p(7) producers sent_by_kept [of "d_task d" "d_world d" w2]
    by (simp add: exchanged_def simple_acked_def simple_closed_def closed_in_def sends_def)
qed

lemma simple_interrupted_closes:
  assumes "simple_serving d" and "exchanged taken d"
  shows "exchanged taken (simple_interrupted d) \<and> simple_closed (simple_interrupted d)
    \<and> d_main (simple_interrupted d) = Interrupted"
proof -
  let ?d = "d\<lparr>d_task := (case d_task d of Sent \<Rightarrow> Sent | Failed e \<Rightarrow> Failed e | _ \<Rightarrow> Cancelled)\<rparr>"
  have "rounds_of (d_task d) bs \<Longrightarrow> rounds_of (d_task ?d) bs" for bs
    by (cases "d_task d") auto
  then have "exchanged taken ?d" using assms(2) by (auto simp: exchanged_def sent_by_def simple_acked_def)
  moreover have "simple_serving ?d" using assms(1) by (simp add: simple_serving_def)
  ultimately show ?thesis unfolding simple_interrupted_def by (blast dest: simple_finish_closes)
qed

lemma simple_raised_closes:
  assumes "simple_serving d" and "exchanged taken d"
  shows "exchanged taken (simple_raised e d) \<and> simple_closed (simple_raised e d)
    \<and> (d_main (simple_raised e d) = Interrupted \<or> d_main (simple_raised e d) = RaisedBy e)"
  using simple_interrupted_closes [OF assms] simple_finish_closes [OF assms, of "RaisedBy e"]
  by (simp add: simple_raised_def)

section \<open>The start\<close>

definition counted :: "StreamMessage list \<Rightarrow> 'w simple \<Rightarrow> bool" where
  "counted taken d \<longleftrightarrow> d_count d = length taken \<and> (\<forall>m \<in> set taken. text_decodes m)
     \<and> (d_main d = Receiving \<and> d_count d < 5 \<or> d_main d = Awaiting \<and> d_count d = 5)"

definition simple_ok :: "StreamMessage list \<Rightarrow> 'w simple \<Rightarrow> bool" where
  "simple_ok taken d \<longleftrightarrow> exchanged taken d
     \<and> (if going d then simple_serving d \<and> counted taken d
        else simple_closed d \<and> (d_main d = Completed \<longrightarrow>
          d_task d = Sent \<and> length taken = 5 \<and> (\<forall>m \<in> set taken. text_decodes m)))"

lemma simple_builds: "begins (build_producer (seq (pb_with_topic ''/default/simple_topic'')
    (pb_with_name ''simple_producer'')) :: ('w World, Producer) py) ''/default/simple_topic'' 0"
  by (rule begins_build) (simp add: builder_simps new_Producer_def)

lemma simple_starts:
  assumes order: "\<And>n. schedule (c_order n) n" and start: "simple_process E p_order c_order x = Inr d"
  shows "simple_ok [] d"
proof -
  let ?w = "example_client x" and ?topic = "''/default/simple_topic''"
  let ?build = "build_producer (seq (pb_with_topic ?topic) (pb_with_name ''simple_producer''))"
  let ?listen = "bnd (build_consumer ?topic ''simple_consumer'' ''simple_subscription'' EXCLUSIVE []) (listen_from E c_order)"
  obtain p c q w where run: "simple_start E p_order c_order ?w = (Inr (p, q, c), w)" and d: "d = simple_of p q c w"
    using start by (auto simp: simple_process_def split: prod.splits sum.splits)
  obtain r0 w0 where build: "?build ?w = (r0, w0)" by (meson surj_pair)
  then obtain p0 where r0: "r0 = Inr p0" using run by (auto simp: simple_start_def bnd_run split: sum.splits)
  obtain r1 p1 w1 where create: "p_create E p_order (p0, w0) = (r1, (p1, w1))" by (metis surj_pair)
  have "r1 = Inr ()" and rest: "bnd ?listen (\<lambda>(queue, consumer). ret (p1, queue, consumer)) w1 = (Inr (p, q, c), w)"
    using run build r0 create
    by (auto simp: simple_start_def bnd_run inside_def split: sum.splits prod.splits)
  obtain r2 w2 where listen: "?listen w1 = (r2, w2)" by (meson surj_pair)
  then have ends: "r2 = Inr (q, c)" "p = p1" "w = w2" using rest
    by (auto simp: bnd_run [of ?listen] ret_run split: sum.splits)
  have built: "sends [] ?w w0" using simple_builds build by (auto simp: begins_def)
  have "w0 = ?w" using build by (auto simp: build_producer_run)
  note created = create_single [OF simple_builds build [unfolded r0] create]
  have p0: "p_partitions p0 = 0" using simple_builds build r0 by (auto simp: begins_def)
  have single: "single ?topic (p1, w1)" "sends [] w0 w1" using created \<open>r1 = Inr ()\<close> by simp_all
  have "grows ?w w1" using single_created(2) [OF p0 create] \<open>w0 = ?w\<close> by simp
  then have "static_token w1" by (rule static_token_grows [OF _ example_client_facts(1)])
  note heard = consumer_start [OF order _ _ _ this listen]
  have "sends [] ?w w" using built single(2) heard(1) ends(3) by (auto intro: sends_none.trans)
  then have "sent w = []" "acks w = []" by (simp_all add: sends_def example_client_facts sent_def map_filter_def)
  moreover have "single ?topic (p1, w)" using single(1) heard(2) holds_grows ends(3) by (auto simp: single_def)
  moreover have "serving (c_consumers c) ''simple_subscription'' (c, w)" using heard(3) ends(1,3) by simp
  ultimately show ?thesis
    by (simp add: d simple_of_def simple_ok_def exchanged_def sent_by_def simple_acked_def going_def counted_def
        simple_serving_def ends(2) in_rounds_simps exI [of _ "[]"])
qed

section \<open>Runs\<close>

lemma single_grows: "single topic (p, v) \<Longrightarrow> grows v w \<Longrightarrow> single topic (p, w)"
  unfolding single_def using holds_grows by fastforce

text \<open>A step of the receiving side or of a health check.\<close>

lemma simple_ok_serves:
  assumes ok: "simple_ok taken d" "going d"
    and step: "serves (c_consumers (d_consumer d)) ''simple_subscription'' (d_consumer d, d_world d) (c, w)"
  shows "simple_ok taken (d\<lparr>d_consumer := c, d_world := w\<rparr>)"
proof -
  have serving: "serving (c_consumers (d_consumer d)) ''simple_subscription'' (c, w)"
    and quiet: "sends [] (d_world d) w" and g: "grows (d_world d) w"
    using ok step by (auto simp: simple_ok_def simple_serving_def serves_def)
  then have "c_consumers c = c_consumers (d_consumer d)" by (simp add: serving_def)
  with ok serving quiet single_grows [OF _ g] sent_by_kept [of "d_task d" "d_world d" w] show ?thesis
    by (auto simp: simple_ok_def exchanged_def simple_acked_def going_def simple_serving_def counted_def sends_def)
qed

text \<open>A message is taken.\<close>

lemma simple_take_ok:
  assumes ok: "simple_ok taken d" and main: "d_main d = Receiving"
  shows "simple_ok (taken @ [m]) (simple_take E m ms d)"
proof -
  let ?sub = "''simple_subscription''" and ?cons = "c_consumers (d_consumer d)"
  let ?c = "(d_consumer d)\<lparr>c_queues := (c_queues (d_consumer d))[d_queue d := ms]\<rparr>"
  have going: "going d" using main by (simp add: going_def)
  have serving: "serving ?cons ?sub (?c, d_world d)" and single: "single ''/default/simple_topic'' (d_producer d, d_world d)"
    and sent: "sent_by (d_task d) (d_world d)" and acked: "simple_acked taken d"
    and counts: "d_count d = length taken" "\<forall>m \<in> set taken. text_decodes m" "d_count d < 5"
    using ok going main by (simp_all add: simple_ok_def simple_serving_def exchanged_def counted_def serving_def)
  show ?thesis
  proof (cases "decode_utf8 (sm_payload m)")
    case (Inl e)
    let ?d = "d\<lparr>d_consumer := ?c, d_world := d_world d\<rparr>"
    have "\<not> text_decodes m" using Inl by (simp add: text_decodes_def)
    then have "exchanged (taken @ [m]) ?d" using sent acked by (simp add: exchanged_def simple_acked_def)
    moreover have "simple_serving ?d" using serving single by (simp add: simple_serving_def)
    moreover have "simple_take E m ms d = simple_raised e ?d"
      by (simp add: simple_take_def simple_message_body_def run_simps Inl)
    ultimately show ?thesis using simple_raised_closes [of ?d "taken @ [m]" e]
      by (auto simp: simple_ok_def going_def)
  next
    case (Inr payload)
    then have decodes: "text_decodes m" by (simp add: text_decodes_def)
    obtain r c w where ack: "c_ack E m (?c, d_world d) = (r, (c, w))" by (metis surj_pair)
    note done_ack = c_ack_serving [OF serving, of E m, unfolded ack snd_conv]
    let ?d = "d\<lparr>d_consumer := c, d_world := w\<rparr>"
    have cons: "c_consumers c = ?cons" using done_ack(1) by (simp add: serving_def)
    have exchanged: "exchanged (taken @ [m]) ?d"
      using sent_by_kept [OF sent, of w] done_ack(2,3) acked decodes
      by (simp add: exchanged_def simple_acked_def cons)
    have "single ''/default/simple_topic'' (d_producer d, w)"
      using single done_ack(4) by (simp add: single_def holds_def)
    then have served: "simple_serving ?d" using done_ack(1) by (simp add: simple_serving_def cons)
    show ?thesis
    proof (cases r)
      case (Inl e)
      then have "simple_take E m ms d = simple_raised e ?d"
        by (simp add: simple_take_def simple_message_body_def run_simps Inr ack)
      then show ?thesis using simple_raised_closes [OF served exchanged, of e]
        by (auto simp: simple_ok_def going_def)
    next
      case (Inr u)
      then have take: "simple_take E m ms d = ?d\<lparr>d_count := d_count d + 1,
          d_main := if d_count d + 1 < 5 then Receiving else Awaiting\<rparr>"
        by (simp add: simple_take_def simple_message_body_def run_simps \<open>decode_utf8 (sm_payload m) = Inr payload\<close> ack)
      show ?thesis using exchanged served counts decodes
        by (auto simp: take simple_ok_def exchanged_def simple_acked_def simple_serving_def going_def counted_def)
    qed
  qed
qed

lemma simple_run_ok:
  assumes "simple_run E d0 taken d" and "simple_ok [] d0"
  shows "simple_ok taken d"
  using assms(1)
proof (induction rule: simple_run.induct)
  case start
  show ?case by (rule assms(2))
next
  case (send taken d i d')
  from simple_send_step [OF send.hyps(4,3)] send.IH send.hyps(2) show ?case
    by (auto simp: simple_ok_def exchanged_def simple_acked_def going_def simple_serving_def counted_def serving_def
        dest: static_token_grows)
next
  case (wake taken d i)
  then show ?case
    by (auto simp: simple_ok_def exchanged_def simple_acked_def going_def simple_serving_def counted_def simple_wake_def
        sent_by_def)
next
  case (message taken d m ms)
  from message.IH message.hyps(2) show ?case by (rule simple_take_ok)
next
  case (completed taken d)
  then have "simple_serving d" "exchanged taken d" "counted taken d" by (simp_all add: simple_ok_def going_def)
  with completed.hyps simple_finish_closes [of d taken Completed] show ?case
    by (auto simp: simple_ok_def going_def counted_def)
next
  case (failure taken d e)
  then have "simple_serving d" "exchanged taken d" by (simp_all add: simple_ok_def going_def)
  with simple_raised_closes [of d taken e] show ?case by (auto simp: simple_ok_def going_def)
next
  case (interrupt taken d)
  then have "simple_serving d" "exchanged taken d" by (simp_all add: simple_ok_def)
  with simple_interrupted_closes [of d taken] show ?case by (auto simp: simple_ok_def going_def)
next
  case (receiving taken d i c w)
  from simple_ok_serves [OF receiving.IH receiving.hyps(2) recv_step_serves [OF receiving.hyps(3)]] show ?case .
next
  case (health taken d i w)
  from simple_ok_serves [OF health.IH health.hyps(2) health_own_serves [OF health.hyps(3)]] show ?case by simp
qed

end
