(* ===== verification/SimpleProperties.thy ===== *)
theory SimpleProperties
  imports SimpleRuns ScriptOutcomes ScriptDelivery
begin

text \<open>
  What \<open>simple_producer_consumer.py\<close> promises: what is sent, acknowledged and closed in every run, that a
  broker that accepts and delivers lets it complete, and that a failure of the producer task does
  not end it.
\<close>

section \<open>The start\<close>

lemma single_created_idle:
  assumes "p_partitions p = 0" and "p_create E order (p, w) = (r, (p', w'))"
  shows "idle w w'"
proof -
  let ?tp = "fresh_tp p (p_topic_name p) (p_producer_name p) (length (events w)) (uri w)"
  let ?w = "w\<lparr>events := events w @ [False]\<rparr>"
  have "on_world (same events) (?tp, ?w) (snd (tp_create E (?tp, ?w)))"
    by (rule tp_retry.start_stays [OF ow_events.evolution_axioms]) (intro stays_rules | simp)+
  moreover have "w' = snd (created E ?tp ?w)"
    using assms by (auto simp: p_create_def run_simps split: prod.splits sum.splits)
  ultimately have "events w' = events ?w"
    by (auto simp: created_def on_world_def same_def split: prod.splits sum.splits)
  then show ?thesis by (simp add: idle_def)
qed

text \<open>A broker for which the process starts.\<close>

definition welcomes :: "'w Outside \<Rightarrow> string \<Rightarrow> bool" where
  "welcomes E part \<longleftrightarrow> always_creates E \<and> always_subscribes E
     \<and> (\<exists>i. answer_TopicPartitions E = always (Inr \<lparr>tps_request_id = i, tps_partitions = [part]\<rparr>))"

lemma simple_welcomed:
  assumes "welcomes E part"
  obtains d where "simple_process E order (\<lambda>n. [0..<n]) x = Inr d" and "simple_ok [] d"
    and "live ''/default/simple_topic'' (d_producer d, d_world d)" and "about_to_read 0 (d_consumer d, d_world d)"
    and "d_queue d = 0" and "d_count d = 0" and "d_task d = Sending 1" and "d_main d = Receiving"
    and "fst ` set (c_consumers (d_consumer d)) = {part}"
proof -
  let ?w = "example_client x" and ?topic = "''/default/simple_topic''" and ?order = "\<lambda>n. [0..<n]"
  obtain i where broker: "always_creates E" "always_subscribes E"
    "answer_TopicPartitions E = always (Inr \<lparr>tps_request_id = i, tps_partitions = [part]\<rparr>)"
    using assms by (auto simp: welcomes_def)
  define p0 where "p0 = new_Producer ?topic ''simple_producer'' 0 None NON_RELIABLE default_ProducerOptions"
  have build: "build_producer (seq (pb_with_topic ?topic) (pb_with_name ''simple_producer'')) ?w = (Inr p0, ?w)"
    by (simp add: builder_simps p0_def)
  have p0: "p_partitions p0 = 0" "p_topic_name p0 = ?topic" "resolvable E (p_schema_ref p0)"
    by (simp_all add: p0_def new_Producer_def resolvable_def)
  obtain p w1 where create: "p_create E order (p0, ?w) = (Inr (), (p, w1))" and live: "live ?topic (p, w1)"
    using created_live [OF broker(1) p0(3,1) example_client_start(3)] p0(2) by metis
  have static: "static_token w1" using live by (simp add: live_def)
  have none: "True \<notin> set (events w1)"
    using single_created_idle [OF p0(1) create] example_client_idle [of x] by (simp add: idle_def)
  have names: "?topic \<noteq> ''''" "''simple_consumer'' \<noteq> ''''" "''simple_subscription'' \<noteq> ''''" by simp_all
  obtain c w where listen: "bnd (build_consumer ?topic ''simple_consumer'' ''simple_subscription'' EXCLUSIVE [])
      (listen_from E ?order) w1 = (Inr (0, c), w)" and c: "about_to_read 0 (c, w)" "fst ` set (c_consumers c) = {part}"
    by (rule consumer_listens [OF static none names broker(3,2)])
  have order: "\<And>n. schedule (?order n) n" by (rule schedule_upt)
  obtain c0 w2 where "build_consumer ?topic ''simple_consumer'' ''simple_subscription'' EXCLUSIVE [] w1 = (Inr c0, w2)"
    and "listen_from E ?order c0 w2 = (Inr (0, c), w)"
    using listen by (auto simp: bnd_run split: sum.splits prod.splits)
  then have "simple_start E order ?order ?w = (Inr (p, 0, c), w)"
    using build create by (simp add: simple_start_def bnd_run inside_def ret_run)
  then have process: "simple_process E order ?order x = Inr (simple_of p 0 c w)"
    by (simp add: simple_process_def)
  have "static_token w" using c(1) by (simp add: at_rest_def)
  moreover have ok: "simple_ok [] (simple_of p 0 c w)" by (rule simple_starts [OF order process])
  then have "single ?topic (p, w)" by (simp add: simple_ok_def going_def simple_serving_def simple_of_def)
  ultimately have "live ?topic (p, w)" using live by (simp add: live_def)
  with ok c show ?thesis by (intro that [OF process]) (simp_all add: simple_of_def)
qed

section \<open>Runs that go through\<close>

text \<open>A send of the producer task that the broker accepts, and its sleep.\<close>

lemma simple_sends_one:
  assumes "settles E (Inr ())" and run: "simple_run E d0 taken d" "going d" "d_task d = Sending i"
    and live: "live ''/default/simple_topic'' (d_producer d, d_world d)"
  obtains d' where "simple_run E d0 taken d'" and "d_task d' = (if i < 5 then Sending (i + 1) else Sent)"
    and "live ''/default/simple_topic'' (d_producer d', d_world d')" and "d_main d' = d_main d"
proof -
  obtain r m p w where send: "p_send E (encode (simple_text i)) None (d_producer d, d_world d) = Some (r, (p, w))"
    and r: "map_sum id (\<lambda>_. ()) r = Inr ()" and live': "live ''/default/simple_topic'' (p, w)"
    by (rule settled_send [OF assms(1) live])
  obtain v where v: "r = Inr v" using r by (cases r) simp_all
  define d1 where "d1 = d\<lparr>d_producer := p, d_world := snd (asleep 1 w), d_task := Napping i\<rparr>"
  have "simple_send E i d = Some d1" using send v by (simp add: simple_send_def d1_def)
  with run have "simple_run E d0 taken d1" by (blast intro: simple_run.send)
  moreover have "going d1" using run(2) by (simp add: going_def d1_def)
  ultimately have "simple_run E d0 taken (simple_wake i d1)" by (rule simple_run.wake) (simp add: d1_def)
  moreover have "live ''/default/simple_topic'' (p, snd (asleep 1 w))"
    using live' by (simp add: live_def single_def holds_def static_token_def run_simps)
  ultimately show ?thesis by (intro that [of "simple_wake i d1"]) (simp_all add: simple_wake_def d1_def)
qed

lemma simple_sends_all:
  assumes "settles E (Inr ())" and "simple_run E d0 taken d" and "going d" and "d_task d = Sending i" and "i \<le> 5"
    and "live ''/default/simple_topic'' (d_producer d, d_world d)"
  shows "\<exists>d'. simple_run E d0 taken d' \<and> d_task d' = Sent \<and> d_main d' = d_main d"
  using assms(2-)
proof (induction "5 - i" arbitrary: i d)
  case (0 i d)
  obtain d' where "simple_run E d0 taken d'" "d_task d' = (if i < 5 then Sending (i + 1) else Sent)" "d_main d' = d_main d"
    by (rule simple_sends_one [OF assms(1) "0.prems"(1,2,3,5)])
  with 0 show ?case by auto
next
  case (Suc k i d)
  obtain d' where next': "simple_run E d0 taken d'" "d_task d' = (if i < 5 then Sending (i + 1) else Sent)"
    "live ''/default/simple_topic'' (d_producer d', d_world d')" "d_main d' = d_main d"
    by (rule simple_sends_one [OF assms(1) Suc.prems(1,2,3,5)])
  have "k = 5 - (i + 1)" "d_task d' = Sending (i + 1)" "i + 1 \<le> 5" "going d'"
    using Suc.hyps(2) Suc.prems(2) next'(2,4) by (auto simp: going_def)
  with Suc.hyps(1) [of "i + 1" d'] next' show ?case by auto
qed

text \<open>A broker that opens streams on which \<open>m\<close> arrives again and again, and answers acknowledgements.\<close>

definition keeps_sending :: "'w Outside \<Rightarrow> StreamMessage \<Rightarrow> bool" where
  "keeps_sending E m \<longleftrightarrow> always_answers (answer_ReceiveMessages E) \<and> always_answers (answer_Ack E)
     \<and> (\<forall>stream x. \<exists>x'. next_message E stream x = (Inr (Some m), x'))"

lemma c_ack_answered:
  assumes "serving cons sub (c, w)" and "always_answers (answer_Ack E)"
  obtains w' where "c_ack E m (c, w) = (Inr (), (c, w'))" and "events w' = events w"
    and "static_token w'"
proof (cases "map_of cons (mi_topic_name (sm_msg_id m))")
  case None
  then show ?thesis using assms(1) by (intro that [of w]) (simp_all add: serving_def c_ack_def run_simps)
next
  case (Some k)
  have c: "c_consumers c = cons" "c_subscription c = sub" "static_token w" using assms(1) by (simp_all add: serving_def)
  have "(mi_topic_name (sm_msg_id m), k) \<in> set cons" using Some by (rule map_of_SomeD)
  then obtain ch where ch: "tc_stub (c_store c ! k) = Some ch" using assms(1) by (force simp: serving_def linked_def)
  obtain y x where "answer_Ack E (tc_call (c_store c ! k) w ch) (ack_request sub m) (outside w) = (Inr y, x)"
    using assms(2) unfolding always_answers_def by blast
  from tc_send_ack_run [OF c(3) ch ack_request_def this] c Some show ?thesis
    by (intro that [of "w\<lparr>trace := trace w @ [Rpc (tc_call (c_store c ! k) w ch) (Ack (ack_request sub m))], outside := x\<rparr>"])
      (simp_all add: c_ack_def run_simps on_tc_def static_token_def)
qed

text \<open>A message is delivered and taken.\<close>

lemma simple_takes_one:
  assumes "keeps_sending E m" and "text_decodes m" and ok: "simple_ok [] d0"
    and run: "simple_run E d0 taken d" "d_main d = Receiving" "d_queue d = 0"
    and "reading 0 stream (d_consumer d, d_world d)"
    and live: "live ''/default/simple_topic'' (d_producer d, d_world d)"
  obtains d' where "simple_run E d0 (taken @ [m]) d'" and "d_main d' = (if length taken + 1 < 5 then Receiving else Awaiting)"
    and "d_task d' = d_task d" and "reading 0 stream (d_consumer d', d_world d')" and "d_queue d' = 0"
    and "live ''/default/simple_topic'' (d_producer d', d_world d')"
proof -
  let ?c = "d_consumer d" and ?w = "d_world d"
  obtain x2 where "next_message E stream (outside ?w) = (Inr (Some m), x2)"
    using assms(1) unfolding keeps_sending_def by blast
  then obtain s c3 where steps: "recv_step E 0 (?c, ?w) s" "recv_step E 0 s (c3, ?w\<lparr>outside := x2\<rparr>)"
    and queue: "c_queues c3 = (c_queues ?c)[0 := [m]]" and "c_consumers c3 = c_consumers ?c"
    and again: "reading 0 stream (c3\<lparr>c_queues := c_queues ?c\<rparr>, ?w\<lparr>outside := x2\<rparr>)"
    by (rule next_delivery [OF assms(7)])
  define d2 where "d2 = d\<lparr>d_consumer := c3, d_world := ?w\<lparr>outside := x2\<rparr>\<rparr>"
  obtain c1 w1 where s: "s = (c1, w1)" by (meson surj_pair)
  have "simple_run E d0 taken (d\<lparr>d_consumer := c1, d_world := w1\<rparr>)"
    by (rule simple_run.receiving [OF run(1)]) (use run(2) steps(1) s in \<open>simp_all add: going_def\<close>)
  then have "simple_run E d0 taken ((d\<lparr>d_consumer := c1, d_world := w1\<rparr>)\<lparr>d_consumer := c3, d_world := ?w\<lparr>outside := x2\<rparr>\<rparr>)"
    by (rule simple_run.receiving) (use run(2) steps(2) s in \<open>simp_all add: going_def\<close>)
  then have run2: "simple_run E d0 taken d2" by (simp add: d2_def)
  have ok2: "simple_ok taken d2" by (rule simple_run_ok [OF run2 ok])
  have empty: "0 < length (c_queues ?c)" "c_queues ?c ! 0 = []" using assms(7) by (simp_all add: at_rest_def)
  then have taking: "simple_run E d0 (taken @ [m]) (simple_take E m [] d2)"
    by (intro simple_run.message [OF run2]) (use run queue in \<open>simp_all add: d2_def\<close>)
  have back': "(c_queues c3)[0 := []] = c_queues ?c" using queue empty by (simp add: list_update_same_conv)
  let ?c4 = "c3\<lparr>c_queues := c_queues ?c\<rparr>"
  have served: "serving (c_consumers c3) ''simple_subscription'' (?c4, ?w\<lparr>outside := x2\<rparr>)"
    using ok2 run(2) by (simp add: simple_ok_def going_def simple_serving_def serving_def d2_def)
  have "always_answers (answer_Ack E)" using assms(1) by (simp add: keeps_sending_def)
  then obtain w4 where ack: "c_ack E m (?c4, ?w\<lparr>outside := x2\<rparr>) = (Inr (), (?c4, w4))"
    and w4: "events w4 = events (?w\<lparr>outside := x2\<rparr>)" "static_token w4"
    by (rule c_ack_answered [OF served])
  have count: "d_count d = length taken" using ok2 run(2) by (simp add: simple_ok_def going_def counted_def d2_def)
  obtain t where "decode_utf8 (sm_payload m) = Inr t" using assms(2) by (auto simp: decoded_or_not)
  then have "simple_take E m [] d2 = d\<lparr>d_consumer := ?c4, d_world := w4, d_count := length taken + 1,
      d_main := if length taken + 1 < 5 then Receiving else Awaiting\<rparr>"
    using ack back' run(3) count by (simp add: simple_take_def simple_message_body_def run_simps d2_def)
  moreover have "reading 0 stream (?c4, w4)" using again w4 by (simp add: at_rest_def)
  moreover have "live ''/default/simple_topic'' (d_producer d, w4)"
    using live w4 by (simp add: live_def single_def holds_def)
  ultimately show ?thesis using that [OF taking] run(3) by simp
qed

lemma simple_takes_all:
  assumes "keeps_sending E m" and "text_decodes m" and "simple_ok [] d0"
    and "simple_run E d0 taken d" and "d_main d = Receiving" and "d_queue d = 0"
    and "reading 0 stream (d_consumer d, d_world d)" and "live ''/default/simple_topic'' (d_producer d, d_world d)"
    and "length taken < 5"
  shows "\<exists>d'. simple_run E d0 (taken @ replicate (5 - length taken) m) d' \<and> d_main d' = Awaiting \<and> d_task d' = d_task d
    \<and> live ''/default/simple_topic'' (d_producer d', d_world d')"
  using assms(4-)
proof (induction "4 - length taken" arbitrary: taken d)
  case 0
  obtain d' where "simple_run E d0 (taken @ [m]) d'" "d_main d' = (if length taken + 1 < 5 then Receiving else Awaiting)"
    "d_task d' = d_task d" "live ''/default/simple_topic'' (d_producer d', d_world d')"
    by (rule simple_takes_one [OF assms(1,2,3) "0.prems"(1-5)])
  moreover have "length taken = 4" using 0 by simp
  ultimately show ?case by auto
next
  case (Suc k)
  obtain d' where one: "simple_run E d0 (taken @ [m]) d'" "d_main d' = (if length taken + 1 < 5 then Receiving else Awaiting)"
    "d_task d' = d_task d" "reading 0 stream (d_consumer d', d_world d')" "d_queue d' = 0"
    "live ''/default/simple_topic'' (d_producer d', d_world d')"
    by (rule simple_takes_one [OF assms(1,2,3) Suc.prems(1-5)])
  have less: "length taken < 4" using Suc.hyps(2) by simp
  then have "d_main d' = Receiving" "k = 4 - length (taken @ [m])" "length (taken @ [m]) < 5"
    using one(2) Suc.hyps(2) by simp_all
  from Suc.hyps(1) [OF this(2) one(1) this(1) one(5,4,6) this(3)]
  obtain d2 where "simple_run E d0 ((taken @ [m]) @ replicate (5 - length (taken @ [m])) m) d2" "d_main d2 = Awaiting"
    "d_task d2 = d_task d'" "live ''/default/simple_topic'' (d_producer d2, d_world d2)" by blast
  moreover have "(taken @ [m]) @ replicate (5 - length (taken @ [m])) m = taken @ replicate (5 - length taken) m"
    using less by (simp add: Suc_diff_Suc [symmetric] del: append_assoc)
  ultimately show ?case using one(3) by metis
qed

lemma simple_runs_through:
  assumes "welcomes E part" and "settles E (Inr ())" and "keeps_sending E m" and "text_decodes m"
  shows "\<exists>d0 d. simple_process E order (\<lambda>n. [0..<n]) x = Inr d0 \<and> simple_run E d0 (replicate 5 m) d \<and> d_main d = Completed
    \<and> from_partition (c_consumers (d_consumer d0)) m = (mi_topic_name (sm_msg_id m) = part)"
proof -
  obtain d0 where process: "simple_process E order (\<lambda>n. [0..<n]) x = Inr d0" and ok: "simple_ok [] d0"
    and d0: "live ''/default/simple_topic'' (d_producer d0, d_world d0)" "about_to_read 0 (d_consumer d0, d_world d0)"
      "d_queue d0 = 0" "d_count d0 = 0" "d_task d0 = Sending 1" "d_main d0 = Receiving"
      "fst ` set (c_consumers (d_consumer d0)) = {part}"
    by (rule simple_welcomed [OF assms(1)])
  have "streams E m" using assms(3) unfolding keeps_sending_def streams_def always_answers_def by metis
  then obtain c1 w1 stream x2 where opens: "recv_step E 0 (d_consumer d0, d_world d0) (c1, w1)" "reading 0 stream (c1, w1)"
    by (rule stream_opens [OF d0(2)])
  define d1 where "d1 = d0\<lparr>d_consumer := c1, d_world := w1\<rparr>"
  have run1: "simple_run E d0 [] d1"
    unfolding d1_def by (rule simple_run.receiving [OF simple_run.start _ opens(1)]) (simp add: going_def d0)
  have "simple_ok [] d1" by (rule simple_run_ok [OF run1 ok])
  then have single: "single ''/default/simple_topic'' (d_producer d0, w1)"
    by (simp add: simple_ok_def going_def simple_serving_def d1_def d0)
  moreover have "static_token w1" using opens(2) by (simp add: at_rest_def)
  ultimately have live: "live ''/default/simple_topic'' (d_producer d1, d_world d1)" using d0(1) by (simp add: live_def d1_def)
  obtain d2 where run2: "simple_run E d0 ([] @ replicate (5 - length []) m) d2" "d_main d2 = Awaiting" "d_task d2 = d_task d1"
    "live ''/default/simple_topic'' (d_producer d2, d_world d2)"
    using simple_takes_all [OF assms(3,4) ok run1 _ _ _ live] d0 opens(2) by (auto simp: d1_def)
  have "d_task d2 = Sending 1" "going d2" using run2(2,3) d0(5) by (simp_all add: d1_def going_def)
  then obtain d3 where run3: "simple_run E d0 (replicate 5 m) d3" "d_task d3 = Sent" "d_main d3 = Awaiting"
    using simple_sends_all [OF assms(2) run2(1) _ _ _ run2(4)] run2(2) by auto
  then have "simple_run E d0 (replicate 5 m) (simple_finish Completed d3)" by (blast intro: simple_run.completed)
  moreover have "simple_ok (replicate 5 m) d3" by (rule simple_run_ok [OF run3(1) ok])
  then have "d_main (simple_finish Completed d3) = Completed"
    using simple_finish_closes [of d3 "replicate 5 m" Completed] run3(3) by (simp add: simple_ok_def going_def)
  ultimately show ?thesis using process d0(7) by (auto simp: from_partition_def)
qed

section \<open>The properties\<close>

text \<open>C15: In every run of \<open>simple_producer_consumer.py\<close>, at every point of it: the messages acknowledged
  are those it took that are text and of a partition it subscribed to, once each, in the order
  taken. The messages sent are those of at most five rounds, each sending only its own text, without a
  key, to the topic. If it reports that the demo is complete, it has taken five messages, all
  text, and sent each of the five texts at least once. Once the main coroutine is over, however it
  ended, the topic producer is stopped without a health check and all receive tasks are cancelled.\<close>

theorem simple_exchanges:
  assumes "\<And>n. schedule (c_order n) n" and "simple_process E p_order c_order x = Inr d0" and "simple_run E d0 taken d"
  shows "acks (d_world d) = map (ack_request ''simple_subscription'')
      (filter (\<lambda>m. text_decodes m \<and> from_partition (c_consumers (d_consumer d)) m) taken)
    \<and> (\<exists>bs. sent (d_world d) = concat bs \<and> in_rounds simple_round bs \<and> length bs \<le> 5
         \<and> (d_main d = Completed \<longrightarrow> length bs = 5 \<and> [] \<notin> set bs))
    \<and> (d_main d = Completed \<longrightarrow> length taken = 5 \<and> (\<forall>m \<in> set taken. text_decodes m))
    \<and> (\<not> going d \<longrightarrow> simple_closed d)"
proof -
  have ok: "simple_ok taken d" by (rule simple_run_ok [OF assms(3) simple_starts [OF assms(1,2)]])
  then obtain bs where bs: "sent (d_world d) = concat bs" "in_rounds simple_round bs" "rounds_of (d_task d) bs"
    by (auto simp: simple_ok_def exchanged_def sent_by_def)
  have "length bs \<le> 5" using bs(3) by (cases "d_task d") auto
  moreover have "length bs = 5 \<and> [] \<notin> set bs" if "d_main d = Completed"
    using ok bs(3) that by (simp add: simple_ok_def going_def)
  ultimately show ?thesis
    using ok bs(1,2) by (auto simp: simple_ok_def exchanged_def simple_acked_def going_def)
qed

definition demo_text :: StreamMessage where
  "demo_text = \<lparr>sm_request_id = 1, sm_msg_id = \<lparr>mi_producer_id = 1, mi_topic_name = ''/default/simple_topic'',
        mi_broker_addr = demo_uri, mi_topic_offset = 0\<rparr>,
      sm_payload = [72, 105], sm_publish_time = 0, sm_producer_name = ''p'', sm_subscription_name = '''',
      sm_attributes = [], sm_schema_id = None, sm_schema_version = None, sm_routing_key = None\<rparr>"

definition demo_broker :: "nat Outside" where
  "demo_broker = refusing\<lparr>
     answer_CreateProducer := always (Inr \<lparr>prs_request_id = 1, prs_producer_id = 7, prs_producer_name = ''p''\<rparr>),
     answer_SendMessage := always (Inr \<lparr>mrs_request_id = 9\<rparr>),
     answer_TopicPartitions := always (Inr \<lparr>tps_request_id = 1, tps_partitions = [''/default/simple_topic'']\<rparr>),
     answer_Subscribe := always (Inr \<lparr>crs_request_id = 1, crs_consumer_id = 7, crs_consumer_name = ''c''\<rparr>),
     answer_ReceiveMessages := always (Inr 5),
     next_message := (\<lambda>stream x. (Inr (Some demo_text), x)),
     answer_Ack := always (Inr \<lparr>ars_request_id = 1\<rparr>)\<rparr>"

lemma demo_broker_delivers:
  "welcomes demo_broker ''/default/simple_topic''" "settles demo_broker (Inr ())" "keeps_sending demo_broker demo_text"
  "text_decodes demo_text" "mi_topic_name (sm_msg_id demo_text) = ''/default/simple_topic''"
proof -
  show "text_decodes demo_text" by code_simp
  show "welcomes demo_broker ''/default/simple_topic''"
    by (auto simp: demo_broker_def welcomes_def always_creates_def always_subscribes_def always_def)
qed (simp_all add: demo_broker_def settles_def keeps_sending_def always_answers_def always_def demo_text_def)

theorem simple_exchanges_witness:
  "\<exists>d0 d. simple_process demo_broker [0] (\<lambda>n. [0..<n]) 0 = Inr d0 \<and> simple_run demo_broker d0 (replicate 5 demo_text) d
    \<and> d_main d = Completed \<and> (\<exists>bs. sent (d_world d) = concat bs \<and> in_rounds simple_round bs \<and> length bs = 5)
    \<and> simple_closed d"
proof -
  obtain d0 d where run: "simple_process demo_broker [0] (\<lambda>n. [0..<n]) 0 = Inr d0"
    "simple_run demo_broker d0 (replicate 5 demo_text) d" "d_main d = Completed"
    using simple_runs_through [OF demo_broker_delivers(1-4), of "[0]" 0] by blast
  then have "\<not> going d" by (simp add: going_def)
  with simple_exchanges [OF schedule_upt run(1,2)] run show ?thesis by blast
qed

text \<open>C31: The demo can complete. With a broker that accepts the producer, the messages and the
  subscription, and delivers and accepts the acknowledgement of a message that is text, there is a
  run in which the script takes it five times and reports that the demo is complete.\<close>

theorem simple_demo_completes:
  assumes "welcomes E part" and "settles E (Inr ())" and "keeps_sending E m" and "text_decodes m"
  shows "\<exists>d0 d. simple_process E order (\<lambda>n. [0..<n]) x = Inr d0 \<and> simple_run E d0 (replicate 5 m) d \<and> d_main d = Completed"
  using simple_runs_through [OF assms] by blast

theorem simple_demo_completes_witness:
  "\<exists>d0 d. simple_process demo_broker [] (\<lambda>n. [0..<n]) 0 = Inr d0 \<and> simple_run demo_broker d0 (replicate 5 demo_text) d
    \<and> d_main d = Completed"
  by (rule simple_demo_completes [OF demo_broker_delivers(1-4)])

section \<open>A failure of the producer task\<close>

text \<open>Once the task has failed while the main coroutine receives, only a message or an interrupt gets
  the main coroutine any further.\<close>

lemma failed_task_stays:
  assumes "simple_run E d taken d'" and "taken = []" and "d_task d = Failed e" and "d_main d = Receiving" and "simple_ok [] d"
  shows "d_task d' = Failed e \<and> (d_main d' = Receiving \<or> d_main d' = Interrupted)"
  using assms(1,2)
proof (induction rule: simple_run.induct)
  case start
  show ?case using assms(3,4) by simp
next
  case (interrupt taken d1)
  then have "simple_ok [] d1" using simple_run_ok [OF _ assms(5)] by blast
  then have "simple_serving d1" "exchanged [] d1" using interrupt.hyps(2) by (simp_all add: simple_ok_def)
  moreover have "d_task d1 = Failed e" using interrupt by blast
  then have "simple_interrupted d1 = simple_finish Interrupted d1"
    by (cases d1) (simp add: simple_interrupted_def)
  ultimately show ?case
    using simple_finish_closes [of d1 "[]" Interrupted] \<open>d_task d1 = Failed e\<close> by simp
qed (auto simp: going_def)

text \<open>C32: The script does not notice that its producer failed. With a broker that welcomes both and
  refuses messages with an error that no retry can mend, a run reaches a point where the producer
  task has failed on its first message while the main coroutine still receives; and as long as no
  message arrives from elsewhere, every continuation leaves it receiving or ends by an interrupt:
  the error is never raised.\<close>

theorem simple_failure_unnoticed:
  assumes "welcomes E part" and "settles E (Inl e)"
  shows "\<exists>d0 d e'. simple_process E order (\<lambda>n. [0..<n]) x = Inr d0 \<and> simple_run E d0 [] d
    \<and> d_task d = Failed e' \<and> d_main d = Receiving \<and> length (sent (d_world d)) = 1
    \<and> (\<forall>d'. simple_run E d [] d' \<longrightarrow> d_task d' = Failed e' \<and> (d_main d' = Receiving \<or> d_main d' = Interrupted))"
proof -
  obtain d0 where process: "simple_process E order (\<lambda>n. [0..<n]) x = Inr d0" and ok: "simple_ok [] d0"
    and d0: "live ''/default/simple_topic'' (d_producer d0, d_world d0)" "d_task d0 = Sending 1" "d_main d0 = Receiving"
    by (rule simple_welcomed [OF assms(1)])
  obtain r m p w where send: "p_send E (encode (simple_text 1)) None (d_producer d0, d_world d0) = Some (r, (p, w))"
    and r: "map_sum id (\<lambda>_. ()) r = Inl e" and m: "sends [m] (d_world d0) w"
    by (rule settled_send [OF assms(2) d0(1)])
  have "r = Inl e" using r by (cases r) simp_all
  define d where "d = d0\<lparr>d_producer := p, d_world := w, d_task := Failed e\<rparr>"
  have "simple_send E 1 d0 = Some d" using send \<open>r = Inl e\<close> by (simp add: simple_send_def d_def)
  with d0 have run: "simple_run E d0 [] d" by (blast intro: simple_run.intros going_def [THEN iffD2])
  have "sent (d_world d0) = []" using ok d0(2) by (auto simp: simple_ok_def exchanged_def sent_by_def)
  then have "length (sent (d_world d)) = 1" using m by (simp add: sends_def d_def)
  moreover have "d_task d = Failed e" "d_main d = Receiving" using d0(3) by (simp_all add: d_def)
  moreover have "simple_ok [] d" by (rule simple_run_ok [OF run ok])
  ultimately show ?thesis using process run failed_task_stays [of E d "[]"] by blast
qed

definition demo_denying :: "nat Outside" where
  "demo_denying = demo_broker\<lparr>answer_SendMessage := answer_SendMessage refusing\<rparr>"

theorem simple_failure_unnoticed_witness:
  "\<exists>d0 d e'. simple_process demo_denying [] (\<lambda>n. [0..<n]) 0 = Inr d0 \<and> simple_run demo_denying d0 [] d
    \<and> d_task d = Failed e' \<and> d_main d = Receiving"
proof -
  have "settles demo_denying (Inl (AioRpcError UNIMPLEMENTED ''''))"
    by (simp add: demo_denying_def settles_def refusing_def refuse_def)
  moreover have "welcomes demo_denying ''/default/simple_topic''"
    using demo_broker_delivers(1) by (simp add: demo_denying_def welcomes_def always_creates_def always_subscribes_def)
  ultimately show ?thesis
    using simple_failure_unnoticed [of demo_denying "''/default/simple_topic''" "AioRpcError UNIMPLEMENTED ''''" "[]" 0] by blast
qed

end
