(* ===== verification/Spec2Isabelle.thy ===== *)
theory Spec2Isabelle
  imports Wire ProducerProperties ConsumerProperties ClientProperties ServiceProperties
    ExampleConsumerProperties ExampleProducerProperties ExampleEvolutionProperties SimpleProperties
begin

text \<open>
  A model of danube-py, the asynchronous Python client of the Danube message broker, and proofs of
  what it promises. All code under \<open>src/danube/\<close> that is written by hand is modelled, and so are the
  generated code of the services and the scripts under \<open>src/examples/\<close>; this theory only collects the
  development and says how it is laid out.

  \<^bold>\<open>The program.\<close> An application builds a client (\<open>client.py\<close>). Its producers and consumers share one
  connection manager (\<open>connection_manager.py\<close>), one token source (\<open>auth_service.py\<close>), the lookup of
  the broker that serves a topic (\<open>lookup_service.py\<close>) and the health checks (\<open>health_check.py\<close>), which
  run in the background, one for each producer or consumer that the broker knows, and set a stop
  event when the broker answers CLOSE. A \<open>Producer\<close> (\<open>producer.py\<close>) routes messages
  (\<open>message_router.py\<close>) to one \<open>TopicProducer\<close> for each partition (\<open>topic_producer.py\<close>); a \<open>Consumer\<close>
  (\<open>consumer.py\<close>) has one \<open>TopicConsumer\<close> for each partition (\<open>topic_consumer.py\<close>) and a receive task for
  each that moves messages from a stream to a bounded queue. Both retry with backoff
  (\<open>retry_manager.py\<close>). \<open>schema_registry_client.py\<close> and \<open>schema.py\<close> talk to the schema registry. The
  scripts \<open>examples/*.py\<close> are small applications: seven consumers, five producers, the evolution of a
  schema, and a producer and a consumer in one process.

  \<^bold>\<open>How code becomes a definition.\<close> A method that may raise is a function from the state to an
  exception or a value and the new state (\<open>Prelude\<close>); what it wrote before it raised stays written.
  The state of a method of an object is the pair of the object, a record with the fields of
  \<open>__init__\<close>, and the world (\<open>World\<close>): the connection manager, counters, events, tasks and lists that
  objects share, the state of everything outside, and the history of calls and sleeps. References
  are indices. What the client calls and does not implement is the record \<open>Outside\<close>, an argument of
  every definition that needs it: the stub methods, the messages of a stream, the clock, the random
  source, the files. Nothing is assumed of it except in the hypotheses of a theorem. Unbounded
  Python integers are \<open>int\<close>, identifiers that the protocol stores in 32 or 64 bits are words, and
  the fields check their range as protobuf does.

  \<^bold>\<open>Theories.\<close>
  \<^item> \<open>Prelude\<close>, \<open>Errors\<close>, \<open>PyText\<close>: the methods and their combinators, the contract \<open>evolution\<close> of relations
    that every step of a method keeps, the exceptions (\<open>errors.py\<close>), Python text.
  \<^item> \<open>RetryManager\<close>, \<open>MessageRouter\<close>, \<open>Schema\<close>, \<open>Messages\<close>: \<open>retry_manager.py\<close>, \<open>message_router.py\<close>,
    \<open>schema.py\<close> and \<open>dispatch_strategy.py\<close>, and the records of the messages in the \<open>.proto\<close> files.
  \<^item> \<open>Connections\<close>, \<open>World\<close>, \<open>Lookup\<close>, \<open>HealthCheck\<close>, \<open>SchemaRegistry\<close>: the shared services. \<open>Connections\<close>
    states the pool as the locale \<open>pool\<close>; \<open>HealthCheck\<close> models the background task as the step relation
    \<open>health_step\<close>, in which anything else may happen between two steps of the task.
  \<^item> \<open>RetryLoop\<close>: the loop that \<open>TopicProducer.create\<close> and \<open>TopicConsumer.subscribe\<close> share, as the locales
    \<open>retry_loop\<close> and \<open>connecting\<close> with the specification \<open>bounded_tries\<close>, and \<open>until_done\<close>, the loop of a send,
    which may not end. \<open>Gather\<close>: \<open>asyncio.gather\<close>. \<open>Endpoint\<close>: what both kinds of endpoints share.
  \<^item> \<open>TopicProducer\<close>, \<open>Producer\<close>, \<open>TopicConsumer\<close>, \<open>Consumer\<close>, \<open>Client\<close>: the files of these names. \<open>Consumer\<close>
    models a receive task as the step relation \<open>recv_step\<close> and the process around it as
    \<open>consumer_step\<close>. \<open>ConsumerRuns\<close> holds the effect of its operations; \<open>ConsumerEvents\<close> gives every
    step its events (a message arrives, is delivered, dropped or taken, a queue is opened) and shows that
    the queues and the tasks follow them; \<open>ConsumerWellformed\<close> holds how the objects of a consumer
    belong together over any run.
  \<^item> \<open>Wire\<close>: \<open>proto/DanubeApi_pb2_grpc.py\<close> and \<open>proto/SchemaRegistry_pb2_grpc.py\<close>, the generated stubs,
    servicers, registrations and static methods, and the services that the \<open>.proto\<close> files declare.
  \<^item> \<open>Json\<close>: \<open>json.dumps\<close> and \<open>json.loads\<close> of Python's standard library, and that the latter reads what
    the former wrote.
  \<^item> \<open>Examples\<close>, \<open>ExampleConsumers\<close>, \<open>ExampleProducers\<close>, \<open>ExampleSimple\<close>: the scripts under \<open>examples/\<close>. A
    producer script is a program that may not return (\<open>prog\<close>); a consumer script is its start and the
    handling of a message, and its runs are the relation \<open>script_run\<close>; the runs of
    \<open>simple_producer_consumer.py\<close>, whose producer task and main coroutine take turns, are \<open>simple_run\<close>.
  \<^item> \<open>Traffic\<close>: the messages and acknowledgements that a client has sent, read off its history.
  \<^item> \<open>ScriptRuns\<close>, \<open>ScriptContract\<close>, \<open>ScriptDelivery\<close> hold what every run of a consumer script keeps: the
    contract of a script is the locale \<open>acking\<close>, interpreted for each of the seven. \<open>ScriptSends\<close>,
    \<open>ScriptLoops\<close>, \<open>ScriptOutcomes\<close> do the same for producer scripts, with the locale \<open>producing\<close>, and
    \<open>SimpleRuns\<close> for \<open>simple_producer_consumer.py\<close>. \<open>ExampleConsumerProperties\<close>, \<open>ExampleProducerProperties\<close>,
    \<open>ExampleEvolutionProperties\<close> and \<open>SimpleProperties\<close> hold the properties.
  \<^item> \<open>HealthProperties\<close>, \<open>TopicProducerProperties\<close>, \<open>ProducerProperties\<close>, \<open>ConsumerProperties\<close>,
    \<open>ServiceProperties\<close>, \<open>ClientProperties\<close> and \<open>MessageRouter\<close> hold the properties, each with a witness
    that applies it; \<open>Scenario\<close> is the concrete outside of the witnesses.

  \<^bold>\<open>What is shown.\<close> Routing: the hash is 64-bit FNV-1a, round robin is fair, a keyed send goes to the
  partition of its key and to no other, sends without a key rotate. Creation and subscription:
  every partition is created in any order of completion, the number of attempts and waits is
  exact in an outage, an error that is no use retrying is reported at once, what is returned is
  connected and watched by a health check. Sending: one call with the message the arguments say,
  increasing request identifiers; a send gives up in an outage, and never returns when the broker
  refuses the messages but keeps accepting the producer; a producer that is created again after
  CLOSE is no longer watched. Receiving: in every reachable state the topic consumers, stop events,
  health checks and tasks of a consumer belong together; along the events of any run the
  queues are bounded mailboxes, and no message is lost or made up between a stream and its queue; a message
  reaches its queue, CLOSE leads to a new subscription, \<open>close\<close> silences the tasks, dropped streams
  are reopened without a wait. Services: bounds of the backoff, sharing of connections, outcome
  of a lookup, metadata, names and ranges in the schema registry, the security of a client, and
  the agreement of the generated service code with the declarations and with itself.
  Examples: a consumer script acknowledges exactly the messages it took and could decode, in order,
  and which payloads end it; a producer script sends the messages of its rounds, in order, and closes
  its producer however it ends; two of them end normally when every message was refused; what the
  producers send the consumers can decode; \<open>schema_evolution.py\<close> never registers an incompatible
  version, and reports success even if it left out the second; \<open>simple_producer_consumer.py\<close> completes
  only after five messages each way, closes both ends, and does not notice that its producer failed.

  \<^bold>\<open>Bounds.\<close> The retry loops end because the attempts left decrease; the send loop is a partial
  function whose value \<open>None\<close> says that it does not return. The receive loop, the health check, the
  consumer scripts and the process of \<open>simple_producer_consumer.py\<close> are step relations. Only the JSON reader has fuel: \<open>loads\<close> gives it \<open>enough\<close>, twice
  the length of the text and one more, and \<open>parse_enough\<close> shows that on every text more fuel would give
  the same result.

  \<^bold>\<open>Limits of the model.\<close> Between two awaits nothing else of the client runs, in Python too; the model
  also runs a whole method without interruption, except for the health check and the receive
  tasks, which are interleaved with everything else turn by turn. Gathered coroutines run one
  after the other, in any order. A cancellation takes effect between two turns of a task. A task that
  waits for a silent stream is one that takes no step: its next turn is the one in which the stream
  yields, ends or fails, and no theorem says that this turn comes. The
  options object of a client builder is copied by \<open>build\<close>. Log messages are left out, and so is
  the text of exceptions raised by grpc beyond status and details.

  \<^bold>\<open>Not modelled.\<close> The serialised descriptors \<open>*_pb2.py\<close> (the messages are modelled as records from the
  \<open>.proto\<close> files), \<open>grpc\<close> itself (what a broker answers is a parameter), the re-exports in \<open>__init__.py\<close>, and
  the integration tests, which assert on a running broker. Of the scripts: what they print, the
  \<open>__main__\<close> guards with their \<open>KeyboardInterrupt\<close>, the package \<open>jsonschema\<close> (the argument \<open>iter_errors\<close>), and
  the interpreter's limits on recursion and on the digits of an integer. An interrupt reaches a
  script only where it waits for a message or sleeps.
\<close>

end
